theory Spec2Isabelle
  imports Main "HOL-Library.Word"
begin

section \<open>Go values\<close>

text \<open>
  The package works on byte slices. A Go \<^verbatim>\<open>[]byte\<close> whose content and length
  are all that the code reads is a list of bytes. Where the code (or the
  MessagePack codec it calls) tells the nil slice from an empty one, the slice is a
  \<open>go_bytes\<close>: \<open>None\<close> is nil, \<open>Some []\<close> is the empty, non-nil slice.
  A \<^verbatim>\<open>uuid.UUID\<close> is a \<^verbatim>\<open>[16]byte\<close>; it is kept as its list of bytes, and the
  length 16 is a well-formedness condition that theorems state where they need it.
  Go's \<^verbatim>\<open>uint\<close> is a word of 64 bits.
\<close>

type_synonym byte = "8 word"
type_synonym bytes = "byte list"
type_synonym go_bytes = "bytes option"
type_synonym uuid = bytes
type_synonym uint = "64 word"

definition len :: "go_bytes \<Rightarrow> nat" where
  "len s = (case s of None \<Rightarrow> 0 | Some bs \<Rightarrow> length bs)"

text \<open>
  Go errors. \<open>PKCS11 rv\<close> is a \<^verbatim>\<open>pkcs11.Error\<close> (a \<^verbatim>\<open>uint\<close>, the return code of the
  device library), \<open>External s\<close> is an error value of any other type that comes from
  outside the package, and \<open>Errorf fmt args\<close> is the value of
  \<^verbatim>\<open>fmt.Errorf(fmt, args...)\<close> with the format string and the arguments of the source.
  \<open>Panic\<close> is not an error value: it stands for a run-time panic, which unwinds
  through every caller instead of being returned.
\<close>

datatype go_error =
    PKCS11 uint
  | External string
  | Errorf string "fmt_arg list"
  | Panic string
and fmt_arg =
    ArgInt int
  | ArgStr string
  | ArgBytes bytes
  | ArgErr go_error

text \<open>
  Indexing and slicing panic in Go when they leave the slice; the three helpers give
  the value inside the bounds and the panic outside.
\<close>

definition go_index :: "bytes \<Rightarrow> int \<Rightarrow> go_error + byte" where
  "go_index xs i =
     (if 0 \<le> i \<and> i < int (length xs) then Inr (xs ! nat i)
      else Inl (Panic ''index out of range''))"

definition go_slice_to :: "bytes \<Rightarrow> int \<Rightarrow> go_error + bytes" where
  "go_slice_to xs hi =
     (if 0 \<le> hi \<and> hi \<le> int (length xs) then Inr (take (nat hi) xs)
      else Inl (Panic ''slice bounds out of range''))"

definition go_slice_from :: "bytes \<Rightarrow> int \<Rightarrow> go_error + bytes" where
  "go_slice_from xs lo =
     (if 0 \<le> lo \<and> lo \<le> int (length xs) then Inr (drop (nat lo) xs)
      else Inl (Panic ''slice bounds out of range''))"

fun is_Panic :: "go_error \<Rightarrow> bool" where
  "is_Panic (Panic s) = True"
| "is_Panic e = False"

section \<open>Constants of the package\<close>

text \<open>
  Modelled from the spec: the constant \<^verbatim>\<open>nistp256SignatureLength\<close> is declared in a
  file of the package that is not among the sources. The spec gives the signature as
  "64 bytes, raw r||s", and the source comments its use in \<^verbatim>\<open>lenMsgpackSignatureElement\<close>
  as the msgpack header for a byte array, \<^verbatim>\<open>0xc4XX\<close>, plus the signature.
\<close>

definition nistp256SignatureLength :: nat where
  "nistp256SignatureLength = 64"

definition expectedHashSize :: nat where
  "expectedHashSize = 32"

definition lenMsgpackSignatureElement :: nat where
  "lenMsgpackSignatureElement = 2 + nistp256SignatureLength"

definition Signed :: byte where "Signed = 0x22"
definition Chained :: byte where "Chained = 0x23"

definition Binary :: byte where "Binary = 0x00"
definition Disable :: byte where "Disable = 0xFA"
definition Enable :: byte where "Enable = 0xFB"
definition Delete :: byte where "Delete = 0xFC"

section \<open>The Crypto capability and the Protocol structure\<close>

text \<open>
  \<^verbatim>\<open>Crypto\<close> is an interface; the three methods that the protocol engine calls are
  the fields of a record of functions. A call gives whatever the backend gives, so
  theorems hold for every such record.
  \<^verbatim>\<open>Protocol.Signatures\<close> is a Go map: nil, as in the zero value \<^verbatim>\<open>Protocol{Crypto: c}\<close>,
  or initialised, as the package's tests construct it
  (\<^verbatim>\<open>Signatures: map[uuid.UUID][]byte{}\<close>). Reading an entry of a nil map finds
  nothing; assigning to an entry of a nil map panics.
\<close>

type_synonym ('k, 'v) go_map = "('k \<rightharpoonup> 'v) option"

definition map_index :: "('k, 'v) go_map \<Rightarrow> 'k \<Rightarrow> 'v option" where
  "map_index m k = (case m of None \<Rightarrow> None | Some entries \<Rightarrow> entries k)"

definition map_assign :: "('k, 'v) go_map \<Rightarrow> 'k \<Rightarrow> 'v \<Rightarrow> go_error + ('k, 'v) go_map" where
  "map_assign m k v =
     (case m of
        None \<Rightarrow> Inl (Panic ''assignment to entry in nil map'')
      | Some entries \<Rightarrow> Inr (Some (entries(k \<mapsto> v))))"

record crypto =
  Crypto_GetUUID :: "string \<Rightarrow> go_error + uuid"
  Crypto_Sign :: "uuid \<Rightarrow> bytes \<Rightarrow> go_error + bytes"
  Crypto_Verify :: "uuid \<Rightarrow> bytes \<Rightarrow> bytes \<Rightarrow> bool \<times> go_error option"

record Protocol =
  Crypto :: crypto
  Signatures :: "(uuid, bytes) go_map"

section \<open>Ubirch Protocol Packages\<close>

text \<open>
  The two structs that implement the interface \<^verbatim>\<open>UPP\<close>, with their fields in the
  order of the source: \<^verbatim>\<open>SignedUPP{Version, Uuid, Hint, Payload, Signature}\<close> and
  \<^verbatim>\<open>ChainedUPP{Version, Uuid, PrevSignature, Hint, Payload, Signature}\<close>.
  \<^verbatim>\<open>ProtocolVersion\<close> and \<^verbatim>\<open>Hint\<close> are \<^verbatim>\<open>uint8\<close>.
\<close>

datatype UPP =
    SignedUPP byte uuid byte go_bytes go_bytes
  | ChainedUPP byte uuid go_bytes byte go_bytes go_bytes

fun GetVersion :: "UPP \<Rightarrow> byte" where
  "GetVersion (SignedUPP version uid hint payload signature) = version"
| "GetVersion (ChainedUPP version uid prevSignature hint payload signature) = version"

fun GetUuid :: "UPP \<Rightarrow> uuid" where
  "GetUuid (SignedUPP version uid hint payload signature) = uid"
| "GetUuid (ChainedUPP version uid prevSignature hint payload signature) = uid"

fun GetPrevSignature :: "UPP \<Rightarrow> go_bytes" where
  "GetPrevSignature (SignedUPP version uid hint payload signature) = None"
| "GetPrevSignature (ChainedUPP version uid prevSignature hint payload signature) = prevSignature"

fun GetHint :: "UPP \<Rightarrow> byte" where
  "GetHint (SignedUPP version uid hint payload signature) = hint"
| "GetHint (ChainedUPP version uid prevSignature hint payload signature) = hint"

fun GetPayload :: "UPP \<Rightarrow> go_bytes" where
  "GetPayload (SignedUPP version uid hint payload signature) = payload"
| "GetPayload (ChainedUPP version uid prevSignature hint payload signature) = payload"

fun GetSignature :: "UPP \<Rightarrow> go_bytes" where
  "GetSignature (SignedUPP version uid hint payload signature) = signature"
| "GetSignature (ChainedUPP version uid prevSignature hint payload signature) = signature"

section \<open>The MessagePack wire format\<close>

text \<open>
  \<^verbatim>\<open>Encode\<close> and \<^verbatim>\<open>Decode\<close> hand the packet to the MessagePack codec
  (\<^verbatim>\<open>github.com/ugorji/go/codec\<close>), an external library, with the handle options
  \<^verbatim>\<open>StructToArray = true\<close> and \<^verbatim>\<open>WriteExt = true\<close>. What the codec writes for the
  two structs is fixed by the MessagePack format and these options:
  \<^item> the struct is an array of its fields in order, headed by the array length
    (\<open>0x90 + n\<close> for fewer than 16 fields);
  \<^item> a \<^verbatim>\<open>uint8\<close> below 128 is the byte itself, otherwise \<open>0xCC\<close> and the byte;
  \<^item> a byte slice is nil (\<open>0xC0\<close>) when it is the nil slice, otherwise a bin header
    (\<open>0xC4\<close> and one length byte below 256, \<open>0xC5\<close> and two length bytes below 65536,
    \<open>0xC6\<close> and the length as a 32-bit big-endian number otherwise) and the bytes;
  \<^item> the UUID goes through its \<^verbatim>\<open>MarshalBinary\<close>, the 16 bytes as a byte slice, and
    comes back through \<^verbatim>\<open>UnmarshalBinary\<close>, which wants exactly 16 bytes.
  The decoder below reads the representations that the library's decoder accepts for
  these structs: nil for the whole struct and for every field (the target gets its
  zero value), an array of any length and a map keyed by the field names for a
  struct, every integer representation for a \<^verbatim>\<open>uint8\<close>, the bin and the str family
  for a byte slice. Two things are left out: a byte slice written as an array of
  integers, which the model reports as a codec error, and the capacity of the input
  slice beyond its length (a read ends at the length). The nesting of swallowed
  values is not bounded. The codec recovers its own panics and returns them as
  errors, so its errors are \<open>External\<close> values. Bytes after the first value are not
  read (\<^verbatim>\<open>Decode\<close> decodes one value).
\<close>

definition be16 :: "nat \<Rightarrow> bytes" where
  "be16 l = [of_nat (l div 256), of_nat l]"

definition be32 :: "nat \<Rightarrow> bytes" where
  "be32 l = [of_nat (l div 16777216), of_nat (l div 65536), of_nat (l div 256), of_nat l]"

definition writeContainerLen_Bin :: "nat \<Rightarrow> bytes" where
  "writeContainerLen_Bin l =
     (if l < 256 then [0xC4, of_nat l]
      else if l < 65536 then 0xC5 # be16 l
      else 0xC6 # be32 l)"

definition writeContainerLen_List :: "nat \<Rightarrow> bytes" where
  "writeContainerLen_List l =
     (if l < 16 then [0x90 + of_nat l]
      else if l < 65536 then 0xDC # be16 l
      else 0xDD # be32 l)"

definition EncodeUint :: "byte \<Rightarrow> bytes" where
  "EncodeUint i = (if i \<le> 0x7F then [i] else [0xCC, i])"

definition EncodeStringBytesRaw :: "go_bytes \<Rightarrow> bytes" where
  "EncodeStringBytesRaw bs =
     (case bs of None \<Rightarrow> [0xC0]
      | Some b \<Rightarrow> writeContainerLen_Bin (length b) @ b)"

definition encoder_Encode :: "UPP \<Rightarrow> bytes" where
  "encoder_Encode upp =
     (case upp of
        SignedUPP version uid hint payload signature \<Rightarrow>
          writeContainerLen_List 5 @ EncodeUint version @ EncodeStringBytesRaw (Some uid)
          @ EncodeUint hint @ EncodeStringBytesRaw payload @ EncodeStringBytesRaw signature
      | ChainedUPP version uid prevSignature hint payload signature \<Rightarrow>
          writeContainerLen_List 6 @ EncodeUint version @ EncodeStringBytesRaw (Some uid)
          @ EncodeStringBytesRaw prevSignature @ EncodeUint hint
          @ EncodeStringBytesRaw payload @ EncodeStringBytesRaw signature)"

text \<open>Decoders take the input that is left and give the value and the rest.\<close>

definition readn :: "nat \<Rightarrow> bytes \<Rightarrow> go_error + (bytes \<times> bytes)" where
  "readn n bs =
     (if n \<le> length bs then Inr (take n bs, drop n bs)
      else Inl (External ''unexpected EOF''))"

definition from_be :: "bytes \<Rightarrow> nat" where
  "from_be bs = foldl (\<lambda>acc b. acc * 256 + unat b) 0 bs"

text \<open>A length or a count of \<open>n\<close> big-endian bytes.\<close>

definition read_be :: "nat \<Rightarrow> bytes \<Rightarrow> go_error + (nat \<times> bytes)" where
  "read_be n bs = (case readn n bs of Inl e \<Rightarrow> Inl e | Inr (l, rest) \<Rightarrow> Inr (from_be l, rest))"

text \<open>
  \<^verbatim>\<open>TryDecodeAsNil\<close>: when the next value is nil it is consumed. The decoder asks this
  before it decodes the target and before every field of a struct; on nil the target
  is set to its zero value.
\<close>

definition TryDecodeAsNil :: "bytes \<Rightarrow> bool \<times> bytes" where
  "TryDecodeAsNil bs =
     (case bs of
        [] \<Rightarrow> (False, bs)
      | bd # rest \<Rightarrow> if bd = 0xC0 then (True, rest) else (False, bs))"

text \<open>
  An unsigned integer is read from every integer representation of the format; a
  negative number is an error. A \<^verbatim>\<open>uint8\<close> target takes a value below 256.
\<close>

definition read_int :: "nat \<Rightarrow> bytes \<Rightarrow> go_error + (nat \<times> bytes)" where
  "read_int n bs =
     (case readn n bs of
        Inl e \<Rightarrow> Inl e
      | Inr (v, rest) \<Rightarrow>
          if 0x80 \<le> hd v
          then Inl (External ''assigning negative signed value to unsigned type'')
          else Inr (from_be v, rest))"

definition DecodeUint64 :: "bytes \<Rightarrow> go_error + (nat \<times> bytes)" where
  "DecodeUint64 bs =
     (case bs of
        [] \<Rightarrow> Inl (External ''EOF'')
      | bd # rest \<Rightarrow>
          if bd \<le> 0x7F then Inr (unat bd, rest)
          else if bd = 0xCC then read_be 1 rest
          else if bd = 0xCD then read_be 2 rest
          else if bd = 0xCE then read_be 4 rest
          else if bd = 0xCF then read_be 8 rest
          else if bd = 0xD0 then read_int 1 rest
          else if bd = 0xD1 then read_int 2 rest
          else if bd = 0xD2 then read_int 4 rest
          else if bd = 0xD3 then read_int 8 rest
          else if 0xE0 \<le> bd
          then Inl (External ''assigning negative signed value to unsigned type'')
          else Inl (External ''cannot decode unsigned integer: unrecognized descriptor byte''))"

definition DecodeUint8 :: "bytes \<Rightarrow> go_error + (byte \<times> bytes)" where
  "DecodeUint8 bs =
     (case DecodeUint64 bs of
        Inl e \<Rightarrow> Inl e
      | Inr (ui, rest) \<Rightarrow>
          if 255 < ui then Inl (External ''overflow'') else Inr (of_nat ui, rest))"

text \<open>A byte slice is read from nil, from the bin family and from the str family.\<close>

definition readContainerLen_Bin :: "bytes \<Rightarrow> go_error + (nat \<times> bytes)" where
  "readContainerLen_Bin bs =
     (case bs of
        [] \<Rightarrow> Inl (External ''EOF'')
      | bd # rest \<Rightarrow>
          if bd = 0xC4 then read_be 1 rest
          else if bd = 0xC5 then read_be 2 rest
          else if bd = 0xC6 then read_be 4 rest
          else Inl (External ''msgpack: unhandled descriptor for a byte slice''))"

definition readContainerLen_Str :: "bytes \<Rightarrow> go_error + (nat \<times> bytes)" where
  "readContainerLen_Str bs =
     (case bs of
        [] \<Rightarrow> Inl (External ''EOF'')
      | bd # rest \<Rightarrow>
          if 0xA0 \<le> bd \<and> bd \<le> 0xBF then Inr (unat (bd - 0xA0), rest)
          else if bd = 0xD9 then read_be 1 rest
          else if bd = 0xDA then read_be 2 rest
          else if bd = 0xDB then read_be 4 rest
          else Inl (External ''invalid byte descriptor for decoding bytes''))"

definition DecodeBytes :: "bytes \<Rightarrow> go_error + (go_bytes \<times> bytes)" where
  "DecodeBytes bs =
     (case bs of
        [] \<Rightarrow> Inl (External ''EOF'')
      | bd # rest \<Rightarrow>
          if bd = 0xC0 then Inr (None, rest)
          else
            (case (if bd = 0xC4 \<or> bd = 0xC5 \<or> bd = 0xC6 then readContainerLen_Bin bs
                   else readContainerLen_Str bs) of
               Inl e \<Rightarrow> Inl e
             | Inr (clen, rest') \<Rightarrow>
                 (case readn clen rest' of
                    Inl e \<Rightarrow> Inl e
                  | Inr (b, rest'') \<Rightarrow> Inr (Some b, rest''))))"

definition UnmarshalBinary :: "go_bytes \<Rightarrow> go_error + uuid" where
  "UnmarshalBinary data =
     (if len data \<noteq> 16
      then Inl (External ''invalid UUID (got a number of bytes other than 16)'')
      else Inr (case data of None \<Rightarrow> [] | Some b \<Rightarrow> b))"

definition DecodeUuid :: "bytes \<Rightarrow> go_error + (uuid \<times> bytes)" where
  "DecodeUuid bs =
     (case DecodeBytes bs of
        Inl e \<Rightarrow> Inl e
      | Inr (xbs, rest) \<Rightarrow>
          (case UnmarshalBinary xbs of Inl e \<Rightarrow> Inl e | Inr uid \<Rightarrow> Inr (uid, rest)))"

text \<open>The headers of an array and of a map give the number of elements and of pairs.\<close>

definition ReadArrayStart :: "bytes \<Rightarrow> go_error + (nat \<times> bytes)" where
  "ReadArrayStart bs =
     (case bs of
        [] \<Rightarrow> Inl (External ''EOF'')
      | bd # rest \<Rightarrow>
          if 0x90 \<le> bd \<and> bd \<le> 0x9F then Inr (unat (bd - 0x90), rest)
          else if bd = 0xDC then read_be 2 rest
          else if bd = 0xDD then read_be 4 rest
          else Inl (External ''msgpack: unhandled descriptor for an array''))"

definition ReadMapStart :: "bytes \<Rightarrow> go_error + (nat \<times> bytes)" where
  "ReadMapStart bs =
     (case bs of
        [] \<Rightarrow> Inl (External ''EOF'')
      | bd # rest \<Rightarrow>
          if 0x80 \<le> bd \<and> bd \<le> 0x8F then Inr (unat (bd - 0x80), rest)
          else if bd = 0xDE then read_be 2 rest
          else if bd = 0xDF then read_be 4 rest
          else Inl (External ''msgpack: unhandled descriptor for a map''))"

text \<open>
  \<^verbatim>\<open>swallow\<close> reads values and throws them away. \<open>value_body\<close> reads the descriptor of
  one value and the bytes of the value itself and gives the number of values nested
  in it, which follow: the elements of an array, the keys and values of a map.
\<close>

definition skip_bytes :: "nat \<Rightarrow> bytes \<Rightarrow> go_error + (nat \<times> bytes)" where
  "skip_bytes n bs = (case readn n bs of Inl e \<Rightarrow> Inl e | Inr (v, rest) \<Rightarrow> Inr (0, rest))"

definition skip_sized :: "nat \<Rightarrow> nat \<Rightarrow> bytes \<Rightarrow> go_error + (nat \<times> bytes)" where
  "skip_sized n extra bs =
     (case read_be n bs of Inl e \<Rightarrow> Inl e | Inr (l, rest) \<Rightarrow> skip_bytes (extra + l) rest)"

definition skip_counted :: "nat \<Rightarrow> nat \<Rightarrow> bytes \<Rightarrow> go_error + (nat \<times> bytes)" where
  "skip_counted n each bs =
     (case read_be n bs of Inl e \<Rightarrow> Inl e | Inr (l, rest) \<Rightarrow> Inr (each * l, rest))"

definition value_body :: "bytes \<Rightarrow> go_error + (nat \<times> bytes)" where
  "value_body bs =
     (case bs of
        [] \<Rightarrow> Inl (External ''EOF'')
      | bd # rest \<Rightarrow>
          if bd \<le> 0x7F \<or> 0xE0 \<le> bd \<or> bd = 0xC0 \<or> bd = 0xC2 \<or> bd = 0xC3 then Inr (0, rest)
          else if 0x80 \<le> bd \<and> bd \<le> 0x8F then Inr (2 * unat (bd - 0x80), rest)
          else if 0x90 \<le> bd \<and> bd \<le> 0x9F then Inr (unat (bd - 0x90), rest)
          else if 0xA0 \<le> bd \<and> bd \<le> 0xBF then skip_bytes (unat (bd - 0xA0)) rest
          else if bd = 0xC4 \<or> bd = 0xD9 then skip_sized 1 0 rest
          else if bd = 0xC5 \<or> bd = 0xDA then skip_sized 2 0 rest
          else if bd = 0xC6 \<or> bd = 0xDB then skip_sized 4 0 rest
          else if bd = 0xC7 then skip_sized 1 1 rest
          else if bd = 0xC8 then skip_sized 2 1 rest
          else if bd = 0xC9 then skip_sized 4 1 rest
          else if bd = 0xCA then skip_bytes 4 rest
          else if bd = 0xCB then skip_bytes 8 rest
          else if bd = 0xCC \<or> bd = 0xD0 then skip_bytes 1 rest
          else if bd = 0xCD \<or> bd = 0xD1 then skip_bytes 2 rest
          else if bd = 0xCE \<or> bd = 0xD2 then skip_bytes 4 rest
          else if bd = 0xCF \<or> bd = 0xD3 then skip_bytes 8 rest
          else if bd = 0xD4 then skip_bytes 2 rest
          else if bd = 0xD5 then skip_bytes 3 rest
          else if bd = 0xD6 then skip_bytes 5 rest
          else if bd = 0xD7 then skip_bytes 9 rest
          else if bd = 0xD8 then skip_bytes 17 rest
          else if bd = 0xDC then skip_counted 2 1 rest
          else if bd = 0xDD then skip_counted 4 1 rest
          else if bd = 0xDE then skip_counted 2 2 rest
          else if bd = 0xDF then skip_counted 4 2 rest
          else Inl (External ''cannot infer value: unrecognized descriptor byte''))"

function swallow :: "nat \<Rightarrow> bytes \<Rightarrow> go_error + bytes" where
  "swallow n bs =
     (if n = 0 then Inr bs
      else
        case value_body bs of
          Inl e \<Rightarrow> Inl e
        | Inr (nested, rest) \<Rightarrow> swallow (n - 1 + nested) rest)"
  by pat_completeness auto
termination
proof -
  have skip: "length r < Suc (length b)" if "skip_bytes n b = Inr (k, r)" for n b k r
    using that by (auto simp: skip_bytes_def readn_def split: if_splits)
  have be: "length r \<le> length b" if "read_be n b = Inr (l, r)" for n b l r
    using that by (auto simp: read_be_def readn_def split: if_splits)
  have sized: "length r < Suc (length b)" if "skip_sized n x b = Inr (k, r)" for n x b k r
    using that be skip
    by (fastforce simp: skip_sized_def split: sum.splits)
  have counted: "length r < Suc (length b)" if "skip_counted n x b = Inr (k, r)" for n x b k r
    using that be
    by (fastforce simp: skip_counted_def split: sum.splits)
  have shorter: "length rest < length bs" if v: "value_body bs = Inr (nested, rest)"
    for bs nested rest
  proof (cases bs)
    case Nil
    then show ?thesis using v by (simp add: value_body_def)
  next
    case (Cons bd tail)
    then show ?thesis
      using v skip [of _ tail nested rest] sized [of _ _ tail nested rest]
        counted [of _ _ tail nested rest]
      by (auto simp: value_body_def split: if_splits)
  qed
  show ?thesis
    by (relation "measure (\<lambda>(n, bs). length bs)") (auto dest: shorter)
qed

declare swallow.simps [simp del]

text \<open>
  A field of a struct: nil in the input sets the field to its zero value, otherwise
  the field is decoded with the decoder of its type.
\<close>

fun set_Version :: "byte \<Rightarrow> UPP \<Rightarrow> UPP" where
  "set_Version v (SignedUPP version uid hint payload signature) =
     SignedUPP v uid hint payload signature"
| "set_Version v (ChainedUPP version uid prevSignature hint payload signature) =
     ChainedUPP v uid prevSignature hint payload signature"

fun set_Uuid :: "uuid \<Rightarrow> UPP \<Rightarrow> UPP" where
  "set_Uuid v (SignedUPP version uid hint payload signature) =
     SignedUPP version v hint payload signature"
| "set_Uuid v (ChainedUPP version uid prevSignature hint payload signature) =
     ChainedUPP version v prevSignature hint payload signature"

fun set_PrevSignature :: "go_bytes \<Rightarrow> UPP \<Rightarrow> UPP" where
  "set_PrevSignature v (SignedUPP version uid hint payload signature) =
     SignedUPP version uid hint payload signature"
| "set_PrevSignature v (ChainedUPP version uid prevSignature hint payload signature) =
     ChainedUPP version uid v hint payload signature"

fun set_Hint :: "byte \<Rightarrow> UPP \<Rightarrow> UPP" where
  "set_Hint v (SignedUPP version uid hint payload signature) =
     SignedUPP version uid v payload signature"
| "set_Hint v (ChainedUPP version uid prevSignature hint payload signature) =
     ChainedUPP version uid prevSignature v payload signature"

fun set_Payload :: "go_bytes \<Rightarrow> UPP \<Rightarrow> UPP" where
  "set_Payload v (SignedUPP version uid hint payload signature) =
     SignedUPP version uid hint v signature"
| "set_Payload v (ChainedUPP version uid prevSignature hint payload signature) =
     ChainedUPP version uid prevSignature hint v signature"

fun set_Signature :: "go_bytes \<Rightarrow> UPP \<Rightarrow> UPP" where
  "set_Signature v (SignedUPP version uid hint payload signature) =
     SignedUPP version uid hint payload v"
| "set_Signature v (ChainedUPP version uid prevSignature hint payload signature) =
     ChainedUPP version uid prevSignature hint payload v"

type_synonym struct_field = "UPP \<Rightarrow> bytes \<Rightarrow> go_error + (UPP \<times> bytes)"

definition kStructField ::
    "'a \<Rightarrow> (bytes \<Rightarrow> go_error + ('a \<times> bytes)) \<Rightarrow> ('a \<Rightarrow> UPP \<Rightarrow> UPP) \<Rightarrow> struct_field" where
  "kStructField zero decodeValue set_field upp bs =
     (case TryDecodeAsNil bs of
        (True, rest) \<Rightarrow> Inr (set_field zero upp, rest)
      | (False, rest) \<Rightarrow>
          (case decodeValue bs of
             Inl e \<Rightarrow> Inl e
           | Inr (v, rest') \<Rightarrow> Inr (set_field v upp, rest')))"

text \<open>The fields of the two structs with their names, in the order of the source.\<close>

definition SignedUPP_fields :: "(string \<times> struct_field) list" where
  "SignedUPP_fields =
     [(''Version'', kStructField 0 DecodeUint8 set_Version),
      (''Uuid'', kStructField (replicate 16 0) DecodeUuid set_Uuid),
      (''Hint'', kStructField 0 DecodeUint8 set_Hint),
      (''Payload'', kStructField None DecodeBytes set_Payload),
      (''Signature'', kStructField None DecodeBytes set_Signature)]"

definition ChainedUPP_fields :: "(string \<times> struct_field) list" where
  "ChainedUPP_fields =
     [(''Version'', kStructField 0 DecodeUint8 set_Version),
      (''Uuid'', kStructField (replicate 16 0) DecodeUuid set_Uuid),
      (''PrevSignature'', kStructField None DecodeBytes set_PrevSignature),
      (''Hint'', kStructField 0 DecodeUint8 set_Hint),
      (''Payload'', kStructField None DecodeBytes set_Payload),
      (''Signature'', kStructField None DecodeBytes set_Signature)]"

text \<open>The zero values of the structs, as \<^verbatim>\<open>new(SignedUPP)\<close> and \<^verbatim>\<open>new(ChainedUPP)\<close> give them.\<close>

definition new_SignedUPP :: UPP where
  "new_SignedUPP = SignedUPP 0 (replicate 16 0) 0 None None"

definition new_ChainedUPP :: UPP where
  "new_ChainedUPP = ChainedUPP 0 (replicate 16 0) None 0 None None"

text \<open>
  A struct is decoded from an array or from a map. From an array the fields are
  decoded in their order, as many as the array has elements; fields beyond the array
  keep their values, and elements beyond the fields are swallowed. From a map each
  key is read as a byte string and names the field that the value is decoded into;
  the value of a key that names no field is swallowed.
\<close>

fun kStruct_array :: "struct_field list \<Rightarrow> UPP \<Rightarrow> bytes \<Rightarrow> go_error + (UPP \<times> bytes)" where
  "kStruct_array [] upp bs = Inr (upp, bs)"
| "kStruct_array (si # tisfi) upp bs =
     (case si upp bs of
        Inl e \<Rightarrow> Inl e
      | Inr (upp', rest) \<Rightarrow> kStruct_array tisfi upp' rest)"

fun kStruct_map ::
    "(string \<times> struct_field) list \<Rightarrow> nat \<Rightarrow> UPP \<Rightarrow> bytes \<Rightarrow> go_error + (UPP \<times> bytes)" where
  "kStruct_map tisfi 0 upp bs = Inr (upp, bs)"
| "kStruct_map tisfi (Suc n) upp bs =
     (case DecodeBytes bs of
        Inl e \<Rightarrow> Inl e
      | Inr (rvkencname, rest) \<Rightarrow>
          (case map_of tisfi
                  (map (\<lambda>b. char_of (unat b)) (case rvkencname of None \<Rightarrow> [] | Some k \<Rightarrow> k)) of
             Some si \<Rightarrow>
               (case si upp rest of
                  Inl e \<Rightarrow> Inl e
                | Inr (upp', rest') \<Rightarrow> kStruct_map tisfi n upp' rest')
           | None \<Rightarrow>
               (case swallow 1 rest of
                  Inl e \<Rightarrow> Inl e
                | Inr rest' \<Rightarrow> kStruct_map tisfi n upp rest')))"

definition kStruct ::
    "(string \<times> struct_field) list \<Rightarrow> UPP \<Rightarrow> bytes \<Rightarrow> go_error + (UPP \<times> bytes)" where
  "kStruct tisfi upp bs =
     (case bs of
        [] \<Rightarrow> Inl (External ''EOF'')
      | bd # tail \<Rightarrow>
          if (0x80 \<le> bd \<and> bd \<le> 0x8F) \<or> bd = 0xDE \<or> bd = 0xDF then
            (case ReadMapStart bs of
               Inl e \<Rightarrow> Inl e
             | Inr (containerLen, rest) \<Rightarrow> kStruct_map tisfi containerLen upp rest)
          else if (0x90 \<le> bd \<and> bd \<le> 0x9F) \<or> bd = 0xDC \<or> bd = 0xDD then
            (case ReadArrayStart bs of
               Inl e \<Rightarrow> Inl e
             | Inr (containerLen, rest) \<Rightarrow>
                 (case kStruct_array (take containerLen (map snd tisfi)) upp rest of
                    Inl e \<Rightarrow> Inl e
                  | Inr (upp', rest') \<Rightarrow>
                      (case swallow (containerLen - length tisfi) rest' of
                         Inl e \<Rightarrow> Inl e
                       | Inr rest'' \<Rightarrow> Inr (upp', rest''))))
          else Inl (External ''only encoded map or array can be decoded into a struct''))"

text \<open>
  The struct decoders give the packet and the input after the value. The target is
  the zero struct that \<^verbatim>\<open>Decode\<close> allocates.
\<close>

definition kStruct_SignedUPP :: "bytes \<Rightarrow> go_error + (UPP \<times> bytes)" where
  "kStruct_SignedUPP bs =
     (case TryDecodeAsNil bs of
        (True, rest) \<Rightarrow> Inr (new_SignedUPP, rest)
      | (False, rest) \<Rightarrow> kStruct SignedUPP_fields new_SignedUPP bs)"

definition kStruct_ChainedUPP :: "bytes \<Rightarrow> go_error + (UPP \<times> bytes)" where
  "kStruct_ChainedUPP bs =
     (case TryDecodeAsNil bs of
        (True, rest) \<Rightarrow> Inr (new_ChainedUPP, rest)
      | (False, rest) \<Rightarrow> kStruct ChainedUPP_fields new_ChainedUPP bs)"

definition decoder_Decode_SignedUPP :: "bytes \<Rightarrow> go_error + UPP" where
  "decoder_Decode_SignedUPP bs =
     (case kStruct_SignedUPP bs of Inl e \<Rightarrow> Inl e | Inr (upp, unread) \<Rightarrow> Inr upp)"

definition decoder_Decode_ChainedUPP :: "bytes \<Rightarrow> go_error + UPP" where
  "decoder_Decode_ChainedUPP bs =
     (case kStruct_ChainedUPP bs of Inl e \<Rightarrow> Inl e | Inr (upp, unread) \<Rightarrow> Inr upp)"

section \<open>Encode and Decode\<close>

definition Encode :: "UPP \<Rightarrow> go_error + bytes" where
  "Encode upp = Inr (encoder_Encode upp)"

definition Decode :: "bytes \<Rightarrow> go_error + UPP" where
  "Decode upp =
     (if length upp < 2 then Inl (Errorf ''input nil or invalid length'' [])
      else
        case go_index upp 1 of
          Inl pnc \<Rightarrow> Inl pnc
        | Inr tag \<Rightarrow>
            if tag = Signed then
              (case decoder_Decode_SignedUPP upp of
                 Inl err \<Rightarrow> Inl err
               | Inr signedUPP \<Rightarrow> Inr signedUPP)
            else if tag = Chained then
              (case decoder_Decode_ChainedUPP upp of
                 Inl err \<Rightarrow> Inl err
               | Inr chainedUPP \<Rightarrow> Inr chainedUPP)
            else Inl (Errorf ''invalid protocol version: 0x%02x'' [ArgInt (uint tag)]))"

text \<open>
  \<^verbatim>\<open>DecodeSigned\<close> and \<^verbatim>\<open>DecodeChained\<close> decode and assert the type of the packet.
\<close>

fun is_SignedUPP :: "UPP \<Rightarrow> bool" where
  "is_SignedUPP (SignedUPP version uid hint payload signature) = True"
| "is_SignedUPP (ChainedUPP version uid prevSignature hint payload signature) = False"

definition DecodeSigned :: "bytes \<Rightarrow> go_error + UPP" where
  "DecodeSigned upp =
     (case Decode upp of
        Inl err \<Rightarrow> Inl err
      | Inr i \<Rightarrow>
          if \<not> is_SignedUPP i
          then Inl (Errorf ''type assertion failed: input not a signed UPP'' [])
          else Inr i)"

definition DecodeChained :: "bytes \<Rightarrow> go_error + UPP" where
  "DecodeChained upp =
     (case Decode upp of
        Inl err \<Rightarrow> Inl err
      | Inr i \<Rightarrow>
          if is_SignedUPP i
          then Inl (Errorf ''type assertion failed: input not a chained UPP'' [])
          else Inr i)"

definition CheckChainLink :: "UPP \<Rightarrow> UPP \<Rightarrow> bool \<times> go_error option" where
  "CheckChainLink previousUPP subsequentUPP =
     (if len (GetSignature previousUPP) = 0
      then (False, Some (Errorf ''signature field of previous UPP is empty'' []))
      else if len (GetPrevSignature subsequentUPP) = 0
      then (False, Some (Errorf ''previous signature field of subsequent UPP empty'' []))
      else (GetSignature previousUPP = GetPrevSignature subsequentUPP, None))"

section \<open>Signing\<close>

definition appendSignature :: "bytes \<Rightarrow> bytes \<Rightarrow> go_bytes" where
  "appendSignature data signature =
     (if length data = 0 \<or> length signature = 0 then None
      else Some ((data @ [0xC4, of_nat (length signature)]) @ signature))"

definition Protocol_sign :: "Protocol \<Rightarrow> UPP \<Rightarrow> (go_error + bytes) \<times> Protocol" where
  "Protocol_sign p upp =
     (case Encode upp of
        Inl err \<Rightarrow> (Inl err, p)
      | Inr encoded \<Rightarrow>
     (case go_slice_to encoded (int (length encoded) - 1) of
        Inl pnc \<Rightarrow> (Inl pnc, p)
      | Inr uppWithoutSig \<Rightarrow>
     (case Crypto_Sign (Crypto p) (GetUuid upp) uppWithoutSig of
        Inl err \<Rightarrow> (Inl err, p)
      | Inr signature \<Rightarrow>
          if length signature \<noteq> nistp256SignatureLength
          then (Inl (Errorf ''generated signature has invalid length'' []), p)
          else
            (case appendSignature uppWithoutSig signature of
               None \<Rightarrow> (Inl (Errorf ''appending signature to UPP data failed'' []), p)
             | Some uppWithSig \<Rightarrow>
                 if GetVersion upp = Chained then
                   (case map_assign (Signatures p) (GetUuid upp) signature of
                      Inl pnc \<Rightarrow> (Inl pnc, p)
                    | Inr signatures \<Rightarrow> (Inr uppWithSig, p\<lparr>Signatures := signatures\<rparr>))
                 else (Inr uppWithSig, p)))))"

definition Protocol_SignHashExtended ::
    "Protocol \<Rightarrow> string \<Rightarrow> bytes \<Rightarrow> byte \<Rightarrow> byte \<Rightarrow> (go_error + bytes) \<times> Protocol" where
  "Protocol_SignHashExtended p name hash protocol hint =
     (if length hash \<noteq> expectedHashSize
      then (Inl (Errorf ''invalid hash size, expected %v, got %v bytes''
                   [ArgInt (int expectedHashSize), ArgInt (int (length hash))]), p)
      else
        case Crypto_GetUUID (Crypto p) name of
          Inl err \<Rightarrow> (Inl err, p)
        | Inr uid \<Rightarrow>
            if protocol = Signed then
              Protocol_sign p (SignedUPP Signed uid hint (Some hash) None)
            else if protocol = Chained then
              (case map_index (Signatures p) uid of
                 None \<Rightarrow>
                   Protocol_sign p
                     (ChainedUPP Chained uid (Some (replicate nistp256SignatureLength 0)) hint
                        (Some hash) None)
               | Some prevSignature \<Rightarrow>
                   if length prevSignature \<noteq> nistp256SignatureLength
                   then (Inl (Errorf ''invalid last signature, can't create chained UPP'' []), p)
                   else
                     Protocol_sign p
                       (ChainedUPP Chained uid (Some prevSignature) hint (Some hash) None))
            else (Inl (Errorf ''invalid protocol version: 0x%02x'' [ArgInt (uint protocol)]), p))"

section \<open>Protocol.Verify\<close>

definition Protocol_Verify :: "Protocol \<Rightarrow> string \<Rightarrow> bytes \<Rightarrow> bool \<times> go_error option" where
  "Protocol_Verify p name upp =
     (if length upp \<le> lenMsgpackSignatureElement
      then (False, Some (Errorf ''input not verifiable, not enough data: len %d <= %d bytes''
                           [ArgInt (int (length upp)), ArgInt (int lenMsgpackSignatureElement)]))
      else
        case Crypto_GetUUID (Crypto p) name of
          Inl err \<Rightarrow> (False, Some err)
        | Inr uid \<Rightarrow>
        (case go_slice_to upp (int (length upp) - int lenMsgpackSignatureElement) of
           Inl pnc \<Rightarrow> (False, Some pnc)
         | Inr data \<Rightarrow>
        (case go_slice_from upp (int (length upp) - int nistp256SignatureLength) of
           Inl pnc \<Rightarrow> (False, Some pnc)
         | Inr signature \<Rightarrow> Crypto_Verify (Crypto p) uid data signature)))"

section \<open>The PKCS#11 device library\<close>

text \<open>
  The crypto context for hardware security modules talks to the device through
  \<^verbatim>\<open>github.com/miekg/pkcs11\<close>, an external library. The device and everything behind
  it is a state of an arbitrary type \<open>'d\<close>; each operation of the library that the
  package calls is a function that takes the state and gives what the call returns
  and the state after it. A \<^verbatim>\<open>pkcs11.Ctx\<close> is the record of these functions, and
  theorems hold for every such record.
  Return codes (\<^verbatim>\<open>pkcs11.Error\<close>), object classes, key types and flags are
  values of Go's \<^verbatim>\<open>uint\<close> with the numbers of the PKCS#11 standard; attribute types
  are kept by name. Session and object handles and slot numbers are natural numbers.
\<close>

datatype attr_type =
    CKA_CLASS | CKA_TOKEN | CKA_PRIVATE | CKA_LABEL | CKA_VALUE | CKA_KEY_TYPE | CKA_ID
  | CKA_SENSITIVE | CKA_SIGN | CKA_VERIFY | CKA_EXTRACTABLE | CKA_EC_PARAMS | CKA_EC_POINT

datatype attr_value = AttrBytes bytes | AttrString string | AttrBool bool | AttrUint uint

type_synonym attribute = "attr_type \<times> attr_value"

definition NewAttribute :: "attr_type \<Rightarrow> attr_value \<Rightarrow> attribute" where
  "NewAttribute typ x = (typ, x)"

definition CKO_PUBLIC_KEY :: uint where "CKO_PUBLIC_KEY = 0x2"
definition CKO_PRIVATE_KEY :: uint where "CKO_PRIVATE_KEY = 0x3"
definition CKK_EC :: uint where "CKK_EC = 0x3"
definition CKU_USER :: uint where "CKU_USER = 1"
definition CKF_RW_SESSION :: uint where "CKF_RW_SESSION = 0x2"
definition CKF_SERIAL_SESSION :: uint where "CKF_SERIAL_SESSION = 0x4"

record 'd pkcs11_Ctx =
  Initialize :: "'d \<Rightarrow> go_error option \<times> 'd"
  Finalize :: "'d \<Rightarrow> go_error option \<times> 'd"
  GetSlotList :: "bool \<Rightarrow> 'd \<Rightarrow> (nat list \<times> go_error option) \<times> 'd"
  OpenSession :: "nat \<Rightarrow> uint \<Rightarrow> 'd \<Rightarrow> (nat \<times> go_error option) \<times> 'd"
  CloseSession :: "nat \<Rightarrow> 'd \<Rightarrow> go_error option \<times> 'd"
  Login :: "nat \<Rightarrow> uint \<Rightarrow> string \<Rightarrow> 'd \<Rightarrow> go_error option \<times> 'd"
  Logout :: "nat \<Rightarrow> 'd \<Rightarrow> go_error option \<times> 'd"
  FindObjectsInit :: "nat \<Rightarrow> attribute list \<Rightarrow> 'd \<Rightarrow> go_error option \<times> 'd"
  FindObjects :: "nat \<Rightarrow> int \<Rightarrow> 'd \<Rightarrow> (nat list \<times> go_error option) \<times> 'd"
  FindObjectsFinal :: "nat \<Rightarrow> 'd \<Rightarrow> go_error option \<times> 'd"
  CreateObject :: "nat \<Rightarrow> attribute list \<Rightarrow> 'd \<Rightarrow> (nat \<times> go_error option) \<times> 'd"

subsection \<open>Return codes\<close>

definition CKR_OK :: uint where "CKR_OK = 0x0"
definition CKR_HOST_MEMORY :: uint where "CKR_HOST_MEMORY = 0x2"
definition CKR_SLOT_ID_INVALID :: uint where "CKR_SLOT_ID_INVALID = 0x3"
definition CKR_GENERAL_ERROR :: uint where "CKR_GENERAL_ERROR = 0x5"
definition CKR_FUNCTION_FAILED :: uint where "CKR_FUNCTION_FAILED = 0x6"
definition CKR_ARGUMENTS_BAD :: uint where "CKR_ARGUMENTS_BAD = 0x7"
definition CKR_NO_EVENT :: uint where "CKR_NO_EVENT = 0x8"
definition CKR_NEED_TO_CREATE_THREADS :: uint where "CKR_NEED_TO_CREATE_THREADS = 0x9"
definition CKR_CANT_LOCK :: uint where "CKR_CANT_LOCK = 0xA"
definition CKR_ATTRIBUTE_READ_ONLY :: uint where "CKR_ATTRIBUTE_READ_ONLY = 0x10"
definition CKR_ATTRIBUTE_SENSITIVE :: uint where "CKR_ATTRIBUTE_SENSITIVE = 0x11"
definition CKR_ATTRIBUTE_TYPE_INVALID :: uint where "CKR_ATTRIBUTE_TYPE_INVALID = 0x12"
definition CKR_ATTRIBUTE_VALUE_INVALID :: uint where "CKR_ATTRIBUTE_VALUE_INVALID = 0x13"
definition CKR_ACTION_PROHIBITED :: uint where "CKR_ACTION_PROHIBITED = 0x1B"
definition CKR_DATA_INVALID :: uint where "CKR_DATA_INVALID = 0x20"
definition CKR_DATA_LEN_RANGE :: uint where "CKR_DATA_LEN_RANGE = 0x21"
definition CKR_DEVICE_ERROR :: uint where "CKR_DEVICE_ERROR = 0x30"
definition CKR_DEVICE_MEMORY :: uint where "CKR_DEVICE_MEMORY = 0x31"
definition CKR_DEVICE_REMOVED :: uint where "CKR_DEVICE_REMOVED = 0x32"
definition CKR_ENCRYPTED_DATA_INVALID :: uint where "CKR_ENCRYPTED_DATA_INVALID = 0x40"
definition CKR_ENCRYPTED_DATA_LEN_RANGE :: uint where "CKR_ENCRYPTED_DATA_LEN_RANGE = 0x41"
definition CKR_FUNCTION_CANCELED :: uint where "CKR_FUNCTION_CANCELED = 0x50"
definition CKR_FUNCTION_NOT_PARALLEL :: uint where "CKR_FUNCTION_NOT_PARALLEL = 0x51"
definition CKR_FUNCTION_NOT_SUPPORTED :: uint where "CKR_FUNCTION_NOT_SUPPORTED = 0x54"
definition CKR_KEY_HANDLE_INVALID :: uint where "CKR_KEY_HANDLE_INVALID = 0x60"
definition CKR_KEY_SIZE_RANGE :: uint where "CKR_KEY_SIZE_RANGE = 0x62"
definition CKR_KEY_TYPE_INCONSISTENT :: uint where "CKR_KEY_TYPE_INCONSISTENT = 0x63"
definition CKR_KEY_NOT_NEEDED :: uint where "CKR_KEY_NOT_NEEDED = 0x64"
definition CKR_KEY_CHANGED :: uint where "CKR_KEY_CHANGED = 0x65"
definition CKR_KEY_NEEDED :: uint where "CKR_KEY_NEEDED = 0x66"
definition CKR_KEY_INDIGESTIBLE :: uint where "CKR_KEY_INDIGESTIBLE = 0x67"
definition CKR_KEY_FUNCTION_NOT_PERMITTED :: uint where "CKR_KEY_FUNCTION_NOT_PERMITTED = 0x68"
definition CKR_KEY_NOT_WRAPPABLE :: uint where "CKR_KEY_NOT_WRAPPABLE = 0x69"
definition CKR_KEY_UNEXTRACTABLE :: uint where "CKR_KEY_UNEXTRACTABLE = 0x6A"
definition CKR_MECHANISM_INVALID :: uint where "CKR_MECHANISM_INVALID = 0x70"
definition CKR_MECHANISM_PARAM_INVALID :: uint where "CKR_MECHANISM_PARAM_INVALID = 0x71"
definition CKR_OBJECT_HANDLE_INVALID :: uint where "CKR_OBJECT_HANDLE_INVALID = 0x82"
definition CKR_OPERATION_ACTIVE :: uint where "CKR_OPERATION_ACTIVE = 0x90"
definition CKR_OPERATION_NOT_INITIALIZED :: uint where "CKR_OPERATION_NOT_INITIALIZED = 0x91"
definition CKR_PIN_INCORRECT :: uint where "CKR_PIN_INCORRECT = 0xA0"
definition CKR_PIN_INVALID :: uint where "CKR_PIN_INVALID = 0xA1"
definition CKR_PIN_LEN_RANGE :: uint where "CKR_PIN_LEN_RANGE = 0xA2"
definition CKR_PIN_EXPIRED :: uint where "CKR_PIN_EXPIRED = 0xA3"
definition CKR_PIN_LOCKED :: uint where "CKR_PIN_LOCKED = 0xA4"
definition CKR_SESSION_CLOSED :: uint where "CKR_SESSION_CLOSED = 0xB0"
definition CKR_SESSION_COUNT :: uint where "CKR_SESSION_COUNT = 0xB1"
definition CKR_SESSION_HANDLE_INVALID :: uint where "CKR_SESSION_HANDLE_INVALID = 0xB3"
definition CKR_SESSION_PARALLEL_NOT_SUPPORTED :: uint where "CKR_SESSION_PARALLEL_NOT_SUPPORTED = 0xB4"
definition CKR_SESSION_READ_ONLY :: uint where "CKR_SESSION_READ_ONLY = 0xB5"
definition CKR_SESSION_EXISTS :: uint where "CKR_SESSION_EXISTS = 0xB6"
definition CKR_SESSION_READ_ONLY_EXISTS :: uint where "CKR_SESSION_READ_ONLY_EXISTS = 0xB7"
definition CKR_SESSION_READ_WRITE_SO_EXISTS :: uint where "CKR_SESSION_READ_WRITE_SO_EXISTS = 0xB8"
definition CKR_SIGNATURE_INVALID :: uint where "CKR_SIGNATURE_INVALID = 0xC0"
definition CKR_SIGNATURE_LEN_RANGE :: uint where "CKR_SIGNATURE_LEN_RANGE = 0xC1"
definition CKR_TEMPLATE_INCOMPLETE :: uint where "CKR_TEMPLATE_INCOMPLETE = 0xD0"
definition CKR_TEMPLATE_INCONSISTENT :: uint where "CKR_TEMPLATE_INCONSISTENT = 0xD1"
definition CKR_TOKEN_NOT_PRESENT :: uint where "CKR_TOKEN_NOT_PRESENT = 0xE0"
definition CKR_TOKEN_NOT_RECOGNIZED :: uint where "CKR_TOKEN_NOT_RECOGNIZED = 0xE1"
definition CKR_TOKEN_WRITE_PROTECTED :: uint where "CKR_TOKEN_WRITE_PROTECTED = 0xE2"
definition CKR_UNWRAPPING_KEY_HANDLE_INVALID :: uint where "CKR_UNWRAPPING_KEY_HANDLE_INVALID = 0xF0"
definition CKR_UNWRAPPING_KEY_SIZE_RANGE :: uint where "CKR_UNWRAPPING_KEY_SIZE_RANGE = 0xF1"
definition CKR_UNWRAPPING_KEY_TYPE_INCONSISTENT :: uint where "CKR_UNWRAPPING_KEY_TYPE_INCONSISTENT = 0xF2"
definition CKR_USER_ALREADY_LOGGED_IN :: uint where "CKR_USER_ALREADY_LOGGED_IN = 0x100"
definition CKR_USER_NOT_LOGGED_IN :: uint where "CKR_USER_NOT_LOGGED_IN = 0x101"
definition CKR_USER_PIN_NOT_INITIALIZED :: uint where "CKR_USER_PIN_NOT_INITIALIZED = 0x102"
definition CKR_USER_TYPE_INVALID :: uint where "CKR_USER_TYPE_INVALID = 0x103"
definition CKR_USER_ANOTHER_ALREADY_LOGGED_IN :: uint where "CKR_USER_ANOTHER_ALREADY_LOGGED_IN = 0x104"
definition CKR_USER_TOO_MANY_TYPES :: uint where "CKR_USER_TOO_MANY_TYPES = 0x105"
definition CKR_WRAPPED_KEY_INVALID :: uint where "CKR_WRAPPED_KEY_INVALID = 0x110"
definition CKR_WRAPPED_KEY_LEN_RANGE :: uint where "CKR_WRAPPED_KEY_LEN_RANGE = 0x112"
definition CKR_WRAPPING_KEY_HANDLE_INVALID :: uint where "CKR_WRAPPING_KEY_HANDLE_INVALID = 0x113"
definition CKR_WRAPPING_KEY_SIZE_RANGE :: uint where "CKR_WRAPPING_KEY_SIZE_RANGE = 0x114"
definition CKR_WRAPPING_KEY_TYPE_INCONSISTENT :: uint where "CKR_WRAPPING_KEY_TYPE_INCONSISTENT = 0x115"
definition CKR_RANDOM_SEED_NOT_SUPPORTED :: uint where "CKR_RANDOM_SEED_NOT_SUPPORTED = 0x120"
definition CKR_RANDOM_NO_RNG :: uint where "CKR_RANDOM_NO_RNG = 0x121"
definition CKR_DOMAIN_PARAMS_INVALID :: uint where "CKR_DOMAIN_PARAMS_INVALID = 0x130"
definition CKR_CURVE_NOT_SUPPORTED :: uint where "CKR_CURVE_NOT_SUPPORTED = 0x140"
definition CKR_BUFFER_TOO_SMALL :: uint where "CKR_BUFFER_TOO_SMALL = 0x150"
definition CKR_SAVED_STATE_INVALID :: uint where "CKR_SAVED_STATE_INVALID = 0x160"
definition CKR_INFORMATION_SENSITIVE :: uint where "CKR_INFORMATION_SENSITIVE = 0x170"
definition CKR_STATE_UNSAVEABLE :: uint where "CKR_STATE_UNSAVEABLE = 0x180"
definition CKR_CRYPTOKI_NOT_INITIALIZED :: uint where "CKR_CRYPTOKI_NOT_INITIALIZED = 0x190"
definition CKR_CRYPTOKI_ALREADY_INITIALIZED :: uint where "CKR_CRYPTOKI_ALREADY_INITIALIZED = 0x191"
definition CKR_MUTEX_BAD :: uint where "CKR_MUTEX_BAD = 0x1A0"
definition CKR_MUTEX_NOT_LOCKED :: uint where "CKR_MUTEX_NOT_LOCKED = 0x1A1"
definition CKR_NEW_PIN_MODE :: uint where "CKR_NEW_PIN_MODE = 0x1B0"
definition CKR_NEXT_OTP :: uint where "CKR_NEXT_OTP = 0x1B1"
definition CKR_EXCEEDED_MAX_ITERATIONS :: uint where "CKR_EXCEEDED_MAX_ITERATIONS = 0x1B5"
definition CKR_FIPS_SELF_TEST_FAILED :: uint where "CKR_FIPS_SELF_TEST_FAILED = 0x1B6"
definition CKR_LIBRARY_LOAD_FAILED :: uint where "CKR_LIBRARY_LOAD_FAILED = 0x1B7"
definition CKR_PIN_TOO_WEAK :: uint where "CKR_PIN_TOO_WEAK = 0x1B8"
definition CKR_PUBLIC_KEY_INVALID :: uint where "CKR_PUBLIC_KEY_INVALID = 0x1B9"
definition CKR_FUNCTION_REJECTED :: uint where "CKR_FUNCTION_REJECTED = 0x200"
definition CKR_VENDOR_DEFINED :: uint where "CKR_VENDOR_DEFINED = 0x80000000"


section \<open>The PKCS#11 crypto context\<close>

text \<open>
  Modelled from the spec: the length constants of the NIST P-256 keys are declared in a
  file of the package that is not among the sources. The spec gives the private scalar
  as 32 bytes and the public point as X and Y of 32 bytes each.
\<close>

definition nistp256PrivkeyLength :: nat where "nistp256PrivkeyLength = 32"
definition nistp256XLength :: nat where "nistp256XLength = 32"
definition nistp256YLength :: nat where "nistp256YLength = 32"
definition nistp256PubkeyLength :: nat where "nistp256PubkeyLength = 64"

text \<open>
  The struct \<^verbatim>\<open>ECDSAPKCS11CryptoContext\<close>. Next to its fields the record holds the
  world the context acts on: the state of the device, and the durations that were
  passed to \<^verbatim>\<open>time.Sleep\<close> so far (the latest first), so that sleeping is visible.
\<close>

record 'd ECDSAPKCS11CryptoContext =
  pkcs11Ctx :: "'d pkcs11_Ctx"
  sessionHandle :: nat
  loginPIN :: string
  slotNr :: int
  pkcs11Retries :: int
  pkcs11RetryDelay :: int
  device :: 'd
  slept :: "int list"

definition call ::
    "('d \<Rightarrow> 'r \<times> 'd) \<Rightarrow> 'd ECDSAPKCS11CryptoContext \<Rightarrow> 'r \<times> 'd ECDSAPKCS11CryptoContext" where
  "call operation E = (case operation (device E) of (r, d) \<Rightarrow> (r, E\<lparr>device := d\<rparr>))"

definition time_Sleep :: "int \<Rightarrow> 'd ECDSAPKCS11CryptoContext \<Rightarrow> 'd ECDSAPKCS11CryptoContext" where
  "time_Sleep d E = E\<lparr>slept := d # slept E\<rparr>"

text \<open>
  A panic in a callee unwinds through the caller. Where the source wraps the error of
  a callee into a new error, the model passes a panic on as it is.
\<close>

definition wrapping :: "go_error \<Rightarrow> go_error \<Rightarrow> go_error" where
  "wrapping err wrapped = (if is_Panic err then err else wrapped)"

subsection \<open>Session setup and teardown\<close>

definition pkcs11SetupSession ::
    "'d ECDSAPKCS11CryptoContext \<Rightarrow> go_error option \<times> 'd ECDSAPKCS11CryptoContext" where
  "pkcs11SetupSession E =
     (case call (Initialize (pkcs11Ctx E)) E of (err, E1) \<Rightarrow>
      let initialized =
            (case err of
               None \<Rightarrow> None
             | Some (PKCS11 pkcs11Err) \<Rightarrow>
                 if pkcs11Err \<noteq> CKR_OK \<and> pkcs11Err \<noteq> CKR_CRYPTOKI_ALREADY_INITIALIZED
                 then Some (Errorf ''pkcs11SetupSession: %s'' [ArgErr (PKCS11 pkcs11Err)])
                 else None
             | Some other \<Rightarrow>
                 Some (wrapping other
                   (Errorf ''pkcs11SetupSession: unexpected type of error returned from intialize. Error was: %s''
                      [ArgErr other])))
      in
     (case initialized of
        Some failure \<Rightarrow> (Some failure, E1)
      | None \<Rightarrow>
     (case call (GetSlotList (pkcs11Ctx E1) True) E1 of
        ((slots, Some err), E2) \<Rightarrow>
          (Some (wrapping err (Errorf ''pkcs11SetupSession: getting slot list: %s'' [ArgErr err])), E2)
      | ((slots, None), E2) \<Rightarrow>
          if \<not> (0 \<le> slotNr E2 \<and> slotNr E2 < int (length slots))
          then (Some (Panic ''index out of range''), E2)
          else
     (case call (OpenSession (pkcs11Ctx E2) (slots ! nat (slotNr E2))
                   (or CKF_SERIAL_SESSION CKF_RW_SESSION)) E2 of
        ((handle, err), E3) \<Rightarrow>
          let E4 = E3\<lparr>sessionHandle := handle\<rparr> in
         (case err of
            Some err \<Rightarrow>
              (Some (wrapping err (Errorf ''pkcs11SetupSession: opening session: %s'' [ArgErr err])), E4)
          | None \<Rightarrow>
     (case call (Login (pkcs11Ctx E4) (sessionHandle E4) CKU_USER (loginPIN E4)) E4 of
        (Some err, E5) \<Rightarrow>
          (Some (wrapping err (Errorf ''pkcs11SetupSession: logging in: %s'' [ArgErr err])), E5)
      | (None, E5) \<Rightarrow> (None, E5)))))))"

definition pkcs11TeardownSession ::
    "'d ECDSAPKCS11CryptoContext \<Rightarrow> go_error option \<times> 'd ECDSAPKCS11CryptoContext" where
  "pkcs11TeardownSession E =
     (case call (Logout (pkcs11Ctx E) (sessionHandle E)) E of
        (Some err, E1) \<Rightarrow>
          (Some (wrapping err (Errorf ''pkcs11TeardownSession: logout: %s'' [ArgErr err])), E1)
      | (None, E1) \<Rightarrow>
     (case call (CloseSession (pkcs11Ctx E1) (sessionHandle E1)) E1 of
        (Some err, E2) \<Rightarrow>
          (Some (wrapping err (Errorf ''pkcs11TeardownSession: close: %s'' [ArgErr err])), E2)
      | (None, E2) \<Rightarrow>
     (case call (Finalize (pkcs11Ctx E2)) E2 of
        (Some err, E3) \<Rightarrow>
          (Some (wrapping err (Errorf ''pkcs11TeardownSession: finalize: %s'' [ArgErr err])), E3)
      | (None, E3) \<Rightarrow> (None, E3))))"

subsection \<open>The classification of return codes\<close>

text \<open>The three groups of the \<^verbatim>\<open>switch\<close> in \<^verbatim>\<open>pkcs11HandleGenericErrors\<close>, in its order.\<close>

definition retry_errors :: "uint list" where
  "retry_errors =
     [CKR_HOST_MEMORY, CKR_FUNCTION_FAILED, CKR_DATA_INVALID, CKR_DATA_LEN_RANGE,
      CKR_DEVICE_ERROR, CKR_DEVICE_MEMORY, CKR_ENCRYPTED_DATA_INVALID,
      CKR_ENCRYPTED_DATA_LEN_RANGE, CKR_KEY_SIZE_RANGE, CKR_KEY_INDIGESTIBLE,
      CKR_SESSION_COUNT, CKR_SIGNATURE_INVALID, CKR_SIGNATURE_LEN_RANGE,
      CKR_TOKEN_NOT_PRESENT, CKR_USER_TOO_MANY_TYPES, CKR_WRAPPED_KEY_INVALID,
      CKR_WRAPPED_KEY_LEN_RANGE, CKR_PUBLIC_KEY_INVALID]"

definition reestablish_session_errors :: "uint list" where
  "reestablish_session_errors =
     [CKR_OPERATION_ACTIVE, CKR_OPERATION_NOT_INITIALIZED, CKR_SESSION_CLOSED,
      CKR_SESSION_HANDLE_INVALID, CKR_SESSION_EXISTS, CKR_USER_ALREADY_LOGGED_IN,
      CKR_USER_NOT_LOGGED_IN, CKR_CRYPTOKI_NOT_INITIALIZED,
      CKR_CRYPTOKI_ALREADY_INITIALIZED]"

definition unfixable_errors :: "uint list" where
  "unfixable_errors =
     [CKR_GENERAL_ERROR, CKR_ARGUMENTS_BAD, CKR_SLOT_ID_INVALID, CKR_NO_EVENT,
      CKR_NEED_TO_CREATE_THREADS, CKR_CANT_LOCK, CKR_ATTRIBUTE_READ_ONLY,
      CKR_ATTRIBUTE_SENSITIVE, CKR_ATTRIBUTE_TYPE_INVALID, CKR_ATTRIBUTE_VALUE_INVALID,
      CKR_ACTION_PROHIBITED, CKR_FUNCTION_CANCELED, CKR_FUNCTION_NOT_PARALLEL,
      CKR_FUNCTION_NOT_SUPPORTED, CKR_KEY_HANDLE_INVALID, CKR_KEY_TYPE_INCONSISTENT,
      CKR_KEY_NOT_NEEDED, CKR_KEY_CHANGED, CKR_KEY_NEEDED, CKR_KEY_FUNCTION_NOT_PERMITTED,
      CKR_KEY_NOT_WRAPPABLE, CKR_KEY_UNEXTRACTABLE, CKR_MECHANISM_INVALID,
      CKR_MECHANISM_PARAM_INVALID, CKR_OBJECT_HANDLE_INVALID, CKR_PIN_INCORRECT,
      CKR_PIN_INVALID, CKR_PIN_LEN_RANGE, CKR_PIN_EXPIRED, CKR_PIN_LOCKED,
      CKR_SESSION_PARALLEL_NOT_SUPPORTED, CKR_SESSION_READ_ONLY,
      CKR_SESSION_READ_ONLY_EXISTS, CKR_SESSION_READ_WRITE_SO_EXISTS,
      CKR_TEMPLATE_INCOMPLETE, CKR_TEMPLATE_INCONSISTENT, CKR_TOKEN_NOT_RECOGNIZED,
      CKR_TOKEN_WRITE_PROTECTED, CKR_UNWRAPPING_KEY_HANDLE_INVALID,
      CKR_UNWRAPPING_KEY_SIZE_RANGE, CKR_UNWRAPPING_KEY_TYPE_INCONSISTENT,
      CKR_USER_PIN_NOT_INITIALIZED, CKR_USER_TYPE_INVALID,
      CKR_USER_ANOTHER_ALREADY_LOGGED_IN, CKR_WRAPPING_KEY_HANDLE_INVALID,
      CKR_WRAPPING_KEY_SIZE_RANGE, CKR_WRAPPING_KEY_TYPE_INCONSISTENT,
      CKR_RANDOM_SEED_NOT_SUPPORTED, CKR_RANDOM_NO_RNG, CKR_DOMAIN_PARAMS_INVALID,
      CKR_CURVE_NOT_SUPPORTED, CKR_BUFFER_TOO_SMALL, CKR_SAVED_STATE_INVALID,
      CKR_INFORMATION_SENSITIVE, CKR_STATE_UNSAVEABLE, CKR_MUTEX_BAD,
      CKR_MUTEX_NOT_LOCKED, CKR_NEW_PIN_MODE, CKR_NEXT_OTP, CKR_EXCEEDED_MAX_ITERATIONS,
      CKR_FIPS_SELF_TEST_FAILED, CKR_LIBRARY_LOAD_FAILED, CKR_PIN_TOO_WEAK,
      CKR_FUNCTION_REJECTED, CKR_VENDOR_DEFINED]"

text \<open>
  The jitter of the source is
  \<^verbatim>\<open>sleep * time.Duration(rand.Float32()/20.0) * sleep\<close>. \<^verbatim>\<open>rand.Float32()\<close> is below
  1, so the quotient is below 0.05, and the conversion to the integer type
  \<^verbatim>\<open>time.Duration\<close> drops the fraction: the middle factor is 0.
\<close>

definition jitter :: "int \<Rightarrow> int" where
  "jitter sleep = sleep * 0 * sleep"

definition reestablish_session ::
    "'d ECDSAPKCS11CryptoContext \<Rightarrow> go_error option \<times> 'd ECDSAPKCS11CryptoContext" where
  "reestablish_session E =
     (case pkcs11TeardownSession E of
        (Some err, E1) \<Rightarrow>
          (Some (wrapping err
             (Errorf ''pkcs11HandleGenericErrors: Error when tearing down session: %s'' [ArgErr err])), E1)
      | (None, E1) \<Rightarrow>
     (case pkcs11SetupSession E1 of
        (Some err, E2) \<Rightarrow>
          (Some (wrapping err
             (Errorf ''pkcs11HandleGenericErrors: Error when setting up session: %s'' [ArgErr err])), E2)
      | (None, E2) \<Rightarrow> (None, E2)))"

definition pkcs11HandleGenericErrors ::
    "'d ECDSAPKCS11CryptoContext \<Rightarrow> uint \<Rightarrow> int
       \<Rightarrow> go_error option \<times> 'd ECDSAPKCS11CryptoContext" where
  "pkcs11HandleGenericErrors E pkcs11Error sleep =
     (if pkcs11Error = CKR_OK then (None, E)
      else
        let returnCode = pkcs11Error in
        if returnCode \<in> set retry_errors then
          (None, time_Sleep (sleep + jitter sleep) E)
        else if returnCode = CKR_DEVICE_REMOVED then
          reestablish_session (time_Sleep (sleep + jitter sleep) E)
        else if returnCode \<in> set reestablish_session_errors then
          reestablish_session E
        else if returnCode \<in> set unfixable_errors then
          (Some (PKCS11 pkcs11Error), E)
        else
          (Some (Errorf ''pkcs11HandleGenericErrors: don't know how to handle error: %s''
                   [ArgErr (PKCS11 pkcs11Error)]), E))"

subsection \<open>pkcs11Retry\<close>

text \<open>
  The function to retry is a closure over the context: it takes the context as it is
  when the closure is called and gives the context after the call. A closure of the
  source that sets a variable of its caller when it succeeds gives that value with
  its success. The loop counts \<open>retries\<close> from 0.
\<close>

function pkcs11Retry_loop ::
    "int \<Rightarrow> int \<Rightarrow> ('d ECDSAPKCS11CryptoContext \<Rightarrow> (go_error + 'a) \<times> 'd ECDSAPKCS11CryptoContext)
       \<Rightarrow> int \<Rightarrow> 'd ECDSAPKCS11CryptoContext
       \<Rightarrow> (go_error + 'a) \<times> 'd ECDSAPKCS11CryptoContext" where
  "pkcs11Retry_loop maxRetries sleep f retries E =
     (case f E of
        (Inr v, E1) \<Rightarrow> (Inr v, E1)
      | (Inl err, E1) \<Rightarrow>
          if retries \<ge> maxRetries then
            (Inl (wrapping err
               (Errorf ''pkcs11Retry: gave up after %d retries, last error was: %s''
                  [ArgInt retries, ArgErr err])), E1)
          else
            (case err of
               PKCS11 pkcs11Err \<Rightarrow>
                 (case pkcs11HandleGenericErrors E1 pkcs11Err sleep of
                    (Some err', E2) \<Rightarrow>
                      (Inl (wrapping err'
                         (Errorf ''pkcs11Retry: unfixable error: %s'' [ArgErr err'])), E2)
                  | (None, E2) \<Rightarrow> pkcs11Retry_loop maxRetries sleep f (retries + 1) E2)
             | _ \<Rightarrow>
                 (Inl (wrapping err
                    (Errorf ''pkcs11Retry used on non-pkcs11-context function (returned error type is not pkcs11.Error)''
                       [])), E1)))"
  by pat_completeness auto
termination
  by (relation "measure (\<lambda>(maxRetries, sleep, f, retries, E). nat (maxRetries - retries))") auto

declare pkcs11Retry_loop.simps [simp del]

definition pkcs11Retry ::
    "int \<Rightarrow> int \<Rightarrow> ('d ECDSAPKCS11CryptoContext \<Rightarrow> (go_error + 'a) \<times> 'd ECDSAPKCS11CryptoContext)
       \<Rightarrow> 'd ECDSAPKCS11CryptoContext \<Rightarrow> (go_error + 'a) \<times> 'd ECDSAPKCS11CryptoContext" where
  "pkcs11Retry maxRetries sleep f E = pkcs11Retry_loop maxRetries sleep f 0 E"


subsection \<open>Finding key objects\<close>

definition pkcs11GetObjects ::
    "'d ECDSAPKCS11CryptoContext \<Rightarrow> bytes \<Rightarrow> uint \<Rightarrow> int
       \<Rightarrow> (go_error + nat list) \<times> 'd ECDSAPKCS11CryptoContext" where
  "pkcs11GetObjects E pkcs11id class max_objects =
     (let template = [NewAttribute CKA_ID (AttrBytes pkcs11id),
                      NewAttribute CKA_CLASS (AttrUint class)]
      in
      case pkcs11Retry (pkcs11Retries E) (pkcs11RetryDelay E)
             (\<lambda>E.
                case call (FindObjectsInit (pkcs11Ctx E) (sessionHandle E) template) E of
                  (Some err, E1) \<Rightarrow> (Inl err, E1)
                | (None, E1) \<Rightarrow>
               (case call (FindObjects (pkcs11Ctx E1) (sessionHandle E1) max_objects) E1 of
                  ((objects, Some err), E2) \<Rightarrow> (Inl err, E2)
                | ((objects, None), E2) \<Rightarrow>
               (case call (FindObjectsFinal (pkcs11Ctx E2) (sessionHandle E2)) E2 of
                  (Some err, E3) \<Rightarrow> (Inl err, E3)
                | (None, E3) \<Rightarrow> (Inr objects, E3))))
             E of
        (Inl retriedErr, E') \<Rightarrow> (Inl retriedErr, E')
      | (Inr objects, E') \<Rightarrow> (Inr objects, E'))"

text \<open>\<^verbatim>\<open>uuid.UUID.String\<close>: the bytes in lower-case hexadecimal, grouped 8-4-4-4-12.\<close>

definition hex_byte :: "byte \<Rightarrow> string" where
  "hex_byte b = [''0123456789abcdef'' ! (unat b div 16), ''0123456789abcdef'' ! (unat b mod 16)]"

definition uuid_String :: "uuid \<Rightarrow> string" where
  "uuid_String uid =
     concat (map hex_byte (take 4 uid)) @ ''-''
     @ concat (map hex_byte (take 2 (drop 4 uid))) @ ''-''
     @ concat (map hex_byte (take 2 (drop 6 uid))) @ ''-''
     @ concat (map hex_byte (take 2 (drop 8 uid))) @ ''-''
     @ concat (map hex_byte (drop 10 uid))"

definition uuid_Nil :: uuid where
  "uuid_Nil = replicate 16 0"

definition PrivateKeyExists ::
    "'d ECDSAPKCS11CryptoContext \<Rightarrow> uuid
       \<Rightarrow> (bool \<times> go_error option) \<times> 'd ECDSAPKCS11CryptoContext" where
  "PrivateKeyExists E uid =
     (case pkcs11GetObjects E uid CKO_PRIVATE_KEY 5 of
        (Inl err, E') \<Rightarrow>
          ((True, Some (wrapping err (Errorf ''getting object failed: %s'' [ArgErr err]))), E')
      | (Inr objects, E') \<Rightarrow>
          let nrOfKeys = length objects in
          if nrOfKeys = 1 then ((True, None), E')
          else if nrOfKeys = 0 then ((False, None), E')
          else ((True, Some (Errorf ''found two or more private keys for the UUID '%s', this should never happen''
                               [ArgStr (uuid_String uid)])), E'))"

definition PublicKeyExists ::
    "'d ECDSAPKCS11CryptoContext \<Rightarrow> uuid
       \<Rightarrow> (bool \<times> go_error option) \<times> 'd ECDSAPKCS11CryptoContext" where
  "PublicKeyExists E uid =
     (case pkcs11GetObjects E uid CKO_PUBLIC_KEY 5 of
        (Inl err, E') \<Rightarrow> ((True, Some err), E')
      | (Inr objects, E') \<Rightarrow>
          let nrOfKeys = length objects in
          if nrOfKeys = 1 then ((True, None), E')
          else if nrOfKeys = 0 then ((False, None), E')
          else ((True, Some (Errorf ''found two or more public keys for the UUID '%s', this should never happen''
                               [ArgStr (uuid_String uid)])), E'))"

subsection \<open>Key templates\<close>

definition pkcs11PubKeyLabel :: "uuid \<Rightarrow> string \<times> go_error option" where
  "pkcs11PubKeyLabel uid =
     (let stringUuid = uuid_String uid in
      if stringUuid = ''''
      then (''invalid_UUID'', Some (Errorf ''invalid UUID used for creating public key label'' []))
      else (stringUuid @ ''_pub'', None))"

definition pkcs11PrivKeyLabel :: "uuid \<Rightarrow> string \<times> go_error option" where
  "pkcs11PrivKeyLabel uid =
     (let stringUuid = uuid_String uid in
      if stringUuid = ''''
      then (''invalid_UUID'', Some (Errorf ''invalid UUID used for creating private key label'' []))
      else (stringUuid @ ''_priv'', None))"

definition pkcs11PubKeyTemplate :: "uuid \<Rightarrow> go_error + attribute list" where
  "pkcs11PubKeyTemplate uid =
     (if uuid_String uid = ''''
      then Inl (Errorf ''invalid UUID used for creating public key template'' [])
      else
        case pkcs11PubKeyLabel uid of
          (pubkeyLabel, Some err) \<Rightarrow>
            Inl (Errorf ''pkcs11PubKeyTemplate: can't get label: %s'' [ArgErr err])
        | (pubkeyLabel, None) \<Rightarrow>
            Inr [NewAttribute CKA_ID (AttrBytes uid),
                 NewAttribute CKA_LABEL (AttrString pubkeyLabel),
                 NewAttribute CKA_TOKEN (AttrBool True),
                 NewAttribute CKA_VERIFY (AttrBool True),
                 NewAttribute CKA_PRIVATE (AttrBool True),
                 NewAttribute CKA_CLASS (AttrUint CKO_PUBLIC_KEY),
                 NewAttribute CKA_KEY_TYPE (AttrUint CKK_EC),
                 NewAttribute CKA_EC_PARAMS (AttrString ''secp256r1'')])"

definition pkcs11PrivKeyTemplate :: "uuid \<Rightarrow> go_error + attribute list" where
  "pkcs11PrivKeyTemplate uid =
     (if uuid_String uid = ''''
      then Inl (Errorf ''invalid UUID used for creating private key template'' [])
      else
        case pkcs11PrivKeyLabel uid of
          (privkeyLabel, Some err) \<Rightarrow>
            Inl (Errorf ''pkcs11PrivKeyTemplate: can't get label: %s'' [ArgErr err])
        | (privkeyLabel, None) \<Rightarrow>
            Inr [NewAttribute CKA_ID (AttrBytes uid),
                 NewAttribute CKA_LABEL (AttrString privkeyLabel),
                 NewAttribute CKA_TOKEN (AttrBool True),
                 NewAttribute CKA_PRIVATE (AttrBool True),
                 NewAttribute CKA_SENSITIVE (AttrBool True),
                 NewAttribute CKA_EXTRACTABLE (AttrBool True),
                 NewAttribute CKA_SIGN (AttrBool True),
                 NewAttribute CKA_CLASS (AttrUint CKO_PRIVATE_KEY),
                 NewAttribute CKA_KEY_TYPE (AttrUint CKK_EC)])"

subsection \<open>SetKey\<close>

text \<open>
  Big integers of \<^verbatim>\<open>math/big\<close> are integers. \<^verbatim>\<open>SetBytes\<close> reads a big-endian
  byte string, \<^verbatim>\<open>Bytes\<close> gives the big-endian bytes of the absolute value without
  leading zeros, and \<^verbatim>\<open>FillBytes\<close> fills a buffer of a given length with the
  big-endian bytes of the absolute value, padded with zeros in front; it panics when
  the number does not fit.
  The curve is \<^verbatim>\<open>elliptic.P256()\<close> of the Go standard library: its order \<open>N\<close> is
  the constant of the standard, and its \<^verbatim>\<open>ScalarBaseMult\<close> is a parameter of
  \<^verbatim>\<open>SetKey\<close>.
\<close>

definition big_SetBytes :: "bytes \<Rightarrow> int" where
  "big_SetBytes buf = foldl (\<lambda>acc b. acc * 256 + uint b) 0 buf"

function big_Bytes :: "int \<Rightarrow> bytes" where
  "big_Bytes x = (if x = 0 then [] else big_Bytes (\<bar>x\<bar> div 256) @ [of_int \<bar>x\<bar>])"
  by pat_completeness auto
termination
  by (relation "measure (\<lambda>x. nat \<bar>x\<bar>)") auto

definition FillBytes :: "int \<Rightarrow> nat \<Rightarrow> go_error + bytes" where
  "FillBytes x n =
     (if length (big_Bytes x) \<le> n
      then Inr (replicate (n - length (big_Bytes x)) 0 @ big_Bytes x)
      else Inl (Panic ''math/big: buffer too small to fit value''))"

definition P256_N :: int where
  "P256_N = 0xFFFFFFFF00000000FFFFFFFFFFFFFFFFBCE6FAADA7179E84F3B9CAC2FC632551"

definition SetKey ::
    "(bytes \<Rightarrow> int \<times> int) \<Rightarrow> 'd ECDSAPKCS11CryptoContext \<Rightarrow> uuid \<Rightarrow> bytes
       \<Rightarrow> go_error option \<times> 'd ECDSAPKCS11CryptoContext" where
  "SetKey ScalarBaseMult E uid privKeyBytes =
     (if length privKeyBytes \<noteq> nistp256PrivkeyLength then
        (Some (Errorf ''unexpected length for ECDSA private key: expected %d, got %d''
                 [ArgInt (int nistp256PrivkeyLength), ArgInt (int (length privKeyBytes))]), E)
      else if uid = uuid_Nil then
        (Some (Errorf (''UUID '' @ [CHR 0x22] @ ''Nil'' @ [CHR 0x22] @ ''-value'') []), E)
      else
       (case PrivateKeyExists E uid of
          ((privExists, Some err), E1) \<Rightarrow>
            (Some (wrapping err
               (Errorf ''SetKey: checking for private key existence failed: %s'' [ArgErr err])), E1)
        | ((privExists, None), E1) \<Rightarrow>
        if privExists then (Some (Errorf ''SetKey: private key already exists'' []), E1)
        else
       (case PublicKeyExists E1 uid of
          ((pubExists, Some err), E2) \<Rightarrow>
            (Some (wrapping err
               (Errorf ''SetKey: checking public key existence failed: %s'' [ArgErr err])), E2)
        | ((pubExists, None), E2) \<Rightarrow>
        if pubExists then (Some (Errorf ''SetKey: public key already exists'' []), E2)
        else
          let D = big_SetBytes privKeyBytes;
              (X, Y) = ScalarBaseMult (big_Bytes D);
              curveOrder = P256_N
          in
          if D \<ge> curveOrder then
            (Some (Errorf ''SetKey: invalid private key value: value is greater or equal curve order'' []), E2)
          else
         (case FillBytes X nistp256XLength of
            Inl pnc \<Rightarrow> (Some pnc, E2)
          | Inr bytesX \<Rightarrow>
         (case FillBytes Y nistp256XLength of
            Inl pnc \<Rightarrow> (Some pnc, E2)
          | Inr bytesY \<Rightarrow>
          let pubKeyBytesHSM = ([0x04, of_nat (nistp256PubkeyLength + 1), 0x04] @ bytesX) @ bytesY in
         (case pkcs11PubKeyTemplate uid of
            Inl err \<Rightarrow>
              (Some (Errorf ''SetKey: could not get public key template: %s'' [ArgErr err]), E2)
          | Inr pubKeyTemplate0 \<Rightarrow>
          let pubKeyTemplate =
                pubKeyTemplate0 @ [NewAttribute CKA_EC_POINT (AttrBytes pubKeyBytesHSM)] in
         (case FillBytes D nistp256PrivkeyLength of
            Inl pnc \<Rightarrow> (Some pnc, E2)
          | Inr privKeyBytesHSM \<Rightarrow>
         (case pkcs11PrivKeyTemplate uid of
            Inl err \<Rightarrow>
              (Some (Errorf ''SetKey: could not get private key template: %s'' [ArgErr err]), E2)
          | Inr privKeyTemplate0 \<Rightarrow>
          let privKeyTemplate =
                (privKeyTemplate0 @ [NewAttribute CKA_VALUE (AttrBytes privKeyBytesHSM)])
                @ [NewAttribute CKA_EC_PARAMS (AttrString ''secp256r1'')] in
         (case pkcs11Retry (pkcs11Retries E2) (pkcs11RetryDelay E2)
                 (\<lambda>E. case call (CreateObject (pkcs11Ctx E) (sessionHandle E) pubKeyTemplate) E of
                         ((handle, Some err), E') \<Rightarrow> (Inl err, E')
                       | ((handle, None), E') \<Rightarrow> (Inr (), E'))
                 E2 of
            (Inl retriedErr, E3) \<Rightarrow>
              (Some (wrapping retriedErr
                 (Errorf ''SetKey: failed to set public key: %s'' [ArgErr retriedErr])), E3)
          | (Inr done_pub, E3) \<Rightarrow>
         (case pkcs11Retry (pkcs11Retries E3) (pkcs11RetryDelay E3)
                 (\<lambda>E. case call (CreateObject (pkcs11Ctx E) (sessionHandle E) privKeyTemplate) E of
                         ((handle, Some err), E') \<Rightarrow> (Inl err, E')
                       | ((handle, None), E') \<Rightarrow> (Inr (), E'))
                 E3 of
            (Inl retriedErr, E4) \<Rightarrow>
              (Some (wrapping retriedErr
                 (Errorf ''SetKey: failed to set private key: %s'' [ArgErr retriedErr])), E4)
          | (Inr done_priv, E4) \<Rightarrow> (None, E4)))))))))))"


section \<open>Concrete instances for evaluation\<close>

text \<open>
  A small software backend: it knows the one device name \<open>dev\<close>, signs everything
  with the same 64 bytes and verifies a signature by comparing it with them.
\<close>

definition crypto0 :: crypto where
  "crypto0 =
     \<lparr> Crypto_GetUUID =
         (\<lambda>name. if name = ''dev'' then Inr (replicate 16 1) else Inl (External ''unknown name'')),
       Crypto_Sign = (\<lambda>uid data. Inr (replicate 64 7)),
       Crypto_Verify = (\<lambda>uid data sig. (sig = replicate 64 7, None)) \<rparr>"

definition protocol0 :: Protocol where
  "protocol0 = \<lparr> Crypto = crypto0, Signatures = Some Map.empty \<rparr>"

text \<open>The zero value of the map: \<^verbatim>\<open>Protocol{Crypto: crypto0}\<close>.\<close>

definition protocol_nil :: Protocol where
  "protocol_nil = \<lparr> Crypto = crypto0, Signatures = None \<rparr>"

text \<open>The same backend with a signer that returns 63 bytes.\<close>

definition crypto1 :: crypto where
  "crypto1 = crypto0 \<lparr> Crypto_Sign := (\<lambda>uid data. Inr (replicate 63 7)) \<rparr>"

text \<open>
  A small token behind the PKCS#11 interface: it keeps the attribute lists of the
  objects that were created, finds the objects that have all attributes of the search
  template, and never fails. \<open>context0\<close> is a context on the empty token.
\<close>

record token =
  objects :: "attribute list list"
  find_template :: "attribute list"

definition softtoken :: "token pkcs11_Ctx" where
  "softtoken =
     \<lparr> Initialize = (\<lambda>d. (None, d)),
       Finalize = (\<lambda>d. (None, d)),
       GetSlotList = (\<lambda>tokenPresent d. (([0], None), d)),
       OpenSession = (\<lambda>slot flags d. ((1, None), d)),
       CloseSession = (\<lambda>sh d. (None, d)),
       Login = (\<lambda>sh user pin d. (None, d)),
       Logout = (\<lambda>sh d. (None, d)),
       FindObjectsInit = (\<lambda>sh temp d. (None, d\<lparr>find_template := temp\<rparr>)),
       FindObjects =
         (\<lambda>sh max_objects d.
            ((take (nat max_objects)
                (filter (\<lambda>i. list_all (\<lambda>a. a \<in> set (objects d ! i)) (find_template d))
                   [0..<length (objects d)]), None), d)),
       FindObjectsFinal = (\<lambda>sh d. (None, d)),
       CreateObject =
         (\<lambda>sh temp d. ((length (objects d), None), d\<lparr>objects := objects d @ [temp]\<rparr>)) \<rparr>"

definition context0 :: "token ECDSAPKCS11CryptoContext" where
  "context0 =
     \<lparr> pkcs11Ctx = softtoken, sessionHandle = 1, loginPIN = ''1234'', slotNr = 0,
       pkcs11Retries = 2, pkcs11RetryDelay = 50000000,
       device = \<lparr> objects = [], find_template = [] \<rparr>, slept = [] \<rparr>"

text \<open>Tokens that hold one and two private key objects for the identity of 16 ones.\<close>

definition private_key_object :: "attribute list" where
  "private_key_object =
     [NewAttribute CKA_ID (AttrBytes (replicate 16 1)),
      NewAttribute CKA_CLASS (AttrUint CKO_PRIVATE_KEY)]"

definition context1 :: "token ECDSAPKCS11CryptoContext" where
  "context1 = context0 \<lparr> device := \<lparr> objects = [private_key_object], find_template = [] \<rparr> \<rparr>"

definition context2 :: "token ECDSAPKCS11CryptoContext" where
  "context2 =
     context0 \<lparr> device := \<lparr> objects = [private_key_object, private_key_object],
                                find_template = [] \<rparr> \<rparr>"

text \<open>A token whose object search fails with \<^verbatim>\<open>CKR_GENERAL_ERROR\<close>.\<close>

definition context_broken :: "token ECDSAPKCS11CryptoContext" where
  "context_broken =
     context0 \<lparr> pkcs11Ctx :=
       softtoken \<lparr> FindObjectsInit := (\<lambda>sh temp d. (Some (PKCS11 CKR_GENERAL_ERROR), d)) \<rparr> \<rparr>"

text \<open>An operation that fails with \<^verbatim>\<open>CKR_DEVICE_ERROR\<close> until two sleeps have passed.\<close>

definition flaky ::
    "token ECDSAPKCS11CryptoContext \<Rightarrow> (go_error + unit) \<times> token ECDSAPKCS11CryptoContext" where
  "flaky E = (if length (slept E) < 2 then (Inl (PKCS11 CKR_DEVICE_ERROR), E) else (Inr (), E))"


section \<open>Protocol.Verify: what is verified\<close>

lemma split_at_signature_element:
  assumes "66 < length upp"
  shows "upp = take (length upp - 66) upp
               @ [upp ! (length upp - 66), upp ! (length upp - 65)]
               @ drop (length upp - 64) upp"
proof -
  let ?n = "length upp - 66"
  have a: "upp = take ?n upp @ drop ?n upp" by simp
  have b: "drop ?n upp = upp ! ?n # drop (Suc ?n) upp"
    using assms by (simp add: Cons_nth_drop_Suc)
  have c: "drop (Suc ?n) upp = upp ! (Suc ?n) # drop (Suc (Suc ?n)) upp"
    using assms by (simp add: Cons_nth_drop_Suc)
  have d: "Suc ?n = length upp - 65" "Suc (Suc ?n) = length upp - 64"
    using assms by simp_all
  show ?thesis using a b c d by (metis append_Cons append_Nil)
qed

lemma Protocol_Verify_short:
  "length upp \<le> 66 \<Longrightarrow>
     fst (Protocol_Verify p name upp) = False \<and> snd (Protocol_Verify p name upp) \<noteq> None"
  by (simp add: Protocol_Verify_def lenMsgpackSignatureElement_def nistp256SignatureLength_def)

lemma Protocol_Verify_unresolved:
  "66 < length upp \<Longrightarrow> Crypto_GetUUID (Crypto p) name = Inl err \<Longrightarrow>
     Protocol_Verify p name upp = (False, Some err)"
  by (simp add: Protocol_Verify_def lenMsgpackSignatureElement_def nistp256SignatureLength_def)

lemma Protocol_Verify_resolved:
  assumes "66 < length upp" and "Crypto_GetUUID (Crypto p) name = Inr uid"
  shows "Protocol_Verify p name upp =
      Crypto_Verify (Crypto p) uid (take (length upp - 66) upp) (drop (length upp - 64) upp)"
proof -
  have "nat (int (length upp) - 66) = length upp - 66"
       "nat (int (length upp) - 64) = length upp - 64"
    by simp_all
  then show ?thesis
    using assms
    by (simp add: Protocol_Verify_def lenMsgpackSignatureElement_def
        nistp256SignatureLength_def go_slice_to_def go_slice_from_def)
qed

text \<open>
  C7. \<^verbatim>\<open>Protocol.Verify(name, upp)\<close> fails when \<^verbatim>\<open>len(upp)\<close> is not strictly greater
  than 66, the two framing bytes plus the 64 bytes of the signature. Otherwise, when the
  name does not resolve it fails with the resolver's error, and when it resolves to an
  identity it hands \<^verbatim>\<open>upp\<close> without its last 66 bytes as the signed body and the last
  64 bytes of \<^verbatim>\<open>upp\<close> as the signature to the Verifier capability for that identity
  and returns what the capability returns. The two bytes in between go nowhere.
\<close>

theorem Verify_splits_body_and_signature:
  "(length upp \<le> 66 \<longrightarrow>
      fst (Protocol_Verify p name upp) = False \<and> snd (Protocol_Verify p name upp) \<noteq> None)
   \<and> (66 < length upp \<longrightarrow>
        (\<forall>err. Crypto_GetUUID (Crypto p) name = Inl err \<longrightarrow>
               Protocol_Verify p name upp = (False, Some err))
      \<and> (\<forall>uid. Crypto_GetUUID (Crypto p) name = Inr uid \<longrightarrow>
               Protocol_Verify p name upp =
                 Crypto_Verify (Crypto p) uid (take (length upp - 66) upp) (drop (length upp - 64) upp)
             \<and> length (take (length upp - 66) upp) = length upp - 66
             \<and> length (drop (length upp - 64) upp) = 64
             \<and> upp = take (length upp - 66) upp
                      @ [upp ! (length upp - 66), upp ! (length upp - 65)]
                      @ drop (length upp - 64) upp))"
  using Protocol_Verify_short [of upp p name] Protocol_Verify_unresolved [of upp p name]
    Protocol_Verify_resolved [of upp p name] split_at_signature_element [of upp]
  by simp

text \<open>
  The theorem at a packet of 67 bytes for the known device, at an input of 66 bytes,
  and at an unknown device name.
\<close>

theorem Verify_splits_body_and_signature_witness:
  "Protocol_Verify protocol0 ''dev'' (5 # 0xC4 # 0x40 # replicate 64 7) = (True, None)
   \<and> Protocol_Verify protocol0 ''dev'' (5 # 0xC4 # 0x40 # replicate 64 7)
       = Crypto_Verify crypto0 (replicate 16 1) [5] (replicate 64 7)
   \<and> snd (Protocol_Verify protocol0 ''dev'' (replicate 66 7)) \<noteq> None
   \<and> Protocol_Verify protocol0 ''x'' (replicate 67 7) = (False, Some (External ''unknown name''))"
  using Verify_splits_body_and_signature [of "5 # 0xC4 # 0x40 # replicate 64 7" protocol0 "''dev''"]
    Verify_splits_body_and_signature [of "replicate 66 7" protocol0 "''dev''"]
    Verify_splits_body_and_signature [of "replicate 67 7" protocol0 "''x''"]
  by (simp add: crypto0_def protocol0_def)

text \<open>
  C10. Two inputs of the same length above 66 that agree everywhere but at the two
  framing positions \<^verbatim>\<open>len-66\<close> and \<^verbatim>\<open>len-65\<close> get the same result from
  \<^verbatim>\<open>Protocol.Verify\<close>, for every name and every backend: the framing bytes are not
  looked at.
\<close>

theorem Verify_ignores_framing_bytes:
  assumes "length upp1 = length upp2" and "66 < length upp1"
    and "\<forall>i < length upp1. i \<noteq> length upp1 - 66 \<and> i \<noteq> length upp1 - 65 \<longrightarrow> upp1 ! i = upp2 ! i"
  shows "Protocol_Verify p name upp1 = Protocol_Verify p name upp2"
proof -
  let ?n = "length upp1"
  have body: "take (?n - 66) upp1 = take (?n - 66) upp2"
    using assms by (intro nth_take_lemma) auto
  have sig: "drop (?n - 64) upp1 = drop (?n - 64) upp2"
  proof (rule nth_equalityI)
    show "length (drop (?n - 64) upp1) = length (drop (?n - 64) upp2)"
      using assms(1) by simp
  next
    fix i assume "i < length (drop (?n - 64) upp1)"
    then have i: "i < 64" using assms(2) by simp
    let ?j = "?n - 64 + i"
    have "?j < ?n" "?j \<noteq> ?n - 66" "?j \<noteq> ?n - 65"
      using i assms(2) by simp_all
    then have "upp1 ! ?j = upp2 ! ?j" using assms(3) by blast
    then show "drop (?n - 64) upp1 ! i = drop (?n - 64) upp2 ! i"
      using assms(1,2) i by simp
  qed
  show ?thesis
  proof (cases "Crypto_GetUUID (Crypto p) name")
    case (Inl err)
    then show ?thesis
      using assms(1,2) by (simp add: Protocol_Verify_unresolved)
  next
    case (Inr uid)
    then show ?thesis
      using assms(1,2) body sig
        Protocol_Verify_resolved [of upp1 p name uid] Protocol_Verify_resolved [of upp2 p name uid]
      by simp
  qed
qed

text \<open>The theorem at the framing \<open>0xC4 0x40\<close> against the framing \<open>0x00 0xFF\<close>.\<close>

theorem Verify_ignores_framing_bytes_witness:
  "Protocol_Verify protocol0 ''dev'' (5 # 0xC4 # 0x40 # replicate 64 7)
     = Protocol_Verify protocol0 ''dev'' (5 # 0x00 # 0xFF # replicate 64 7)"
proof -
  let ?a = "5 # 0xC4 # 0x40 # replicate 64 (7::byte)"
  let ?b = "5 # 0x00 # 0xFF # replicate 64 (7::byte)"
  have l: "length ?a = length ?b" "66 < length ?a" by simp_all
  have "\<forall>i < length ?a. i \<noteq> length ?a - 66 \<and> i \<noteq> length ?a - 65 \<longrightarrow> ?a ! i = ?b ! i"
    by (simp add: nth_Cons split: nat.splits)
  then show ?thesis
    using Verify_ignores_framing_bytes [OF l] by blast
qed

section \<open>The wire format: encoding and decoding are inverse\<close>

lemma from_be_byte: "l < 256 \<Longrightarrow> from_be [of_nat l :: byte] = l"
  by (simp add: from_be_def unat_of_nat)

lemma from_be_be16: "l < 65536 \<Longrightarrow> from_be (be16 l) = l"
  by (simp add: from_be_def be16_def unat_of_nat) 

lemma from_be_be32: "l < 4294967296 \<Longrightarrow> from_be (be32 l) = l"
proof -
  assume l: "l < 4294967296"
  have a: "l div 16777216 mod 256 = l div 16777216" using l by simp
  have b: "l = l div 16777216 * 16777216 + l mod 16777216" by simp
  have c: "l mod 16777216 = (l div 65536 mod 256) * 65536 + l mod 65536"
    by (simp add: mod_mult2_eq [of l 65536 256, simplified])
  have d: "l mod 65536 = (l div 256 mod 256) * 256 + l mod 256"
    by (simp add: mod_mult2_eq [of l 256 256, simplified])
  show ?thesis
    using a b c d by (simp add: from_be_def be32_def unat_of_nat)
qed

lemma readn_append: "length b = n \<Longrightarrow> readn n (b @ rest) = Inr (b, rest)"
  by (simp add: readn_def)

lemma read_be_append: "length b = n \<Longrightarrow> read_be n (b @ rest) = Inr (from_be b, rest)"
  by (simp add: read_be_def readn_append)

lemma DecodeUint8_EncodeUint:
  "DecodeUint8 (EncodeUint v @ rest) = Inr (v, rest)"
proof -
  have "unat v < 2 ^ LENGTH(8)" by (rule unsigned_less)
  then have small: "\<not> 255 < unat v" by simp
  have one: "read_be 1 (v # rest) = Inr (unat v, rest)"
    using read_be_append [of "[v]" 1 rest] by (simp add: from_be_def)
  show ?thesis
    using small one by (simp add: DecodeUint8_def DecodeUint64_def EncodeUint_def)
qed

lemma TryDecodeAsNil_EncodeUint:
  "TryDecodeAsNil (EncodeUint v @ rest) = (False, EncodeUint v @ rest)"
  by (auto simp: TryDecodeAsNil_def EncodeUint_def)

lemma readContainerLen_Bin_writeContainerLen_Bin:
  assumes "l < 4294967296"
  shows "readContainerLen_Bin (writeContainerLen_Bin l @ rest) = Inr (l, rest)"
proof -
  consider "l < 256" | "256 \<le> l" "l < 65536" | "65536 \<le> l" by linarith
  then show ?thesis
  proof cases
    case 1
    then show ?thesis
      using read_be_append [of "[of_nat l :: byte]" 1 rest]
      by (simp add: readContainerLen_Bin_def writeContainerLen_Bin_def from_be_byte)
  next
    case 2
    have "length (be16 l) = 2" by (simp add: be16_def)
    then show ?thesis
      using 2 read_be_append [of "be16 l" 2 rest]
      by (simp add: readContainerLen_Bin_def writeContainerLen_Bin_def from_be_be16)
  next
    case 3
    have "length (be32 l) = 4" by (simp add: be32_def)
    then show ?thesis
      using 3 assms read_be_append [of "be32 l" 4 rest]
      by (simp add: readContainerLen_Bin_def writeContainerLen_Bin_def from_be_be32)
  qed
qed

lemma writeContainerLen_Bin_head:
  "\<exists>bd rest. writeContainerLen_Bin l = bd # rest \<and> (bd = 0xC4 \<or> bd = 0xC5 \<or> bd = 0xC6)"
  by (simp add: writeContainerLen_Bin_def)

lemma DecodeBytes_EncodeStringBytesRaw:
  assumes "len x < 4294967296"
  shows "DecodeBytes (EncodeStringBytesRaw x @ rest) = Inr (x, rest)"
proof (cases x)
  case None
  then show ?thesis by (simp add: DecodeBytes_def EncodeStringBytesRaw_def)
next
  case (Some b)
  obtain bd hdr where h: "writeContainerLen_Bin (length b) = bd # hdr"
      "bd = 0xC4 \<or> bd = 0xC5 \<or> bd = 0xC6"
    using writeContainerLen_Bin_head by blast
  have nonnil: "bd \<noteq> 0xC0" using h(2) by auto
  have l: "length b < 4294967296" using assms Some by (simp add: len_def)
  have "readContainerLen_Bin (writeContainerLen_Bin (length b) @ (b @ rest)) = Inr (length b, b @ rest)"
    using l by (rule readContainerLen_Bin_writeContainerLen_Bin)
  then have "readContainerLen_Bin (bd # hdr @ b @ rest) = Inr (length b, b @ rest)"
    using h by simp
  then show ?thesis
    using Some h nonnil readn_append [of b "length b" rest]
    by (simp add: DecodeBytes_def EncodeStringBytesRaw_def)
qed

lemma DecodeUuid_EncodeStringBytesRaw:
  assumes "length uid = 16"
  shows "DecodeUuid (EncodeStringBytesRaw (Some uid) @ rest) = Inr (uid, rest)"
  using assms DecodeBytes_EncodeStringBytesRaw [of "Some uid" rest]
  by (simp add: DecodeUuid_def UnmarshalBinary_def len_def)

lemma TryDecodeAsNil_EncodeStringBytesRaw_Some:
  "TryDecodeAsNil (EncodeStringBytesRaw (Some b) @ rest) = (False, EncodeStringBytesRaw (Some b) @ rest)"
  using writeContainerLen_Bin_head [of "length b"]
  by (auto simp: TryDecodeAsNil_def EncodeStringBytesRaw_def)

text \<open>A field reads back what the encoder wrote for it.\<close>

lemma kStructField_uint8:
  "kStructField 0 DecodeUint8 set_field upp (EncodeUint v @ rest) = Inr (set_field v upp, rest)"
  by (simp add: kStructField_def TryDecodeAsNil_EncodeUint DecodeUint8_EncodeUint)

lemma kStructField_uuid:
  assumes "length uid = 16"
  shows "kStructField zero DecodeUuid set_field upp (EncodeStringBytesRaw (Some uid) @ rest)
         = Inr (set_field uid upp, rest)"
  using assms
  by (simp add: kStructField_def TryDecodeAsNil_EncodeStringBytesRaw_Some
      DecodeUuid_EncodeStringBytesRaw)

lemma kStructField_bytes:
  assumes "len x < 4294967296"
  shows "kStructField None DecodeBytes set_field upp (EncodeStringBytesRaw x @ rest)
         = Inr (set_field x upp, rest)"
proof (cases x)
  case None
  then show ?thesis
    by (simp add: kStructField_def TryDecodeAsNil_def EncodeStringBytesRaw_def)
next
  case (Some b)
  then show ?thesis
    using assms DecodeBytes_EncodeStringBytesRaw [of x rest]
    by (simp add: kStructField_def TryDecodeAsNil_EncodeStringBytesRaw_Some)
qed

lemma swallow_0: "swallow 0 bs = Inr bs"
  by (subst swallow.simps) simp

lemma kStruct_SignedUPP_encoder_Encode:
  assumes "length uid = 16" and "len payload < 4294967296" and "len signature < 4294967296"
  shows "kStruct_SignedUPP (encoder_Encode (SignedUPP version uid hint payload signature) @ rest)
         = Inr (SignedUPP version uid hint payload signature, rest)"
proof -
  let ?body = "EncodeUint version @ EncodeStringBytesRaw (Some uid) @ EncodeUint hint
      @ EncodeStringBytesRaw payload @ EncodeStringBytesRaw signature @ rest"
  have enc: "encoder_Encode (SignedUPP version uid hint payload signature) @ rest = 0x95 # ?body"
    by (simp add: encoder_Encode_def writeContainerLen_List_def)
  have fields: "kStruct_array (take 5 (map snd SignedUPP_fields)) new_SignedUPP ?body
        = Inr (SignedUPP version uid hint payload signature, rest)"
    using assms
    by (simp add: SignedUPP_fields_def new_SignedUPP_def kStructField_uint8 kStructField_uuid
        kStructField_bytes)
  have len: "length SignedUPP_fields = 5" by (simp add: SignedUPP_fields_def)
  show ?thesis
    unfolding enc
    using fields len
    by (simp add: kStruct_SignedUPP_def TryDecodeAsNil_def kStruct_def ReadArrayStart_def swallow_0)
qed

lemma kStruct_ChainedUPP_encoder_Encode:
  assumes "length uid = 16" and "len prevSignature < 4294967296"
    and "len payload < 4294967296" and "len signature < 4294967296"
  shows "kStruct_ChainedUPP
           (encoder_Encode (ChainedUPP version uid prevSignature hint payload signature) @ rest)
         = Inr (ChainedUPP version uid prevSignature hint payload signature, rest)"
proof -
  let ?body = "EncodeUint version @ EncodeStringBytesRaw (Some uid)
      @ EncodeStringBytesRaw prevSignature @ EncodeUint hint
      @ EncodeStringBytesRaw payload @ EncodeStringBytesRaw signature @ rest"
  have enc: "encoder_Encode (ChainedUPP version uid prevSignature hint payload signature) @ rest
        = 0x96 # ?body"
    by (simp add: encoder_Encode_def writeContainerLen_List_def)
  have fields: "kStruct_array (take 6 (map snd ChainedUPP_fields)) new_ChainedUPP ?body
        = Inr (ChainedUPP version uid prevSignature hint payload signature, rest)"
    using assms
    by (simp add: ChainedUPP_fields_def new_ChainedUPP_def kStructField_uint8 kStructField_uuid
        kStructField_bytes)
  have len: "length ChainedUPP_fields = 6" by (simp add: ChainedUPP_fields_def)
  show ?thesis
    unfolding enc
    using fields len
    by (simp add: kStruct_ChainedUPP_def TryDecodeAsNil_def kStruct_def ReadArrayStart_def swallow_0)
qed

lemma decoder_Decode_SignedUPP_encoder_Encode:
  assumes "length uid = 16" and "len payload < 4294967296" and "len signature < 4294967296"
  shows "decoder_Decode_SignedUPP (encoder_Encode (SignedUPP version uid hint payload signature) @ rest)
         = Inr (SignedUPP version uid hint payload signature)"
  using kStruct_SignedUPP_encoder_Encode [OF assms]
  by (simp add: decoder_Decode_SignedUPP_def)

lemma decoder_Decode_ChainedUPP_encoder_Encode:
  assumes "length uid = 16" and "len prevSignature < 4294967296"
    and "len payload < 4294967296" and "len signature < 4294967296"
  shows "decoder_Decode_ChainedUPP
           (encoder_Encode (ChainedUPP version uid prevSignature hint payload signature) @ rest)
         = Inr (ChainedUPP version uid prevSignature hint payload signature)"
  using kStruct_ChainedUPP_encoder_Encode [OF assms]
  by (simp add: decoder_Decode_ChainedUPP_def)

lemma encoder_Encode_tag:
  assumes "GetVersion upp \<le> 0x7F"
  shows "\<exists>b rest. encoder_Encode upp = b # GetVersion upp # rest"
  using assms
  by (cases upp) (simp_all add: encoder_Encode_def writeContainerLen_List_def EncodeUint_def)

lemma Decode_tagged:
  assumes "upp = b # tag # rest"
  shows "Decode upp =
     (if tag = Signed then decoder_Decode_SignedUPP upp
      else if tag = Chained then decoder_Decode_ChainedUPP upp
      else Inl (Errorf ''invalid protocol version: 0x%02x'' [ArgInt (uint tag)]))"
  using assms by (simp add: Decode_def go_index_def split: sum.split)

lemma Decode_encoder_Encode_SignedUPP:
  assumes "length uid = 16" and "len payload < 4294967296" and "len signature < 4294967296"
  shows "Decode (encoder_Encode (SignedUPP Signed uid hint payload signature))
         = Inr (SignedUPP Signed uid hint payload signature)"
proof -
  let ?upp = "SignedUPP Signed uid hint payload signature"
  obtain b rest where e: "encoder_Encode ?upp = b # Signed # rest"
    using encoder_Encode_tag [of ?upp] by (auto simp: Signed_def)
  have "decoder_Decode_SignedUPP (encoder_Encode ?upp @ []) = Inr ?upp"
    using assms by (rule decoder_Decode_SignedUPP_encoder_Encode)
  then show ?thesis
    using Decode_tagged [OF e] by simp
qed

lemma Decode_encoder_Encode_ChainedUPP:
  assumes "length uid = 16" and "len prevSignature < 4294967296"
    and "len payload < 4294967296" and "len signature < 4294967296"
  shows "Decode (encoder_Encode (ChainedUPP Chained uid prevSignature hint payload signature))
         = Inr (ChainedUPP Chained uid prevSignature hint payload signature)"
proof -
  let ?upp = "ChainedUPP Chained uid prevSignature hint payload signature"
  obtain b rest where e: "encoder_Encode ?upp = b # Chained # rest"
    using encoder_Encode_tag [of ?upp] by (auto simp: Chained_def)
  have "decoder_Decode_ChainedUPP (encoder_Encode ?upp @ []) = Inr ?upp"
    using assms by (rule decoder_Decode_ChainedUPP_encoder_Encode)
  then show ?thesis
    using Decode_tagged [OF e] by (simp add: Signed_def Chained_def)
qed

text \<open>
  C1. Round trip. A Signed packet (version \<open>0x22\<close>) and a Chained packet (version
  \<open>0x23\<close>) with all fields present, an identity of 16 bytes and a signature of 64
  bytes, is encoded without error, and decoding the encoding gives the packet back,
  field for field. The byte fields are within what the 32-bit length of the
  MessagePack bin header can hold (fewer than \<open>2^32\<close> bytes); a hint of any value
  and a payload of any such length are covered.
\<close>

theorem Decode_Encode_roundtrip:
  "(length uid = 16 \<and> length payload < 4294967296 \<and> length signature = 64 \<longrightarrow>
      (\<exists>encoded. Encode (SignedUPP Signed uid hint (Some payload) (Some signature)) = Inr encoded
        \<and> Decode encoded = Inr (SignedUPP Signed uid hint (Some payload) (Some signature))))
   \<and> (length uid = 16 \<and> length prevSignature < 4294967296 \<and> length payload < 4294967296
        \<and> length signature = 64 \<longrightarrow>
      (\<exists>encoded. Encode (ChainedUPP Chained uid (Some prevSignature) hint (Some payload) (Some signature))
                   = Inr encoded
        \<and> Decode encoded
            = Inr (ChainedUPP Chained uid (Some prevSignature) hint (Some payload) (Some signature))))"
  using Decode_encoder_Encode_SignedUPP [of uid "Some payload" "Some signature" hint]
    Decode_encoder_Encode_ChainedUPP [of uid "Some prevSignature" "Some payload" "Some signature" hint]
  by (simp add: Encode_def len_def)

text \<open>The theorem at a Signed packet with a 32-byte payload and at a Chained packet
  with a 300-byte payload, whose length takes the two-byte form of the bin header.\<close>

theorem Decode_Encode_roundtrip_witness:
  "(\<exists>encoded. Encode (SignedUPP Signed (replicate 16 1) Binary (Some (replicate 32 2)) (Some (replicate 64 7)))
                 = Inr encoded
      \<and> Decode encoded
          = Inr (SignedUPP Signed (replicate 16 1) Binary (Some (replicate 32 2)) (Some (replicate 64 7))))
   \<and> (\<exists>encoded. Encode (ChainedUPP Chained (replicate 16 1) (Some (replicate 64 0)) Disable
                          (Some (replicate 300 2)) (Some (replicate 64 7)))
                 = Inr encoded
      \<and> Decode encoded
          = Inr (ChainedUPP Chained (replicate 16 1) (Some (replicate 64 0)) Disable
                   (Some (replicate 300 2)) (Some (replicate 64 7))))"
  using Decode_Encode_roundtrip [where uid = "replicate 16 1" and payload = "replicate 32 2"
      and signature = "replicate 64 7" and hint = Binary]
    Decode_Encode_roundtrip [where uid = "replicate 16 1" and payload = "replicate 300 2"
      and signature = "replicate 64 7" and hint = Disable and prevSignature = "replicate 64 0"]
  by simp

section \<open>Decode: dispatch and totality\<close>

lemma Decode_short: "length upp < 2 \<Longrightarrow> Decode upp = Inl (Errorf ''input nil or invalid length'' [])"
  by (simp add: Decode_def)

lemma Decode_dispatch:
  assumes "2 \<le> length upp"
  shows "Decode upp =
     (if upp ! 1 = Signed then decoder_Decode_SignedUPP upp
      else if upp ! 1 = Chained then decoder_Decode_ChainedUPP upp
      else Inl (Errorf ''invalid protocol version: 0x%02x'' [ArgInt (uint (upp ! 1))]))"
  using assms by (simp add: Decode_def go_index_def split: sum.split)

text \<open>The codec's errors are error values of the library.\<close>

lemma readn_error: "readn n bs = Inl e \<Longrightarrow> \<exists>s. e = External s"
  by (auto simp: readn_def split: if_splits)

lemma read_be_error: "read_be n bs = Inl e \<Longrightarrow> \<exists>s. e = External s"
  by (auto simp: read_be_def split: sum.splits dest: readn_error)

lemma read_int_error: "read_int n bs = Inl e \<Longrightarrow> \<exists>s. e = External s"
  by (auto simp: read_int_def split: sum.splits if_splits dest: readn_error)

lemma DecodeUint64_error: "DecodeUint64 bs = Inl e \<Longrightarrow> \<exists>s. e = External s"
  by (auto simp: DecodeUint64_def split: list.splits if_splits dest: read_be_error read_int_error)

lemma DecodeUint8_error: "DecodeUint8 bs = Inl e \<Longrightarrow> \<exists>s. e = External s"
  by (auto simp: DecodeUint8_def split: sum.splits if_splits dest: DecodeUint64_error)

lemma readContainerLen_Bin_error: "readContainerLen_Bin bs = Inl e \<Longrightarrow> \<exists>s. e = External s"
  by (auto simp: readContainerLen_Bin_def split: list.splits if_splits dest: read_be_error)

lemma readContainerLen_Str_error: "readContainerLen_Str bs = Inl e \<Longrightarrow> \<exists>s. e = External s"
  by (auto simp: readContainerLen_Str_def split: list.splits if_splits dest: read_be_error)

lemma DecodeBytes_error: "DecodeBytes bs = Inl e \<Longrightarrow> \<exists>s. e = External s"
  by (auto simp: DecodeBytes_def split: list.splits if_splits sum.splits
      dest: readn_error readContainerLen_Bin_error readContainerLen_Str_error)

lemma DecodeUuid_error: "DecodeUuid bs = Inl e \<Longrightarrow> \<exists>s. e = External s"
  by (auto simp: DecodeUuid_def UnmarshalBinary_def split: sum.splits if_splits dest: DecodeBytes_error)

lemma ReadArrayStart_error: "ReadArrayStart bs = Inl e \<Longrightarrow> \<exists>s. e = External s"
  by (auto simp: ReadArrayStart_def split: list.splits if_splits dest: read_be_error)

lemma ReadMapStart_error: "ReadMapStart bs = Inl e \<Longrightarrow> \<exists>s. e = External s"
  by (auto simp: ReadMapStart_def split: list.splits if_splits dest: read_be_error)

lemma skip_bytes_error: "skip_bytes n bs = Inl e \<Longrightarrow> \<exists>s. e = External s"
  by (auto simp: skip_bytes_def split: sum.splits dest: readn_error)

lemma skip_sized_error: "skip_sized n x bs = Inl e \<Longrightarrow> \<exists>s. e = External s"
  by (auto simp: skip_sized_def split: sum.splits dest: read_be_error skip_bytes_error)

lemma skip_counted_error: "skip_counted n x bs = Inl e \<Longrightarrow> \<exists>s. e = External s"
  by (auto simp: skip_counted_def split: sum.splits dest: read_be_error)

lemma value_body_error: "value_body bs = Inl e \<Longrightarrow> \<exists>s. e = External s"
proof -
  have sb: "case skip_bytes n tail of Inl e \<Rightarrow> \<exists>s. e = External s | Inr x \<Rightarrow> True" for n tail
    using skip_bytes_error [of n tail] by (auto split: sum.split)
  have ss: "case skip_sized n x tail of Inl e \<Rightarrow> \<exists>s. e = External s | Inr x \<Rightarrow> True" for n x tail
    using skip_sized_error [of n x tail] by (auto split: sum.split)
  have sc: "case skip_counted n x tail of Inl e \<Rightarrow> \<exists>s. e = External s | Inr x \<Rightarrow> True" for n x tail
    using skip_counted_error [of n x tail] by (auto split: sum.split)
  have "case value_body bs of Inl e \<Rightarrow> \<exists>s. e = External s | Inr x \<Rightarrow> True"
    by (cases bs) (simp_all add: value_body_def sb ss sc)
  then show "value_body bs = Inl e \<Longrightarrow> \<exists>s. e = External s" by simp
qed

lemma swallow_error: "swallow n bs = Inl e \<Longrightarrow> \<exists>s. e = External s"
proof (induction n bs rule: swallow.induct)
  case (1 n bs)
  show ?case
  proof (cases "n = 0")
    case True
    then show ?thesis using "1.prems" by (subst (asm) swallow.simps) simp
  next
    case False
    show ?thesis
    proof (cases "value_body bs")
      case (Inl e')
      then have "e' = e" using "1.prems" False by (subst (asm) swallow.simps) simp
      then show ?thesis using value_body_error [OF Inl] by simp
    next
      case (Inr v)
      obtain nested rest where v: "v = (nested, rest)" by (cases v)
      have "swallow (n - 1 + nested) rest = Inl e"
        using "1.prems" False Inr v by (subst (asm) swallow.simps) simp
      then show ?thesis using "1.IH" [OF False Inr v [symmetric]] by simp
    qed
  qed
qed

text \<open>
  Decoding a field, and so decoding a struct, fails with an error of the library or
  gives a packet of the type of its target.
\<close>

lemma set_field_type:
  "is_SignedUPP (set_Version b upp) = is_SignedUPP upp"
  "is_SignedUPP (set_Uuid u upp) = is_SignedUPP upp"
  "is_SignedUPP (set_PrevSignature x upp) = is_SignedUPP upp"
  "is_SignedUPP (set_Hint b upp) = is_SignedUPP upp"
  "is_SignedUPP (set_Payload x upp) = is_SignedUPP upp"
  "is_SignedUPP (set_Signature x upp) = is_SignedUPP upp"
  by (cases upp; simp)+

lemma kStructField_sound:
  assumes "\<And>bs e. decodeValue bs = Inl e \<Longrightarrow> \<exists>s. e = External s"
    and "\<And>v upp. is_SignedUPP (set_field v upp) = is_SignedUPP upp"
  shows "(kStructField zero decodeValue set_field upp bs = Inl e \<longrightarrow> (\<exists>s. e = External s))
       \<and> (kStructField zero decodeValue set_field upp bs = Inr (upp', rest) \<longrightarrow>
            is_SignedUPP upp' = is_SignedUPP upp)"
  using assms
  by (auto simp: kStructField_def split: prod.splits bool.splits sum.splits)

lemma struct_fields_sound:
  assumes "si \<in> snd ` set SignedUPP_fields \<union> snd ` set ChainedUPP_fields"
  shows "(si upp bs = Inl e \<longrightarrow> (\<exists>s. e = External s))
       \<and> (si upp bs = Inr (upp', rest) \<longrightarrow> is_SignedUPP upp' = is_SignedUPP upp)"
proof -
  from assms consider
      "si = kStructField 0 DecodeUint8 set_Version"
    | "si = kStructField (replicate 16 0) DecodeUuid set_Uuid"
    | "si = kStructField None DecodeBytes set_PrevSignature"
    | "si = kStructField 0 DecodeUint8 set_Hint"
    | "si = kStructField None DecodeBytes set_Payload"
    | "si = kStructField None DecodeBytes set_Signature"
    by (auto simp: SignedUPP_fields_def ChainedUPP_fields_def)
  then show ?thesis
  proof cases
    case 1
    then show ?thesis
      using kStructField_sound [where decodeValue = DecodeUint8 and set_field = set_Version,
          OF DecodeUint8_error set_field_type(1)]
      by simp
  next
    case 2
    then show ?thesis
      using kStructField_sound [where decodeValue = DecodeUuid and set_field = set_Uuid,
          OF DecodeUuid_error set_field_type(2)]
      by simp
  next
    case 3
    then show ?thesis
      using kStructField_sound [where decodeValue = DecodeBytes and set_field = set_PrevSignature,
          OF DecodeBytes_error set_field_type(3)]
      by simp
  next
    case 4
    then show ?thesis
      using kStructField_sound [where decodeValue = DecodeUint8 and set_field = set_Hint,
          OF DecodeUint8_error set_field_type(4)]
      by simp
  next
    case 5
    then show ?thesis
      using kStructField_sound [where decodeValue = DecodeBytes and set_field = set_Payload,
          OF DecodeBytes_error set_field_type(5)]
      by simp
  next
    case 6
    then show ?thesis
      using kStructField_sound [where decodeValue = DecodeBytes and set_field = set_Signature,
          OF DecodeBytes_error set_field_type(6)]
      by simp
  qed
qed

lemma kStruct_array_sound:
  assumes "set sis \<subseteq> snd ` set SignedUPP_fields \<union> snd ` set ChainedUPP_fields"
  shows "(kStruct_array sis upp bs = Inl e \<longrightarrow> (\<exists>s. e = External s))
       \<and> (kStruct_array sis upp bs = Inr (upp', rest) \<longrightarrow> is_SignedUPP upp' = is_SignedUPP upp)"
  using assms
proof (induction sis arbitrary: upp bs)
  case Nil
  then show ?case by simp
next
  case (Cons si sis)
  have si: "si \<in> snd ` set SignedUPP_fields \<union> snd ` set ChainedUPP_fields"
    and sis: "set sis \<subseteq> snd ` set SignedUPP_fields \<union> snd ` set ChainedUPP_fields"
    using Cons.prems by auto
  show ?case
  proof (cases "si upp bs")
    case (Inl e')
    then show ?thesis using struct_fields_sound [OF si, of upp bs e'] by auto
  next
    case (Inr v)
    obtain upp1 r1 where v: "v = (upp1, r1)" by (cases v)
    have "is_SignedUPP upp1 = is_SignedUPP upp"
      using struct_fields_sound [OF si, of upp bs _ upp1 r1] Inr v by simp
    then show ?thesis
      using Cons.IH [OF sis, of upp1 r1] Inr v by simp
  qed
qed

lemma kStruct_map_sound:
  assumes "snd ` set tisfi \<subseteq> snd ` set SignedUPP_fields \<union> snd ` set ChainedUPP_fields"
  shows "(kStruct_map tisfi n upp bs = Inl e \<longrightarrow> (\<exists>s. e = External s))
       \<and> (kStruct_map tisfi n upp bs = Inr (upp', rest) \<longrightarrow> is_SignedUPP upp' = is_SignedUPP upp)"
proof (induction n arbitrary: upp bs)
  case 0
  then show ?case by simp
next
  case (Suc n)
  show ?case
  proof (cases "DecodeBytes bs")
    case (Inl e')
    then show ?thesis using DecodeBytes_error [OF Inl] by auto
  next
    case (Inr v)
    obtain rvkencname r0 where v: "v = (rvkencname, r0)" by (cases v)
    let ?name = "map (\<lambda>b. char_of (unat b)) (case rvkencname of None \<Rightarrow> [] | Some k \<Rightarrow> k)"
    show ?thesis
    proof (cases "map_of tisfi ?name")
      case None
      show ?thesis
      proof (cases "swallow 1 r0")
        case (Inl e')
        then show ?thesis using Inr v None swallow_error [OF Inl] by auto
      next
        case r: (Inr r1)
        then show ?thesis using Inr v None Suc.IH [of upp r1] by simp
      qed
    next
      case (Some si)
      then have si: "si \<in> snd ` set SignedUPP_fields \<union> snd ` set ChainedUPP_fields"
        using assms map_of_SomeD [OF Some] by force
      show ?thesis
      proof (cases "si upp r0")
        case (Inl e')
        then show ?thesis using Inr v Some struct_fields_sound [OF si, of upp r0 e'] by auto
      next
        case r: (Inr w)
        obtain upp1 r1 where w: "w = (upp1, r1)" by (cases w)
        have "is_SignedUPP upp1 = is_SignedUPP upp"
          using struct_fields_sound [OF si, of upp r0 _ upp1 r1] r w by simp
        then show ?thesis
          using Inr v Some r w Suc.IH [of upp1 r1] by simp
      qed
    qed
  qed
qed

lemma kStruct_sound:
  assumes "snd ` set tisfi \<subseteq> snd ` set SignedUPP_fields \<union> snd ` set ChainedUPP_fields"
  shows "(kStruct tisfi upp bs = Inl e \<longrightarrow> (\<exists>s. e = External s))
       \<and> (kStruct tisfi upp bs = Inr (upp', rest) \<longrightarrow> is_SignedUPP upp' = is_SignedUPP upp)"
proof (cases bs)
  case Nil
  then show ?thesis by (auto simp: kStruct_def)
next
  case (Cons bd tail)
  show ?thesis
  proof (cases "(0x80 \<le> bd \<and> bd \<le> 0x8F) \<or> bd = 0xDE \<or> bd = 0xDF")
    case True
    have k: "kStruct tisfi upp bs =
        (case ReadMapStart bs of
           Inl e \<Rightarrow> Inl e
         | Inr (containerLen, rest) \<Rightarrow> kStruct_map tisfi containerLen upp rest)"
      unfolding Cons by (simp only: kStruct_def list.case if_P [OF True])
    show ?thesis
    proof (cases "ReadMapStart bs")
      case (Inl e')
      then show ?thesis using k ReadMapStart_error [OF Inl] by auto
    next
      case (Inr v)
      obtain n r where v: "v = (n, r)" by (cases v)
      show ?thesis
        using k Inr v kStruct_map_sound [OF assms, of n upp r e upp' rest] by simp
    qed
  next
    case notmap: False
    show ?thesis
    proof (cases "(0x90 \<le> bd \<and> bd \<le> 0x9F) \<or> bd = 0xDC \<or> bd = 0xDD")
      case True
      have k: "kStruct tisfi upp bs =
          (case ReadArrayStart bs of
             Inl e \<Rightarrow> Inl e
           | Inr (containerLen, rest) \<Rightarrow>
               (case kStruct_array (take containerLen (map snd tisfi)) upp rest of
                  Inl e \<Rightarrow> Inl e
                | Inr (upp', rest') \<Rightarrow>
                    (case swallow (containerLen - length tisfi) rest' of
                       Inl e \<Rightarrow> Inl e
                     | Inr rest'' \<Rightarrow> Inr (upp', rest''))))"
        unfolding Cons by (simp only: kStruct_def list.case if_not_P [OF notmap] if_P [OF True])
      show ?thesis
      proof (cases "ReadArrayStart bs")
        case (Inl e')
        then show ?thesis using k ReadArrayStart_error [OF Inl] by auto
      next
        case (Inr v)
        obtain n r where v: "v = (n, r)" by (cases v)
        have sub: "set (take n (map snd tisfi))
            \<subseteq> snd ` set SignedUPP_fields \<union> snd ` set ChainedUPP_fields"
          using assms set_take_subset [of n "map snd tisfi"] by auto
        show ?thesis
        proof (cases "kStruct_array (take n (map snd tisfi)) upp r")
          case (Inl e')
          then show ?thesis
            using k Inr v kStruct_array_sound [OF sub, of upp r e'] by auto
        next
          case a: (Inr w)
          obtain upp1 r1 where w: "w = (upp1, r1)" by (cases w)
          have t: "is_SignedUPP upp1 = is_SignedUPP upp"
            using kStruct_array_sound [OF sub, of upp r _ upp1 r1] a w by simp
          show ?thesis
          proof (cases "swallow (n - length tisfi) r1")
            case (Inl e')
            then show ?thesis using k Inr v a w swallow_error [OF Inl] by auto
          next
            case s: (Inr r2)
            then show ?thesis using k Inr v a w t by auto
          qed
        qed
      qed
    next
      case False
      have "kStruct tisfi upp bs
          = Inl (External ''only encoded map or array can be decoded into a struct'')"
        unfolding Cons by (simp only: kStruct_def list.case if_not_P [OF notmap] if_not_P [OF False])
      then show ?thesis by auto
    qed
  qed
qed

lemma decoder_Decode_SignedUPP_sound:
  "(decoder_Decode_SignedUPP bs = Inl e \<longrightarrow> (\<exists>s. e = External s))
   \<and> (decoder_Decode_SignedUPP bs = Inr upp \<longrightarrow> is_SignedUPP upp)"
  using kStruct_sound [of SignedUPP_fields new_SignedUPP bs]
  by (auto simp: decoder_Decode_SignedUPP_def kStruct_SignedUPP_def new_SignedUPP_def
      split: prod.splits bool.splits sum.splits)

lemma decoder_Decode_ChainedUPP_sound:
  "(decoder_Decode_ChainedUPP bs = Inl e \<longrightarrow> (\<exists>s. e = External s))
   \<and> (decoder_Decode_ChainedUPP bs = Inr upp \<longrightarrow> \<not> is_SignedUPP upp)"
  using kStruct_sound [of ChainedUPP_fields new_ChainedUPP bs]
  by (auto simp: decoder_Decode_ChainedUPP_def kStruct_ChainedUPP_def new_ChainedUPP_def
      split: prod.splits bool.splits sum.splits)

lemma Decode_never_panics: "Decode upp = Inl e \<Longrightarrow> \<not> is_Panic e"
proof (cases "length upp < 2")
  case True
  then show "Decode upp = Inl e \<Longrightarrow> \<not> is_Panic e" by (auto simp: Decode_short)
next
  case False
  then have "2 \<le> length upp" by simp
  then show "Decode upp = Inl e \<Longrightarrow> \<not> is_Panic e"
    using decoder_Decode_SignedUPP_sound [of upp e] decoder_Decode_ChainedUPP_sound [of upp e]
    by (auto simp: Decode_dispatch split: if_splits)
qed

text \<open>
  C6. \<^verbatim>\<open>Decode\<close> never panics: every failure is a returned error. Input shorter than
  two bytes (the nil slice included) is the error "input nil or invalid length".
  Otherwise the byte at offset 1 decides: for \<open>0x22\<close> the result is that of the
  MessagePack decoder reading a Signed struct from the input, and a success is a
  Signed packet; for \<open>0x23\<close> it is that of the decoder reading a Chained struct, and
  a success is a Chained packet; every other value is the error "invalid protocol
  version". The encoding of a Signed and of a Chained packet with all fields present
  decodes to the packet. What the decoder makes of input that is not such an encoding
  is the library's matter: it is not always an error.
\<close>

theorem Decode_dispatches_on_tag_and_never_panics:
  "(length upp < 2 \<longrightarrow> Decode upp = Inl (Errorf ''input nil or invalid length'' []))
   \<and> (2 \<le> length upp \<and> upp ! 1 = 0x22 \<longrightarrow>
        Decode upp = decoder_Decode_SignedUPP upp
      \<and> DecodeSigned upp = Decode upp
      \<and> (\<forall>decoded. Decode upp = Inr decoded \<longrightarrow>
            (\<exists>version uid hint payload signature.
               decoded = SignedUPP version uid hint payload signature)))
   \<and> (2 \<le> length upp \<and> upp ! 1 = 0x23 \<longrightarrow>
        Decode upp = decoder_Decode_ChainedUPP upp
      \<and> DecodeChained upp = Decode upp
      \<and> (\<forall>decoded. Decode upp = Inr decoded \<longrightarrow>
            (\<exists>version uid prevSignature hint payload signature.
               decoded = ChainedUPP version uid prevSignature hint payload signature)))
   \<and> (2 \<le> length upp \<and> upp ! 1 \<noteq> 0x22 \<and> upp ! 1 \<noteq> 0x23 \<longrightarrow>
        Decode upp = Inl (Errorf ''invalid protocol version: 0x%02x'' [ArgInt (uint (upp ! 1))]))
   \<and> (\<forall>err. Decode upp = Inl err \<longrightarrow> \<not> is_Panic err)
   \<and> (\<forall>uid hint payload signature.
          length uid = 16 \<and> length payload < 4294967296 \<and> length signature = 64
          \<and> upp = encoder_Encode (SignedUPP Signed uid hint (Some payload) (Some signature))
          \<longrightarrow> Decode upp = Inr (SignedUPP Signed uid hint (Some payload) (Some signature)))
   \<and> (\<forall>uid prevSignature hint payload signature.
          length uid = 16 \<and> length prevSignature < 4294967296 \<and> length payload < 4294967296
          \<and> length signature = 64
          \<and> upp = encoder_Encode
                    (ChainedUPP Chained uid (Some prevSignature) hint (Some payload) (Some signature))
          \<longrightarrow> Decode upp
              = Inr (ChainedUPP Chained uid (Some prevSignature) hint (Some payload) (Some signature)))"
proof -
  have signed: "Decode upp = decoder_Decode_SignedUPP upp" if "2 \<le> length upp" "upp ! 1 = 0x22"
    using that by (simp add: Decode_dispatch Signed_def)
  have chained: "Decode upp = decoder_Decode_ChainedUPP upp" if "2 \<le> length upp" "upp ! 1 = 0x23"
    using that by (simp add: Decode_dispatch Signed_def Chained_def)
  have other: "Decode upp = Inl (Errorf ''invalid protocol version: 0x%02x'' [ArgInt (uint (upp ! 1))])"
    if "2 \<le> length upp" "upp ! 1 \<noteq> 0x22" "upp ! 1 \<noteq> 0x23"
    using that by (simp add: Decode_dispatch Signed_def Chained_def)
  have signed_type: "\<exists>version uid hint payload signature.
               decoded = SignedUPP version uid hint payload signature"
    if "2 \<le> length upp" "upp ! 1 = 0x22" "Decode upp = Inr decoded" for decoded
    using signed [OF that(1,2)] that(3) decoder_Decode_SignedUPP_sound [of upp _ decoded]
    by (cases decoded) auto
  have chained_type: "\<exists>version uid prevSignature hint payload signature.
               decoded = ChainedUPP version uid prevSignature hint payload signature"
    if "2 \<le> length upp" "upp ! 1 = 0x23" "Decode upp = Inr decoded" for decoded
    using chained [OF that(1,2)] that(3) decoder_Decode_ChainedUPP_sound [of upp _ decoded]
    by (cases decoded) auto
  have asserted_signed: "DecodeSigned upp = Decode upp" if "2 \<le> length upp" "upp ! 1 = 0x22"
    using signed [OF that] decoder_Decode_SignedUPP_sound [of upp]
    by (auto simp: DecodeSigned_def split: sum.splits)
  have asserted_chained: "DecodeChained upp = Decode upp" if "2 \<le> length upp" "upp ! 1 = 0x23"
    using chained [OF that] decoder_Decode_ChainedUPP_sound [of upp]
    by (auto simp: DecodeChained_def split: sum.splits)
  have full_signed: "Decode upp = Inr (SignedUPP Signed uid hint (Some payload) (Some signature))"
    if "length uid = 16" "length payload < 4294967296" "length signature = 64"
      "upp = encoder_Encode (SignedUPP Signed uid hint (Some payload) (Some signature))"
    for uid hint payload signature
    using that Decode_encoder_Encode_SignedUPP [of uid "Some payload" "Some signature" hint]
    by (simp add: len_def)
  have full_chained: "Decode upp
        = Inr (ChainedUPP Chained uid (Some prevSignature) hint (Some payload) (Some signature))"
    if "length uid = 16" "length prevSignature < 4294967296" "length payload < 4294967296"
      "length signature = 64"
      "upp = encoder_Encode
               (ChainedUPP Chained uid (Some prevSignature) hint (Some payload) (Some signature))"
    for uid prevSignature hint payload signature
    using that
      Decode_encoder_Encode_ChainedUPP [of uid "Some prevSignature" "Some payload" "Some signature" hint]
    by (simp add: len_def)
  have c1: "length upp < 2 \<longrightarrow> Decode upp = Inl (Errorf ''input nil or invalid length'' [])"
    using Decode_short [of upp] by simp
  have c2: "2 \<le> length upp \<and> upp ! 1 = 0x22 \<longrightarrow>
        Decode upp = decoder_Decode_SignedUPP upp
      \<and> DecodeSigned upp = Decode upp
      \<and> (\<forall>decoded. Decode upp = Inr decoded \<longrightarrow>
            (\<exists>version uid hint payload signature.
               decoded = SignedUPP version uid hint payload signature))"
    using signed asserted_signed signed_type by blast
  have c3: "2 \<le> length upp \<and> upp ! 1 = 0x23 \<longrightarrow>
        Decode upp = decoder_Decode_ChainedUPP upp
      \<and> DecodeChained upp = Decode upp
      \<and> (\<forall>decoded. Decode upp = Inr decoded \<longrightarrow>
            (\<exists>version uid prevSignature hint payload signature.
               decoded = ChainedUPP version uid prevSignature hint payload signature))"
    using chained asserted_chained chained_type by blast
  have c4: "2 \<le> length upp \<and> upp ! 1 \<noteq> 0x22 \<and> upp ! 1 \<noteq> 0x23 \<longrightarrow>
        Decode upp = Inl (Errorf ''invalid protocol version: 0x%02x'' [ArgInt (uint (upp ! 1))])"
    using other by blast
  have c5: "\<forall>err. Decode upp = Inl err \<longrightarrow> \<not> is_Panic err"
    using Decode_never_panics [of upp] by blast
  have c6: "\<forall>uid hint payload signature.
          length uid = 16 \<and> length payload < 4294967296 \<and> length signature = 64
          \<and> upp = encoder_Encode (SignedUPP Signed uid hint (Some payload) (Some signature))
          \<longrightarrow> Decode upp = Inr (SignedUPP Signed uid hint (Some payload) (Some signature))"
    using full_signed by blast
  have c7: "\<forall>uid prevSignature hint payload signature.
          length uid = 16 \<and> length prevSignature < 4294967296 \<and> length payload < 4294967296
          \<and> length signature = 64
          \<and> upp = encoder_Encode
                    (ChainedUPP Chained uid (Some prevSignature) hint (Some payload) (Some signature))
          \<longrightarrow> Decode upp
              = Inr (ChainedUPP Chained uid (Some prevSignature) hint (Some payload) (Some signature))"
    using full_chained by blast
  show ?thesis
    by (intro conjI; fact)
qed

text \<open>The theorem at a one-byte input, at the tag \<open>0x24\<close>, at the encoding of a Signed
  packet, at an array of one element with the tag \<open>0x22\<close>, and at a Chained packet whose
  identity has one byte.\<close>

theorem Decode_dispatches_on_tag_and_never_panics_witness:
  "Decode [0x95] = Inl (Errorf ''input nil or invalid length'' [])
   \<and> Decode [0x95, 0x24, 0xC4] = Inl (Errorf ''invalid protocol version: 0x%02x'' [ArgInt 0x24])
   \<and> Decode (encoder_Encode
        (SignedUPP Signed (replicate 16 1) Binary (Some (replicate 32 2)) (Some (replicate 64 7))))
       = Inr (SignedUPP Signed (replicate 16 1) Binary (Some (replicate 32 2)) (Some (replicate 64 7)))
   \<and> Decode [0x91, 0x22] = decoder_Decode_SignedUPP [0x91, 0x22]
   \<and> DecodeSigned [0x91, 0x22] = Decode [0x91, 0x22]
   \<and> (case Decode [0x92, 0x23, 0xC4, 0x01, 0x05] of
         Inl err \<Rightarrow> \<not> is_Panic err
       | Inr decoded \<Rightarrow> False)"
proof -
  let ?s = "encoder_Encode
        (SignedUPP Signed (replicate 16 1) Binary (Some (replicate 32 2)) (Some (replicate 64 7)))"
  have a: "Decode [0x95] = Inl (Errorf ''input nil or invalid length'' [])"
    using Decode_dispatches_on_tag_and_never_panics [of "[0x95]"] by simp
  have b: "Decode [0x95, 0x24, 0xC4] = Inl (Errorf ''invalid protocol version: 0x%02x'' [ArgInt 0x24])"
    using Decode_dispatches_on_tag_and_never_panics [of "[0x95, 0x24, 0xC4]"] by simp
  have h: "length (replicate 16 (1::byte)) = 16" "length (replicate 32 (2::byte)) < 4294967296"
    "length (replicate 64 (7::byte)) = 64"
    by simp_all
  have c: "Decode ?s
      = Inr (SignedUPP Signed (replicate 16 1) Binary (Some (replicate 32 2)) (Some (replicate 64 7)))"
    using Decode_dispatches_on_tag_and_never_panics [of ?s] h by blast
  have d: "Decode [0x91, 0x22] = decoder_Decode_SignedUPP [0x91, 0x22]
         \<and> DecodeSigned [0x91, 0x22] = Decode [0x91, 0x22]"
    using Decode_dispatches_on_tag_and_never_panics [of "[0x91, 0x22]"] by simp
  have "isl (Decode [0x92, 0x23, 0xC4, 0x01, 0x05])" by code_simp
  then obtain err where err: "Decode [0x92, 0x23, 0xC4, 0x01, 0x05] = Inl err"
    by (cases "Decode [0x92, 0x23, 0xC4, 0x01, 0x05]") auto
  then have "\<not> is_Panic err"
    using Decode_dispatches_on_tag_and_never_panics [of "[0x92, 0x23, 0xC4, 0x01, 0x05]"] by blast
  then have e: "case Decode [0x92, 0x23, 0xC4, 0x01, 0x05] of
         Inl err \<Rightarrow> \<not> is_Panic err
       | Inr decoded \<Rightarrow> False"
    using err by simp
  show ?thesis using a b c d e by blast
qed

text \<open>
  Input that is not the encoding of a whole packet and decodes all the same: an array
  of one element, where a Signed packet has five, gives a Signed packet whose other
  fields are zero; nil gives the zero Chained packet.
\<close>

theorem Decode_accepts_incomplete_packets:
  "Decode [0x91, 0x22] = Inr (SignedUPP 0x22 (replicate 16 0) 0 None None)
   \<and> Decode [0xC0, 0x23] = Inr (ChainedUPP 0 (replicate 16 0) None 0 None None)"
  by code_simp

section \<open>Protocol.sign\<close>

lemma encoder_Encode_nil_signature:
  assumes "GetSignature upp = None"
  shows "\<exists>body. encoder_Encode upp = body @ [0xC0] \<and> body \<noteq> []"
  using assms
  by (cases upp) (simp_all add: encoder_Encode_def EncodeStringBytesRaw_def writeContainerLen_List_def)

lemma encoder_Encode_length: "2 \<le> length (encoder_Encode upp)"
  by (cases upp) (simp_all add: encoder_Encode_def writeContainerLen_List_def EncodeUint_def)

lemma Protocol_sign_body:
  assumes "encoder_Encode upp = body @ [last_byte]"
  shows "Protocol_sign p upp =
     (case Crypto_Sign (Crypto p) (GetUuid upp) body of
        Inl err \<Rightarrow> (Inl err, p)
      | Inr signature \<Rightarrow>
          if length signature \<noteq> 64
          then (Inl (Errorf ''generated signature has invalid length'' []), p)
          else if GetVersion upp = Chained then
            (case Signatures p of
               None \<Rightarrow> (Inl (Panic ''assignment to entry in nil map''), p)
             | Some entries \<Rightarrow>
                 (Inr (body @ [0xC4, 0x40] @ signature),
                  p\<lparr>Signatures := Some (entries(GetUuid upp \<mapsto> signature))\<rparr>))
          else (Inr (body @ [0xC4, 0x40] @ signature), p))"
proof -
  have cut: "go_slice_to (body @ [last_byte]) (int (length (body @ [last_byte])) - 1) = Inr body"
    by (simp add: go_slice_to_def)
  have nonempty: "body \<noteq> []"
    using encoder_Encode_length [of upp] assms by auto
  show ?thesis
  proof (cases "Crypto_Sign (Crypto p) (GetUuid upp) body")
    case (Inl err)
    then show ?thesis
      using assms cut by (simp add: Protocol_sign_def Encode_def)
  next
    case (Inr signature)
    show ?thesis
    proof (cases "length signature = 64")
      case True
      then show ?thesis
        using assms cut Inr nonempty
        by (simp add: Protocol_sign_def Encode_def nistp256SignatureLength_def appendSignature_def
            map_assign_def split: option.split)
    next
      case False
      then show ?thesis
        using assms cut Inr
        by (simp add: Protocol_sign_def Encode_def nistp256SignatureLength_def)
    qed
  qed
qed

text \<open>
  C2. For a packet whose signature field is the nil slice, \<^verbatim>\<open>Protocol.sign\<close> encodes
  the packet; the encoding ends with the one byte \<open>0xC0\<close> that the codec writes for the
  nil signature. The bytes before it are handed to the Signer capability under the
  packet's identity. When the signer fails the call fails with its error; when the
  signature is not 64 bytes long the call fails; in both cases the protocol state is
  as before. Otherwise, when the version of the packet is Chained and the map
  \<^verbatim>\<open>Signatures\<close> is nil, the store of the signature panics; in every other case the
  call returns those bytes, then \<open>0xC4 0x40\<close>, then the 64 bytes of the signature.
\<close>

theorem sign_strips_nil_marker_and_appends_signature:
  assumes "GetSignature upp = None"
  shows "\<exists>body. Encode upp = Inr (body @ EncodeStringBytesRaw (GetSignature upp))
           \<and> EncodeStringBytesRaw (GetSignature upp) = [0xC0]
           \<and> (case Crypto_Sign (Crypto p) (GetUuid upp) body of
                 Inl err \<Rightarrow> Protocol_sign p upp = (Inl err, p)
               | Inr signature \<Rightarrow>
                   if length signature \<noteq> 64
                   then Protocol_sign p upp
                        = (Inl (Errorf ''generated signature has invalid length'' []), p)
                   else if GetVersion upp = Chained \<and> Signatures p = None
                   then Protocol_sign p upp = (Inl (Panic ''assignment to entry in nil map''), p)
                   else fst (Protocol_sign p upp) = Inr (body @ [0xC4, 0x40] @ signature))"
proof -
  obtain body where body: "encoder_Encode upp = body @ [0xC0]"
    using encoder_Encode_nil_signature [OF assms] by blast
  have "case Crypto_Sign (Crypto p) (GetUuid upp) body of
          Inl err \<Rightarrow> Protocol_sign p upp = (Inl err, p)
        | Inr signature \<Rightarrow>
            if length signature \<noteq> 64
            then Protocol_sign p upp
                 = (Inl (Errorf ''generated signature has invalid length'' []), p)
            else if GetVersion upp = Chained \<and> Signatures p = None
            then Protocol_sign p upp = (Inl (Panic ''assignment to entry in nil map''), p)
            else fst (Protocol_sign p upp) = Inr (body @ [0xC4, 0x40] @ signature)"
    by (auto simp: Protocol_sign_body [OF body] split: sum.split option.split)
  then show ?thesis
    using body assms by (auto simp: Encode_def EncodeStringBytesRaw_def)
qed

text \<open>The theorem at a Signed packet with the signer of 64 bytes, on the initialised
  and on the nil map, and at a Chained packet with the signer that returns 63 bytes.\<close>

theorem sign_strips_nil_marker_and_appends_signature_witness:
  "(\<exists>body. Encode (SignedUPP Signed (replicate 16 1) Binary (Some (replicate 32 2)) None)
             = Inr (body @ [0xC0])
      \<and> fst (Protocol_sign protocol0 (SignedUPP Signed (replicate 16 1) Binary (Some (replicate 32 2)) None))
          = Inr (body @ [0xC4, 0x40] @ replicate 64 7)
      \<and> fst (Protocol_sign protocol_nil (SignedUPP Signed (replicate 16 1) Binary (Some (replicate 32 2)) None))
          = Inr (body @ [0xC4, 0x40] @ replicate 64 7))
   \<and> Protocol_sign (protocol0 \<lparr> Crypto := crypto1 \<rparr>)
        (ChainedUPP Chained (replicate 16 1) (Some (replicate 64 0)) Binary (Some (replicate 32 2)) None)
      = (Inl (Errorf ''generated signature has invalid length'' []), protocol0 \<lparr> Crypto := crypto1 \<rparr>)"
  using sign_strips_nil_marker_and_appends_signature
      [of "SignedUPP Signed (replicate 16 1) Binary (Some (replicate 32 2)) None" protocol0]
    sign_strips_nil_marker_and_appends_signature
      [of "SignedUPP Signed (replicate 16 1) Binary (Some (replicate 32 2)) None" protocol_nil]
    sign_strips_nil_marker_and_appends_signature
      [of "ChainedUPP Chained (replicate 16 1) (Some (replicate 64 0)) Binary (Some (replicate 32 2)) None"
          "protocol0 \<lparr> Crypto := crypto1 \<rparr>"]
  by (auto simp: protocol0_def protocol_nil_def crypto0_def crypto1_def Signed_def Chained_def)

text \<open>
  On the zero value of the map the signer returns its 64 bytes for a Chained packet
  and the call panics: it returns nothing. So does \<^verbatim>\<open>SignHashExtended\<close> for the version
  Chained, which reads the nil map as a chain state without entry.
\<close>

theorem sign_panics_on_the_nil_map:
  "Crypto_Sign (Crypto protocol_nil) (replicate 16 1)
      (butlast (encoder_Encode
         (ChainedUPP Chained (replicate 16 1) (Some (replicate 64 0)) Binary (Some (replicate 32 2)) None)))
     = Inr (replicate 64 7)
   \<and> fst (Protocol_sign protocol_nil
        (ChainedUPP Chained (replicate 16 1) (Some (replicate 64 0)) Binary (Some (replicate 32 2)) None))
     = Inl (Panic ''assignment to entry in nil map'')
   \<and> fst (Protocol_SignHashExtended protocol_nil ''dev'' (replicate 32 2) Chained Binary)
     = Inl (Panic ''assignment to entry in nil map'')"
  by code_simp

section \<open>Protocol.SignHashExtended and the chain state\<close>

lemma SignHashExtended_bad_hash:
  "length hash \<noteq> 32 \<Longrightarrow>
     Protocol_SignHashExtended p name hash protocol hint =
       (Inl (Errorf ''invalid hash size, expected %v, got %v bytes''
               [ArgInt 32, ArgInt (int (length hash))]), p)"
  by (simp add: Protocol_SignHashExtended_def expectedHashSize_def)

lemma SignHashExtended_unresolved:
  "length hash = 32 \<Longrightarrow> Crypto_GetUUID (Crypto p) name = Inl err \<Longrightarrow>
     Protocol_SignHashExtended p name hash protocol hint = (Inl err, p)"
  by (simp add: Protocol_SignHashExtended_def expectedHashSize_def)

lemma SignHashExtended_bad_version:
  "length hash = 32 \<Longrightarrow> Crypto_GetUUID (Crypto p) name = Inr uid \<Longrightarrow>
   protocol \<noteq> Signed \<Longrightarrow> protocol \<noteq> Chained \<Longrightarrow>
     Protocol_SignHashExtended p name hash protocol hint =
       (Inl (Errorf ''invalid protocol version: 0x%02x'' [ArgInt (uint protocol)]), p)"
  by (simp add: Protocol_SignHashExtended_def expectedHashSize_def)

lemma SignHashExtended_Signed:
  "length hash = 32 \<Longrightarrow> Crypto_GetUUID (Crypto p) name = Inr uid \<Longrightarrow>
     Protocol_SignHashExtended p name hash Signed hint =
       Protocol_sign p (SignedUPP Signed uid hint (Some hash) None)"
  by (simp add: Protocol_SignHashExtended_def expectedHashSize_def)

lemma SignHashExtended_Chained_genesis:
  "length hash = 32 \<Longrightarrow> Crypto_GetUUID (Crypto p) name = Inr uid \<Longrightarrow>
   map_index (Signatures p) uid = None \<Longrightarrow>
     Protocol_SignHashExtended p name hash Chained hint =
       Protocol_sign p (ChainedUPP Chained uid (Some (replicate 64 0)) hint (Some hash) None)"
  by (simp add: Protocol_SignHashExtended_def expectedHashSize_def nistp256SignatureLength_def
      Signed_def Chained_def)

lemma SignHashExtended_Chained_bad_entry:
  "length hash = 32 \<Longrightarrow> Crypto_GetUUID (Crypto p) name = Inr uid \<Longrightarrow>
   map_index (Signatures p) uid = Some prevSignature \<Longrightarrow> length prevSignature \<noteq> 64 \<Longrightarrow>
     Protocol_SignHashExtended p name hash Chained hint =
       (Inl (Errorf ''invalid last signature, can't create chained UPP'' []), p)"
  by (simp add: Protocol_SignHashExtended_def expectedHashSize_def nistp256SignatureLength_def
      Signed_def Chained_def)

lemma SignHashExtended_Chained_linked:
  "length hash = 32 \<Longrightarrow> Crypto_GetUUID (Crypto p) name = Inr uid \<Longrightarrow>
   map_index (Signatures p) uid = Some prevSignature \<Longrightarrow> length prevSignature = 64 \<Longrightarrow>
     Protocol_SignHashExtended p name hash Chained hint =
       Protocol_sign p (ChainedUPP Chained uid (Some prevSignature) hint (Some hash) None)"
  by (simp add: Protocol_SignHashExtended_def expectedHashSize_def nistp256SignatureLength_def
      Signed_def Chained_def)

text \<open>What a successful sign of a packet with nil signature returns and stores.\<close>

lemma Protocol_sign_Inr:
  assumes "GetSignature upp = None" and "Protocol_sign p upp = (Inr out, p')"
  shows "\<exists>body signature.
           encoder_Encode upp = body @ [0xC0]
         \<and> Crypto_Sign (Crypto p) (GetUuid upp) body = Inr signature
         \<and> length signature = 64
         \<and> out = body @ [0xC4, 0x40] @ signature
         \<and> (if GetVersion upp = Chained
              then \<exists>entries. Signatures p = Some entries
                     \<and> p' = p\<lparr>Signatures := Some (entries(GetUuid upp \<mapsto> signature))\<rparr>
              else p' = p)"
proof -
  obtain body where body: "encoder_Encode upp = body @ [0xC0]"
    using encoder_Encode_nil_signature [OF assms(1)] by blast
  show ?thesis
    using assms(2) body
    by (auto simp: Protocol_sign_body [OF body] split: sum.splits if_splits option.splits)
qed

lemma Protocol_sign_Inl:
  assumes "Protocol_sign p upp = (Inl err, p')"
  shows "p' = p"
  using assms
  by (auto simp: Protocol_sign_def split: sum.splits if_splits option.splits)

lemma Protocol_sign_Crypto:
  assumes "Protocol_sign p upp = (r, p')"
  shows "Crypto p' = Crypto p"
  using assms
  by (auto simp: Protocol_sign_def split: sum.splits if_splits option.splits)

lemma signed_body_is_encoding_Signed:
  assumes "encoder_Encode (SignedUPP version uid hint payload None) = body @ [0xC0]"
    and "length signature = 64"
  shows "body @ [0xC4, 0x40] @ signature
         = encoder_Encode (SignedUPP version uid hint payload (Some signature))"
  using assms
  by (simp add: encoder_Encode_def EncodeStringBytesRaw_def writeContainerLen_Bin_def)

lemma signed_body_is_encoding_Chained:
  assumes "encoder_Encode (ChainedUPP version uid prevSignature hint payload None) = body @ [0xC0]"
    and "length signature = 64"
  shows "body @ [0xC4, 0x40] @ signature
         = encoder_Encode (ChainedUPP version uid prevSignature hint payload (Some signature))"
  using assms
  by (simp add: encoder_Encode_def EncodeStringBytesRaw_def writeContainerLen_Bin_def)

text \<open>A successful chained call: the packet it returns and the entry it stores.\<close>

lemma SignHashExtended_Chained_Inr:
  assumes ok: "Protocol_SignHashExtended p name hash Chained hint = (Inr out, p')"
    and uid: "Crypto_GetUUID (Crypto p) name = Inr uid"
  shows "\<exists>prevSignature signature.
           prevSignature = (case map_index (Signatures p) uid of None \<Rightarrow> replicate 64 0 | Some s \<Rightarrow> s)
         \<and> length prevSignature = 64 \<and> length signature = 64 \<and> length hash = 32
         \<and> out = encoder_Encode (ChainedUPP Chained uid (Some prevSignature) hint (Some hash) (Some signature))
         \<and> out = butlast (encoder_Encode (ChainedUPP Chained uid (Some prevSignature) hint (Some hash) None))
                 @ [0xC4, 0x40] @ signature
         \<and> Crypto_Sign (Crypto p) uid
               (butlast (encoder_Encode (ChainedUPP Chained uid (Some prevSignature) hint (Some hash) None)))
             = Inr signature
         \<and> (\<exists>entries. Signatures p = Some entries
               \<and> p' = p\<lparr>Signatures := Some (entries(uid \<mapsto> signature))\<rparr>)"
proof -
  have hash: "length hash = 32"
    using ok SignHashExtended_bad_hash [of hash p name Chained hint] by auto
  define prevSignature where
    "prevSignature = (case map_index (Signatures p) uid of None \<Rightarrow> replicate 64 (0::byte) | Some s \<Rightarrow> s)"
  have len_prev: "length prevSignature = 64"
  proof (cases "map_index (Signatures p) uid")
    case None
    then show ?thesis by (simp add: prevSignature_def)
  next
    case (Some s)
    then show ?thesis
      using ok SignHashExtended_Chained_bad_entry [OF hash uid Some, of hint]
      by (cases "length s = 64") (auto simp: prevSignature_def)
  qed
  let ?upp = "ChainedUPP Chained uid (Some prevSignature) hint (Some hash) None"
  have call: "Protocol_SignHashExtended p name hash Chained hint = Protocol_sign p ?upp"
  proof (cases "map_index (Signatures p) uid")
    case None
    then show ?thesis
      using SignHashExtended_Chained_genesis [OF hash uid None] by (simp add: prevSignature_def)
  next
    case (Some s)
    then show ?thesis
      using SignHashExtended_Chained_linked [OF hash uid Some] len_prev
      by (simp add: prevSignature_def)
  qed
  then have "Protocol_sign p ?upp = (Inr out, p')" using ok by simp
  then obtain body signature where s:
      "encoder_Encode ?upp = body @ [0xC0]"
      "length signature = 64"
      "out = body @ [0xC4, 0x40] @ signature"
      "\<exists>entries. Signatures p = Some entries
         \<and> p' = p\<lparr>Signatures := Some (entries(uid \<mapsto> signature))\<rparr>"
      "Crypto_Sign (Crypto p) uid body = Inr signature"
    using Protocol_sign_Inr [of ?upp p out p'] by auto
  have "out = encoder_Encode (ChainedUPP Chained uid (Some prevSignature) hint (Some hash) (Some signature))"
    using signed_body_is_encoding_Chained [OF s(1) s(2)] s(3) by simp
  moreover have "body = butlast (encoder_Encode ?upp)"
    using s(1) by simp
  ultimately show ?thesis
    using len_prev s(2,3,4,5) hash prevSignature_def by blast
qed

lemma SignHashExtended_frame:
  assumes "Protocol_SignHashExtended p name hash protocol hint = (r, p')"
  shows "Crypto p' = Crypto p \<and> (isl r \<longrightarrow> p' = p) \<and> (protocol \<noteq> Chained \<longrightarrow> p' = p)"
proof (cases "length hash = 32")
  case False
  then show ?thesis using assms SignHashExtended_bad_hash [OF False, of p name protocol hint] by auto
next
  case hash: True
  show ?thesis
  proof (cases "Crypto_GetUUID (Crypto p) name")
    case (Inl err)
    then show ?thesis using assms SignHashExtended_unresolved [OF hash Inl, of protocol hint] by auto
  next
    case (Inr uid)
    have sign_frame: "Crypto p' = Crypto p \<and> (isl r \<longrightarrow> p' = p) \<and> (GetVersion upp \<noteq> Chained \<longrightarrow> p' = p)"
      if "Protocol_sign p upp = (r, p')" for upp
      using that Protocol_sign_Crypto [OF that] Protocol_sign_Inl [of p upp _ p']
      by (auto simp: isl_def Protocol_sign_def split: sum.splits if_splits option.splits)
    consider "protocol = Signed" | "protocol = Chained"
      | "protocol \<noteq> Signed" "protocol \<noteq> Chained" by blast
    then show ?thesis
    proof cases
      case 1
      then show ?thesis
        using assms SignHashExtended_Signed [OF hash Inr, of hint]
          sign_frame [of "SignedUPP Signed uid hint (Some hash) None"]
        by (simp add: Signed_def Chained_def)
    next
      case 2
      show ?thesis
      proof (cases "map_index (Signatures p) uid")
        case None
        then show ?thesis
          using assms 2 SignHashExtended_Chained_genesis [OF hash Inr None, of hint]
            sign_frame [of "ChainedUPP Chained uid (Some (replicate 64 0)) hint (Some hash) None"]
          by simp
      next
        case (Some s)
        show ?thesis
        proof (cases "length s = 64")
          case True
          then show ?thesis
            using assms 2 SignHashExtended_Chained_linked [OF hash Inr Some True, of hint]
              sign_frame [of "ChainedUPP Chained uid (Some s) hint (Some hash) None"]
            by simp
        next
          case False
          then show ?thesis
            using assms 2 SignHashExtended_Chained_bad_entry [OF hash Inr Some False, of hint]
            by auto
        qed
      qed
    next
      case 3
      then show ?thesis
        using assms SignHashExtended_bad_version [OF hash Inr 3, of hint] by auto
    qed
  qed
qed

text \<open>
  C3. \<^verbatim>\<open>SignHashExtended(name, hash, version, hint)\<close>. A hash of a length other than
  32 fails, and so does a version other than Signed and Chained. With a 32-byte hash
  and a name that resolves to an identity: for Chained with no entry in the chain
  state, the packet that is built and signed has 64 zero bytes as previous signature;
  an entry whose length is not 64 fails the call. A successful Chained call returns
  the encoding of the Chained packet with the stored entry (or the zero bytes) as
  previous signature and the new signature, and stores that signature for the
  identity. The next successful Chained call for the identity, from any protocol state
  that still holds that entry, returns a packet whose previous signature is the
  signature of the packet before; both outputs decode, and \<^verbatim>\<open>CheckChainLink\<close> accepts
  the pair.
\<close>

theorem SignHashExtended_chain_links:
  "(length hash \<noteq> 32 \<longrightarrow> isl (fst (Protocol_SignHashExtended p name hash protocol hint)))
   \<and> (protocol \<noteq> Signed \<and> protocol \<noteq> Chained \<longrightarrow>
        isl (fst (Protocol_SignHashExtended p name hash protocol hint)))
   \<and> (length hash = 32 \<and> Crypto_GetUUID (Crypto p) name = Inr uid \<longrightarrow>
        (map_index (Signatures p) uid = None \<longrightarrow>
           Protocol_SignHashExtended p name hash Chained hint =
             Protocol_sign p (ChainedUPP Chained uid (Some (replicate 64 0)) hint (Some hash) None))
      \<and> (\<forall>prevSignature. map_index (Signatures p) uid = Some prevSignature \<and> length prevSignature \<noteq> 64 \<longrightarrow>
             isl (fst (Protocol_SignHashExtended p name hash Chained hint)))
      \<and> (\<forall>out1 p1. Protocol_SignHashExtended p name hash Chained hint = (Inr out1, p1) \<longrightarrow>
           (\<exists>signature1. length signature1 = 64
              \<and> out1 = encoder_Encode
                         (ChainedUPP Chained uid
                            (Some (case map_index (Signatures p) uid of None \<Rightarrow> replicate 64 0 | Some s \<Rightarrow> s))
                            hint (Some hash) (Some signature1))
              \<and> map_index (Signatures p1) uid = Some signature1
              \<and> (\<forall>q name2 hash2 hint2 out2 p2.
                    map_index (Signatures q) uid = map_index (Signatures p1) uid
                    \<and> Crypto_GetUUID (Crypto q) name2 = Inr uid
                    \<and> Protocol_SignHashExtended q name2 hash2 Chained hint2 = (Inr out2, p2) \<longrightarrow>
                    (\<exists>signature2.
                       out2 = encoder_Encode
                                (ChainedUPP Chained uid (Some signature1) hint2 (Some hash2)
                                   (Some signature2))
                     \<and> (length uid = 16 \<longrightarrow>
                          Decode out2 = Inr (ChainedUPP Chained uid (Some signature1) hint2
                                               (Some hash2) (Some signature2))
                        \<and> (\<exists>upp1 upp2. Decode out1 = Inr upp1 \<and> Decode out2 = Inr upp2
                              \<and> GetSignature upp1 = GetPrevSignature upp2
                              \<and> CheckChainLink upp1 upp2 = (True, None))))))))"
proof -
  have bad_hash: "isl (fst (Protocol_SignHashExtended p name hash protocol hint))"
    if "length hash \<noteq> 32"
    using SignHashExtended_bad_hash [OF that] by simp
  have bad_version: "isl (fst (Protocol_SignHashExtended p name hash protocol hint))"
    if v: "protocol \<noteq> Signed" "protocol \<noteq> Chained"
  proof (cases "length hash = 32")
    case False
    then show ?thesis using bad_hash by simp
  next
    case True
    then show ?thesis
      using SignHashExtended_unresolved [OF True, of p name _ protocol hint]
        SignHashExtended_bad_version [OF True _ v, of p name _ hint]
      by (cases "Crypto_GetUUID (Crypto p) name") simp_all
  qed
  have bad_entry: "isl (fst (Protocol_SignHashExtended p name hash Chained hint))"
    if "length hash = 32" "Crypto_GetUUID (Crypto p) name = Inr uid"
       "map_index (Signatures p) uid = Some prevSignature" "length prevSignature \<noteq> 64" for prevSignature
    using SignHashExtended_Chained_bad_entry [OF that] by simp
  have chain:
    "\<exists>signature1. length signature1 = 64
        \<and> out1 = encoder_Encode
                   (ChainedUPP Chained uid
                      (Some (case map_index (Signatures p) uid of None \<Rightarrow> replicate 64 0 | Some s \<Rightarrow> s))
                      hint (Some hash) (Some signature1))
        \<and> map_index (Signatures p1) uid = Some signature1
        \<and> (\<forall>q name2 hash2 hint2 out2 p2.
              map_index (Signatures q) uid = map_index (Signatures p1) uid
              \<and> Crypto_GetUUID (Crypto q) name2 = Inr uid
              \<and> Protocol_SignHashExtended q name2 hash2 Chained hint2 = (Inr out2, p2) \<longrightarrow>
              (\<exists>signature2.
                 out2 = encoder_Encode
                          (ChainedUPP Chained uid (Some signature1) hint2 (Some hash2)
                             (Some signature2))
               \<and> (length uid = 16 \<longrightarrow>
                    Decode out2 = Inr (ChainedUPP Chained uid (Some signature1) hint2
                                         (Some hash2) (Some signature2))
                  \<and> (\<exists>upp1 upp2. Decode out1 = Inr upp1 \<and> Decode out2 = Inr upp2
                        \<and> GetSignature upp1 = GetPrevSignature upp2
                        \<and> CheckChainLink upp1 upp2 = (True, None)))))"
    if uid: "Crypto_GetUUID (Crypto p) name = Inr uid"
      and first: "Protocol_SignHashExtended p name hash Chained hint = (Inr out1, p1)" for out1 p1
  proof -
    define prev1 where "prev1 = (case map_index (Signatures p) uid of None \<Rightarrow> replicate 64 (0::byte) | Some s \<Rightarrow> s)"
    obtain signature1 where one:
        "length prev1 = 64" "length signature1 = 64" "length hash = 32"
        "out1 = encoder_Encode (ChainedUPP Chained uid (Some prev1) hint (Some hash) (Some signature1))"
        "\<exists>entries. Signatures p = Some entries
           \<and> p1 = p\<lparr>Signatures := Some (entries(uid \<mapsto> signature1))\<rparr>"
      using SignHashExtended_Chained_Inr [OF first uid] unfolding prev1_def by blast
    have stored: "map_index (Signatures p1) uid = Some signature1"
      using one(5) by (auto simp: map_index_def)
    have second:
      "\<exists>signature2.
          out2 = encoder_Encode (ChainedUPP Chained uid (Some signature1) hint2 (Some hash2) (Some signature2))
        \<and> (length uid = 16 \<longrightarrow>
             Decode out2 = Inr (ChainedUPP Chained uid (Some signature1) hint2 (Some hash2) (Some signature2))
           \<and> (\<exists>upp1 upp2. Decode out1 = Inr upp1 \<and> Decode out2 = Inr upp2
                 \<and> GetSignature upp1 = GetPrevSignature upp2
                 \<and> CheckChainLink upp1 upp2 = (True, None)))"
      if q: "map_index (Signatures q) uid = map_index (Signatures p1) uid" "Crypto_GetUUID (Crypto q) name2 = Inr uid"
        "Protocol_SignHashExtended q name2 hash2 Chained hint2 = (Inr out2, p2)"
      for q name2 hash2 hint2 out2 p2
    proof -
      obtain signature2 where two:
          "length signature2 = 64" "length hash2 = 32"
          "out2 = encoder_Encode (ChainedUPP Chained uid (Some signature1) hint2 (Some hash2) (Some signature2))"
        using SignHashExtended_Chained_Inr [OF q(3) q(2)] q(1) stored by auto
      have dec: "Decode out1 = Inr (ChainedUPP Chained uid (Some prev1) hint (Some hash) (Some signature1))"
           "Decode out2 = Inr (ChainedUPP Chained uid (Some signature1) hint2 (Some hash2) (Some signature2))"
        if "length uid = 16"
        using that one two
        by (simp_all add: Decode_encoder_Encode_ChainedUPP len_def)
      have link: "CheckChainLink (ChainedUPP Chained uid (Some prev1) hint (Some hash) (Some signature1))
                    (ChainedUPP Chained uid (Some signature1) hint2 (Some hash2) (Some signature2))
                  = (True, None)"
        using one(2) by (simp add: CheckChainLink_def len_def)
      show ?thesis
        using two(3) dec link by auto
    qed
    show ?thesis
      using one(2,4) stored second unfolding prev1_def by blast
  qed
  show ?thesis
    using bad_hash bad_version bad_entry chain SignHashExtended_Chained_genesis [of hash p name uid hint]
    by blast
qed

text \<open>The theorem at two Chained calls in a row for the device \<open>dev\<close>, starting from
  the empty chain state, at a hash of 31 bytes and at the version \<open>0x24\<close>.\<close>

theorem SignHashExtended_chain_links_witness:
  "\<exists>out1 p1 out2 p2 signature1 signature2.
      Protocol_SignHashExtended protocol0 ''dev'' (replicate 32 2) Chained Binary = (Inr out1, p1)
    \<and> Protocol_SignHashExtended p1 ''dev'' (replicate 32 3) Chained Binary = (Inr out2, p2)
    \<and> out1 = encoder_Encode (ChainedUPP Chained (replicate 16 1) (Some (replicate 64 0)) Binary
                 (Some (replicate 32 2)) (Some signature1))
    \<and> Decode out2 = Inr (ChainedUPP Chained (replicate 16 1) (Some signature1) Binary
                           (Some (replicate 32 3)) (Some signature2))
    \<and> isl (fst (Protocol_SignHashExtended protocol0 ''dev'' (replicate 31 2) Chained Binary))
    \<and> isl (fst (Protocol_SignHashExtended protocol0 ''dev'' (replicate 32 2) 0x24 Binary))"
proof -
  let ?uid = "replicate 16 (1::byte)"
  let ?first = "Protocol_SignHashExtended protocol0 ''dev'' (replicate 32 2) Chained Binary"
  let ?second = "Protocol_SignHashExtended (snd ?first) ''dev'' (replicate 32 3) Chained Binary"
  obtain out1 where first: "?first = (Inr out1, snd ?first)"
  proof -
    have "\<not> isl (fst ?first)" by code_simp
    then show ?thesis using that by (cases "fst ?first") (auto simp: prod_eq_iff)
  qed
  obtain out2 where second: "?second = (Inr out2, snd ?second)"
  proof -
    have "\<not> isl (fst ?second)" by code_simp
    then show ?thesis using that by (cases "fst ?second") (auto simp: prod_eq_iff)
  qed
  have hash: "length (replicate 32 (2::byte)) = 32" by simp
  have uid: "Crypto_GetUUID (Crypto protocol0) ''dev'' = Inr ?uid"
    by (simp add: protocol0_def crypto0_def)
  have uid2: "Crypto_GetUUID (Crypto (snd ?first)) ''dev'' = Inr ?uid"
    by code_simp
  have fresh: "map_index (Signatures protocol0) ?uid = None"
    by (simp add: protocol0_def map_index_def)
  have len_uid: "length ?uid = 16" by simp
  have "\<exists>signature1. length signature1 = 64
      \<and> out1 = encoder_Encode
                 (ChainedUPP Chained ?uid
                    (Some (case map_index (Signatures protocol0) ?uid of None \<Rightarrow> replicate 64 0 | Some s \<Rightarrow> s))
                    Binary (Some (replicate 32 2)) (Some signature1))
      \<and> map_index (Signatures (snd ?first)) ?uid = Some signature1
      \<and> (\<forall>q name2 hash2 hint2 out2 p2.
            map_index (Signatures q) ?uid = map_index (Signatures (snd ?first)) ?uid
            \<and> Crypto_GetUUID (Crypto q) name2 = Inr ?uid
            \<and> Protocol_SignHashExtended q name2 hash2 Chained hint2 = (Inr out2, p2) \<longrightarrow>
            (\<exists>signature2.
               out2 = encoder_Encode (ChainedUPP Chained ?uid (Some signature1) hint2 (Some hash2)
                         (Some signature2))
             \<and> (length ?uid = 16 \<longrightarrow>
                  Decode out2 = Inr (ChainedUPP Chained ?uid (Some signature1) hint2
                                       (Some hash2) (Some signature2))
                \<and> (\<exists>upp1 upp2. Decode out1 = Inr upp1 \<and> Decode out2 = Inr upp2
                      \<and> GetSignature upp1 = GetPrevSignature upp2
                      \<and> CheckChainLink upp1 upp2 = (True, None)))))"
    using SignHashExtended_chain_links [of "replicate 32 2" protocol0 "''dev''" Chained Binary ?uid]
      hash uid first
    by blast
  then obtain signature1 where s:
    "out1 = encoder_Encode
                 (ChainedUPP Chained ?uid
                    (Some (case map_index (Signatures protocol0) ?uid of None \<Rightarrow> replicate 64 0 | Some s \<Rightarrow> s))
                    Binary (Some (replicate 32 2)) (Some signature1))"
    "\<forall>q name2 hash2 hint2 out2 p2.
        map_index (Signatures q) ?uid = map_index (Signatures (snd ?first)) ?uid
        \<and> Crypto_GetUUID (Crypto q) name2 = Inr ?uid
        \<and> Protocol_SignHashExtended q name2 hash2 Chained hint2 = (Inr out2, p2) \<longrightarrow>
        (\<exists>signature2.
           out2 = encoder_Encode (ChainedUPP Chained ?uid (Some signature1) hint2 (Some hash2)
                     (Some signature2))
         \<and> (length ?uid = 16 \<longrightarrow>
              Decode out2 = Inr (ChainedUPP Chained ?uid (Some signature1) hint2
                                   (Some hash2) (Some signature2))
            \<and> (\<exists>upp1 upp2. Decode out1 = Inr upp1 \<and> Decode out2 = Inr upp2
                  \<and> GetSignature upp1 = GetPrevSignature upp2
                  \<and> CheckChainLink upp1 upp2 = (True, None))))"
    by blast
  have genesis: "out1 = encoder_Encode (ChainedUPP Chained ?uid (Some (replicate 64 0)) Binary
               (Some (replicate 32 2)) (Some signature1))"
    using s(1) fresh by simp
  from s(2) [rule_format, of "snd ?first" "''dev''" "replicate 32 3" Binary out2 "snd ?second"]
    uid2 second len_uid
  obtain signature2 where t:
    "Decode out2 = Inr (ChainedUPP Chained ?uid (Some signature1) Binary
                          (Some (replicate 32 3)) (Some signature2))"
    by blast
  from SignHashExtended_chain_links [of "replicate 31 2" protocol0 "''dev''" Chained Binary ?uid]
  have short: "isl (fst (Protocol_SignHashExtended protocol0 ''dev'' (replicate 31 2) Chained Binary))"
    by simp
  from SignHashExtended_chain_links [of "replicate 32 2" protocol0 "''dev''" "0x24" Binary ?uid]
  have version: "isl (fst (Protocol_SignHashExtended protocol0 ''dev'' (replicate 32 2) 0x24 Binary))"
    by (simp add: Signed_def Chained_def)
  show ?thesis
    using first second genesis t short version by blast
qed

text \<open>
  C9. A call of \<^verbatim>\<open>SignHashExtended\<close> never changes the backend, and a call that
  returns an error leaves the protocol state as it was. The chain state changes only
  when the version is Chained, the name resolves, the signer returns a signature of
  64 bytes for the encoding of the Chained packet without its nil marker, and the
  call returns the assembled packet; then the map was not nil, and the new chain state
  is the old one with that signature stored under the packet's identity, and every
  other entry is unchanged.
\<close>

theorem SignHashExtended_chain_state_frame:
  assumes "Protocol_SignHashExtended p name hash protocol hint = (r, p')"
  shows "Crypto p' = Crypto p
       \<and> (isl r \<longrightarrow> p' = p)
       \<and> (Signatures p' \<noteq> Signatures p \<longrightarrow>
            protocol = Chained
          \<and> (\<exists>uid prevSignature signature out.
                Crypto_GetUUID (Crypto p) name = Inr uid
              \<and> Crypto_Sign (Crypto p) uid
                   (butlast (encoder_Encode
                      (ChainedUPP Chained uid (Some prevSignature) hint (Some hash) None)))
                  = Inr signature
              \<and> length signature = 64
              \<and> r = Inr out
              \<and> out = butlast (encoder_Encode
                          (ChainedUPP Chained uid (Some prevSignature) hint (Some hash) None))
                       @ [0xC4, 0x40] @ signature
              \<and> (\<exists>entries. Signatures p = Some entries
                     \<and> Signatures p' = Some (entries(uid \<mapsto> signature)))
              \<and> (\<forall>other. other \<noteq> uid \<longrightarrow>
                     map_index (Signatures p') other = map_index (Signatures p) other)))"
proof -
  have frame: "Crypto p' = Crypto p" "isl r \<longrightarrow> p' = p" "protocol \<noteq> Chained \<longrightarrow> p' = p"
    using SignHashExtended_frame [OF assms] by simp_all
  have written: "protocol = Chained
          \<and> (\<exists>uid prevSignature signature out.
                Crypto_GetUUID (Crypto p) name = Inr uid
              \<and> Crypto_Sign (Crypto p) uid
                   (butlast (encoder_Encode
                      (ChainedUPP Chained uid (Some prevSignature) hint (Some hash) None)))
                  = Inr signature
              \<and> length signature = 64
              \<and> r = Inr out
              \<and> out = butlast (encoder_Encode
                          (ChainedUPP Chained uid (Some prevSignature) hint (Some hash) None))
                       @ [0xC4, 0x40] @ signature
              \<and> (\<exists>entries. Signatures p = Some entries
                     \<and> Signatures p' = Some (entries(uid \<mapsto> signature)))
              \<and> (\<forall>other. other \<noteq> uid \<longrightarrow>
                     map_index (Signatures p') other = map_index (Signatures p) other))"
    if changed: "Signatures p' \<noteq> Signatures p"
  proof -
    have chained: "protocol = Chained" using frame(3) changed by auto
    have "\<not> isl r" using frame(2) changed by auto
    then obtain out where out: "r = Inr out" by (cases r) auto
    have hash: "length hash = 32"
      using assms changed SignHashExtended_bad_hash [of hash p name protocol hint] by auto
    obtain uid where uid: "Crypto_GetUUID (Crypto p) name = Inr uid"
      using assms out SignHashExtended_unresolved [OF hash, of p name _ protocol hint]
      by (cases "Crypto_GetUUID (Crypto p) name") auto
    have call: "Protocol_SignHashExtended p name hash Chained hint = (Inr out, p')"
      using assms chained out by simp
    obtain prevSignature signature where s:
        "length signature = 64"
        "out = butlast (encoder_Encode (ChainedUPP Chained uid (Some prevSignature) hint (Some hash) None))
                 @ [0xC4, 0x40] @ signature"
        "Crypto_Sign (Crypto p) uid
               (butlast (encoder_Encode (ChainedUPP Chained uid (Some prevSignature) hint (Some hash) None)))
             = Inr signature"
        "\<exists>entries. Signatures p = Some entries
           \<and> p' = p\<lparr>Signatures := Some (entries(uid \<mapsto> signature))\<rparr>"
      using SignHashExtended_Chained_Inr [OF call uid] by blast
    then obtain entries where e: "Signatures p = Some entries"
        "Signatures p' = Some (entries(uid \<mapsto> signature))"
      by auto
    have others: "\<forall>other. other \<noteq> uid \<longrightarrow>
        map_index (Signatures p') other = map_index (Signatures p) other"
      using e by (simp add: map_index_def)
    show ?thesis
      using chained uid out s(1,2,3) e others by blast
  qed
  show ?thesis using frame(1,2) written by blast
qed

text \<open>The theorem at a failing call (a hash of 31 bytes), at a successful Chained
  call from the empty chain state, and at a Chained call on the nil map.\<close>

theorem SignHashExtended_chain_state_frame_witness:
  "snd (Protocol_SignHashExtended protocol0 ''dev'' (replicate 31 2) Chained Binary) = protocol0
   \<and> Signatures (snd (Protocol_SignHashExtended protocol0 ''dev'' (replicate 32 2) Chained Binary))
       = Some (Map.empty(replicate 16 1 \<mapsto> replicate 64 7))
   \<and> snd (Protocol_SignHashExtended protocol_nil ''dev'' (replicate 32 2) Chained Binary)
       = protocol_nil"
proof -
  let ?bad = "Protocol_SignHashExtended protocol0 ''dev'' (replicate 31 2) Chained Binary"
  let ?good = "Protocol_SignHashExtended protocol0 ''dev'' (replicate 32 2) Chained Binary"
  let ?zero = "Protocol_SignHashExtended protocol_nil ''dev'' (replicate 32 2) Chained Binary"
  have "isl (fst ?bad)" by code_simp
  then have unchanged: "snd ?bad = protocol0"
    using SignHashExtended_chain_state_frame [of protocol0 "''dev''" "replicate 31 2" Chained Binary
        "fst ?bad" "snd ?bad"]
    by simp
  have "isl (fst ?zero)" by code_simp
  then have panicked: "snd ?zero = protocol_nil"
    using SignHashExtended_chain_state_frame [of protocol_nil "''dev''" "replicate 32 2" Chained Binary
        "fst ?zero" "snd ?zero"]
    by simp
  have "map_index (Signatures (snd ?good)) (replicate 16 1)
        \<noteq> map_index (Signatures protocol0) (replicate 16 1)"
    by code_simp
  then have "Signatures (snd ?good) \<noteq> Signatures protocol0" by metis
  then have written: "Signatures (snd ?good) = Some (Map.empty(replicate 16 1 \<mapsto> replicate 64 7))"
    using SignHashExtended_chain_state_frame [of protocol0 "''dev''" "replicate 32 2" Chained Binary
        "fst ?good" "snd ?good"]
    by (auto simp: protocol0_def crypto0_def)
  show ?thesis using unchanged written panicked by simp
qed

section \<open>pkcs11Retry\<close>

text \<open>
  The return codes of the three groups and \<^verbatim>\<open>CKR_OK\<close> and \<^verbatim>\<open>CKR_DEVICE_REMOVED\<close> are
  pairwise different, so the order of the cases of the \<^verbatim>\<open>switch\<close> decides nothing.
\<close>

lemma codes_distinct:
  "distinct (CKR_OK # retry_errors @ CKR_DEVICE_REMOVED # reestablish_session_errors @ unfixable_errors)"
  by code_simp

lemma wrapping_error [simp]: "\<not> is_Panic err \<Longrightarrow> wrapping err wrapped = wrapped"
  by (simp add: wrapping_def)

lemma pkcs11HandleGenericErrors_unfixable:
  assumes "rv \<in> set unfixable_errors"
  shows "pkcs11HandleGenericErrors E rv sleep = (Some (PKCS11 rv), E)"
proof -
  have "rv \<noteq> CKR_OK" "rv \<notin> set retry_errors" "rv \<noteq> CKR_DEVICE_REMOVED"
    "rv \<notin> set reestablish_session_errors"
    using codes_distinct assms by auto
  then show ?thesis
    using assms by (simp add: pkcs11HandleGenericErrors_def)
qed

lemma pkcs11HandleGenericErrors_retry:
  assumes "rv \<in> set retry_errors"
  shows "pkcs11HandleGenericErrors E rv sleep = (None, time_Sleep (sleep + jitter sleep) E)"
proof -
  have "rv \<noteq> CKR_OK"
    using codes_distinct assms by auto
  then show ?thesis
    using assms by (simp add: pkcs11HandleGenericErrors_def)
qed

lemma pkcs11Retry_loop_success:
  assumes "f E = (Inr v, E1)"
  shows "pkcs11Retry_loop maxRetries sleep f retries E = (Inr v, E1)"
  using assms by (subst pkcs11Retry_loop.simps) simp

lemma pkcs11Retry_loop_gave_up:
  assumes "f E = (Inl err, E1)" and "maxRetries \<le> retries"
  shows "pkcs11Retry_loop maxRetries sleep f retries E =
           (Inl (wrapping err
              (Errorf ''pkcs11Retry: gave up after %d retries, last error was: %s''
                 [ArgInt retries, ArgErr err])), E1)"
  using assms by (subst pkcs11Retry_loop.simps) simp

lemma pkcs11Retry_loop_not_pkcs11:
  assumes "f E = (Inl err, E1)" and "retries < maxRetries" and "\<forall>rv. err \<noteq> PKCS11 rv"
  shows "pkcs11Retry_loop maxRetries sleep f retries E =
           (Inl (wrapping err
              (Errorf ''pkcs11Retry used on non-pkcs11-context function (returned error type is not pkcs11.Error)''
                 [])), E1)"
  using assms by (subst pkcs11Retry_loop.simps) (simp split: go_error.split)

lemma pkcs11Retry_loop_handled:
  assumes "f E = (Inl (PKCS11 rv), E1)" and "retries < maxRetries"
  shows "pkcs11Retry_loop maxRetries sleep f retries E =
           (case pkcs11HandleGenericErrors E1 rv sleep of
              (Some err', E2) \<Rightarrow>
                (Inl (wrapping err' (Errorf ''pkcs11Retry: unfixable error: %s'' [ArgErr err'])), E2)
            | (None, E2) \<Rightarrow> pkcs11Retry_loop maxRetries sleep f (retries + 1) E2)"
  using assms by (subst pkcs11Retry_loop.simps) simp

lemma pkcs11Retry_loop_unfixable:
  assumes "f E = (Inl (PKCS11 rv), E1)" and "retries < maxRetries" and "rv \<in> set unfixable_errors"
  shows "pkcs11Retry_loop maxRetries sleep f retries E =
           (Inl (Errorf ''pkcs11Retry: unfixable error: %s'' [ArgErr (PKCS11 rv)]), E1)"
  using assms
  by (simp add: pkcs11Retry_loop_handled pkcs11HandleGenericErrors_unfixable)

lemma pkcs11Retry_loop_transient:
  assumes "f E = (Inl (PKCS11 rv), E1)" and "retries < maxRetries" and "rv \<in> set retry_errors"
  shows "pkcs11Retry_loop maxRetries sleep f retries E =
           pkcs11Retry_loop maxRetries sleep f (retries + 1) (time_Sleep (sleep + jitter sleep) E1)"
  using assms
  by (simp add: pkcs11Retry_loop_handled pkcs11HandleGenericErrors_retry)

text \<open>When every invocation fails with a code of the retry group, the loop gives up at the bound.\<close>

lemma pkcs11Retry_loop_exhausted:
  assumes always: "\<forall>E. \<exists>rv E1. f E = (Inl (PKCS11 rv), E1) \<and> rv \<in> set retry_errors"
  shows "\<exists>rv E' E1.
           pkcs11Retry_loop maxRetries sleep f retries E =
             (Inl (Errorf ''pkcs11Retry: gave up after %d retries, last error was: %s''
                     [ArgInt (max retries maxRetries), ArgErr (PKCS11 rv)]), E1)
         \<and> f E' = (Inl (PKCS11 rv), E1)"
proof (induction "nat (maxRetries - retries)" arbitrary: retries E)
  case 0
  then have bound: "maxRetries \<le> retries" by simp
  obtain rv E1 where f: "f E = (Inl (PKCS11 rv), E1)"
    using always by blast
  have "max retries maxRetries = retries" using bound by simp
  then show ?case
    using pkcs11Retry_loop_gave_up [where f = f and E = E, OF f bound, of sleep] f by auto
next
  case (Suc n)
  then have below: "retries < maxRetries" by simp
  obtain rv E1 where f: "f E = (Inl (PKCS11 rv), E1)" "rv \<in> set retry_errors"
    using always by blast
  have n: "n = nat (maxRetries - (retries + 1))" using Suc(2) by simp
  have m: "max (retries + 1) maxRetries = max retries maxRetries" using below by simp
  show ?case
    using Suc(1) [OF n, of "time_Sleep (sleep + jitter sleep) E1"]
      pkcs11Retry_loop_transient [where f = f and E = E, OF f(1) below f(2), of sleep] m
    by simp
qed


text \<open>
  A run of the loop through \<open>k\<close> invocations that fail with codes of the retry group:
  \<open>S i\<close> is the context in which invocation \<open>i\<close> starts and \<open>T i\<close> the context it
  leaves; the next invocation starts after the sleep.
\<close>

lemma pkcs11Retry_loop_run:
  assumes "\<forall>i<k. f (S i) = (Inl (PKCS11 (c i)), T i) \<and> c i \<in> set retry_errors
              \<and> S (Suc i) = time_Sleep (sleep + jitter sleep) (T i)"
    and "retries + int k \<le> maxRetries"
  shows "pkcs11Retry_loop maxRetries sleep f retries (S 0) =
           pkcs11Retry_loop maxRetries sleep f (retries + int k) (S k)"
  using assms
proof (induction k)
  case 0
  then show ?case by simp
next
  case (Suc k)
  have before: "pkcs11Retry_loop maxRetries sleep f retries (S 0) =
           pkcs11Retry_loop maxRetries sleep f (retries + int k) (S k)"
    using Suc by simp
  have f: "f (S k) = (Inl (PKCS11 (c k)), T k)" "c k \<in> set retry_errors"
      "S (Suc k) = time_Sleep (sleep + jitter sleep) (T k)"
    using Suc(2) by simp_all
  have below: "retries + int k < maxRetries" using Suc(3) by simp
  have idx: "retries + int (Suc k) = retries + int k + 1" by simp
  have "pkcs11Retry_loop maxRetries sleep f (retries + int k) (S k) =
          pkcs11Retry_loop maxRetries sleep f (retries + int k + 1) (S (Suc k))"
    unfolding f(3)
    by (rule pkcs11Retry_loop_transient [where f = f and E = "S k", OF f(1) below f(2)])
  with before show ?case unfolding idx by (rule trans)
qed

text \<open>
  Claim C4, with the order of the checks of the loop body made explicit. One pass of the
  loop, at any count \<open>retries\<close> and from any context \<open>E\<close>, ends as follows; \<open>E1\<close> is
  the context the operation leaves, so a result with \<open>E1\<close> says that nothing was
  done after the operation, in particular that no sleep was recorded.
  \<^item> An operation that succeeds makes the loop return at once with its result.
  \<^item> An operation that fails with a return code of the unfixable group ends the loop at
    once: below the bound with the ``unfixable error'' wrapping of the code, at the bound
    with the ``gave up'' error that carries the code.
  \<^item> At the bound (\<open>maxRetries \<le> retries\<close>) every failure, whatever its type, ends the
    loop with the ``gave up after \<open>retries\<close> retries'' error that carries this last error.
  \<^item> When every invocation fails with a code of the retry group, \<^verbatim>\<open>pkcs11Retry\<close> ends
    with the ``gave up'' error after \<open>maxRetries\<close> retries, and the error it carries is
    the one of an invocation of the operation.
  \<^item> A failure that is not a \<^verbatim>\<open>pkcs11.Error\<close> is reported as a use of \<^verbatim>\<open>pkcs11Retry\<close> on
    a function that is not of the PKCS#11 context only below the bound
    (\<open>retries < maxRetries\<close>): the bound is checked before the type of the error.
  \<^item> A failure with a code of the retry group below the bound is followed by the sleep
    and by the next pass, which invokes the operation again with the count one higher.
  \<^item> In general, below the bound, a code that the error handler deals with is
    followed by the next pass, in the context the handler leaves; a code for which
    the handler returns an error ends the loop with the ``unfixable error'' wrapping
    of that error.
  \<^item> A whole run: when the first \<open>k\<close> invocations fail with codes of the retry group,
    \<open>k\<close> not above \<open>maxRetries\<close>, each followed by the sleep, then a success of the
    next invocation is the result of \<^verbatim>\<open>pkcs11Retry\<close>; its failure with \<open>k = maxRetries\<close>
    is the ``gave up after \<open>maxRetries\<close> retries'' error that carries it; and its
    failure with a code of the unfixable group with \<open>k < maxRetries\<close> is the
    ``unfixable error''. The context of the result is the one this last invocation
    leaves, after \<open>k\<close> sleeps.
\<close>

theorem pkcs11Retry_outcomes:
  "pkcs11Retry maxRetries sleep f E = pkcs11Retry_loop maxRetries sleep f 0 E
   \<and> (\<forall>v E1. f E = (Inr v, E1) \<longrightarrow>
         pkcs11Retry_loop maxRetries sleep f retries E = (Inr v, E1))
   \<and> (\<forall>rv E1. f E = (Inl (PKCS11 rv), E1) \<and> rv \<in> set unfixable_errors \<longrightarrow>
         (retries < maxRetries \<longrightarrow>
            pkcs11Retry_loop maxRetries sleep f retries E =
              (Inl (Errorf ''pkcs11Retry: unfixable error: %s'' [ArgErr (PKCS11 rv)]), E1))
       \<and> (maxRetries \<le> retries \<longrightarrow>
            pkcs11Retry_loop maxRetries sleep f retries E =
              (Inl (Errorf ''pkcs11Retry: gave up after %d retries, last error was: %s''
                      [ArgInt retries, ArgErr (PKCS11 rv)]), E1)))
   \<and> (\<forall>err E1. f E = (Inl err, E1) \<and> \<not> is_Panic err \<and> maxRetries \<le> retries \<longrightarrow>
         pkcs11Retry_loop maxRetries sleep f retries E =
           (Inl (Errorf ''pkcs11Retry: gave up after %d retries, last error was: %s''
                   [ArgInt retries, ArgErr err]), E1))
   \<and> ((\<forall>E. \<exists>rv E1. f E = (Inl (PKCS11 rv), E1) \<and> rv \<in> set retry_errors) \<longrightarrow>
         (\<exists>rv E' E1.
            pkcs11Retry maxRetries sleep f E =
              (Inl (Errorf ''pkcs11Retry: gave up after %d retries, last error was: %s''
                      [ArgInt (max 0 maxRetries), ArgErr (PKCS11 rv)]), E1)
          \<and> f E' = (Inl (PKCS11 rv), E1)))
   \<and> (\<forall>err E1. f E = (Inl err, E1) \<and> \<not> is_Panic err \<and> (\<forall>rv. err \<noteq> PKCS11 rv)
          \<and> retries < maxRetries \<longrightarrow>
         pkcs11Retry_loop maxRetries sleep f retries E =
           (Inl (Errorf ''pkcs11Retry used on non-pkcs11-context function (returned error type is not pkcs11.Error)''
                   []), E1))
   \<and> (\<forall>rv E1. f E = (Inl (PKCS11 rv), E1) \<and> rv \<in> set retry_errors \<and> retries < maxRetries \<longrightarrow>
         pkcs11Retry_loop maxRetries sleep f retries E =
           pkcs11Retry_loop maxRetries sleep f (retries + 1) (time_Sleep (sleep + jitter sleep) E1))
   \<and> (\<forall>rv E1 E2. f E = (Inl (PKCS11 rv), E1) \<and> retries < maxRetries
          \<and> pkcs11HandleGenericErrors E1 rv sleep = (None, E2) \<longrightarrow>
         pkcs11Retry_loop maxRetries sleep f retries E =
           pkcs11Retry_loop maxRetries sleep f (retries + 1) E2)
   \<and> (\<forall>rv E1 err' E2. f E = (Inl (PKCS11 rv), E1) \<and> retries < maxRetries
          \<and> pkcs11HandleGenericErrors E1 rv sleep = (Some err', E2) \<and> \<not> is_Panic err' \<longrightarrow>
         pkcs11Retry_loop maxRetries sleep f retries E =
           (Inl (Errorf ''pkcs11Retry: unfixable error: %s'' [ArgErr err']), E2))
   \<and> (\<forall>k S T c.
         S 0 = E \<and> int k \<le> maxRetries
         \<and> (\<forall>i<k. f (S i) = (Inl (PKCS11 (c i)), T i) \<and> c i \<in> set retry_errors
                \<and> S (Suc i) = time_Sleep (sleep + jitter sleep) (T i)) \<longrightarrow>
         (\<forall>v E1. f (S k) = (Inr v, E1) \<longrightarrow> pkcs11Retry maxRetries sleep f E = (Inr v, E1))
       \<and> (\<forall>err E1. f (S k) = (Inl err, E1) \<and> \<not> is_Panic err \<and> int k = maxRetries \<longrightarrow>
             pkcs11Retry maxRetries sleep f E =
               (Inl (Errorf ''pkcs11Retry: gave up after %d retries, last error was: %s''
                       [ArgInt maxRetries, ArgErr err]), E1))
       \<and> (\<forall>rv E1. f (S k) = (Inl (PKCS11 rv), E1) \<and> rv \<in> set unfixable_errors
                \<and> int k < maxRetries \<longrightarrow>
             pkcs11Retry maxRetries sleep f E =
               (Inl (Errorf ''pkcs11Retry: unfixable error: %s'' [ArgErr (PKCS11 rv)]), E1)))"
proof -
  have run: "(\<forall>v E1. f (S k) = (Inr v, E1) \<longrightarrow> pkcs11Retry maxRetries sleep f E = (Inr v, E1))
       \<and> (\<forall>err E1. f (S k) = (Inl err, E1) \<and> \<not> is_Panic err \<and> int k = maxRetries \<longrightarrow>
             pkcs11Retry maxRetries sleep f E =
               (Inl (Errorf ''pkcs11Retry: gave up after %d retries, last error was: %s''
                       [ArgInt maxRetries, ArgErr err]), E1))
       \<and> (\<forall>rv E1. f (S k) = (Inl (PKCS11 rv), E1) \<and> rv \<in> set unfixable_errors
                \<and> int k < maxRetries \<longrightarrow>
             pkcs11Retry maxRetries sleep f E =
               (Inl (Errorf ''pkcs11Retry: unfixable error: %s'' [ArgErr (PKCS11 rv)]), E1))"
    if start: "S 0 = E" and k: "int k \<le> maxRetries"
      and fails: "\<forall>i<k. f (S i) = (Inl (PKCS11 (c i)), T i) \<and> c i \<in> set retry_errors
                \<and> S (Suc i) = time_Sleep (sleep + jitter sleep) (T i)"
    for k S T c
  proof -
    have upto: "pkcs11Retry maxRetries sleep f E = pkcs11Retry_loop maxRetries sleep f (int k) (S k)"
      using pkcs11Retry_loop_run [where f = f and S = S and c = c and T = T and k = k
          and retries = 0 and maxRetries = maxRetries and sleep = sleep] fails k start
      by (simp add: pkcs11Retry_def)
    have a: "pkcs11Retry maxRetries sleep f E = (Inr v, E1)" if "f (S k) = (Inr v, E1)" for v E1
      using upto pkcs11Retry_loop_success [where f = f and E = "S k", OF that] by simp
    have b: "pkcs11Retry maxRetries sleep f E =
               (Inl (Errorf ''pkcs11Retry: gave up after %d retries, last error was: %s''
                       [ArgInt maxRetries, ArgErr err]), E1)"
      if "f (S k) = (Inl err, E1)" "\<not> is_Panic err" "int k = maxRetries" for err E1
      using upto pkcs11Retry_loop_gave_up [where f = f and E = "S k", OF that(1), of maxRetries "int k" sleep]
        that(2,3)
      by simp
    have c: "pkcs11Retry maxRetries sleep f E =
               (Inl (Errorf ''pkcs11Retry: unfixable error: %s'' [ArgErr (PKCS11 rv)]), E1)"
      if "f (S k) = (Inl (PKCS11 rv), E1)" "rv \<in> set unfixable_errors" "int k < maxRetries" for rv E1
      using upto pkcs11Retry_loop_unfixable [where f = f and E = "S k", OF that(1,3,2), of sleep]
      by simp
    show ?thesis using a b c by blast
  qed
  have fatal_bound: "pkcs11Retry_loop maxRetries sleep f retries E =
              (Inl (Errorf ''pkcs11Retry: gave up after %d retries, last error was: %s''
                      [ArgInt retries, ArgErr (PKCS11 rv)]), E1)"
    if "f E = (Inl (PKCS11 rv), E1)" "maxRetries \<le> retries" for rv E1
    using pkcs11Retry_loop_gave_up [where f = f and E = E, OF that, of sleep] by simp
  have bound: "pkcs11Retry_loop maxRetries sleep f retries E =
           (Inl (Errorf ''pkcs11Retry: gave up after %d retries, last error was: %s''
                   [ArgInt retries, ArgErr err]), E1)"
    if "f E = (Inl err, E1)" "\<not> is_Panic err" "maxRetries \<le> retries" for err E1
    using pkcs11Retry_loop_gave_up [where f = f and E = E, OF that(1,3), of sleep] that(2) by simp
  have contract: "pkcs11Retry_loop maxRetries sleep f retries E =
           (Inl (Errorf ''pkcs11Retry used on non-pkcs11-context function (returned error type is not pkcs11.Error)''
                   []), E1)"
    if "f E = (Inl err, E1)" "\<not> is_Panic err" "\<forall>rv. err \<noteq> PKCS11 rv" "retries < maxRetries"
    for err E1
    using pkcs11Retry_loop_not_pkcs11 [where f = f and E = E, OF that(1,4,3), of sleep] that(2)
    by simp
  have exhausted: "\<exists>rv E' E1.
            pkcs11Retry maxRetries sleep f E =
              (Inl (Errorf ''pkcs11Retry: gave up after %d retries, last error was: %s''
                      [ArgInt (max 0 maxRetries), ArgErr (PKCS11 rv)]), E1)
          \<and> f E' = (Inl (PKCS11 rv), E1)"
    if "\<forall>E. \<exists>rv E1. f E = (Inl (PKCS11 rv), E1) \<and> rv \<in> set retry_errors"
    using pkcs11Retry_loop_exhausted [OF that, of maxRetries sleep 0 E]
    by (simp add: pkcs11Retry_def)
  have one_pass: "pkcs11Retry maxRetries sleep f E = pkcs11Retry_loop maxRetries sleep f 0 E
   \<and> (\<forall>v E1. f E = (Inr v, E1) \<longrightarrow>
         pkcs11Retry_loop maxRetries sleep f retries E = (Inr v, E1))
   \<and> (\<forall>rv E1. f E = (Inl (PKCS11 rv), E1) \<and> rv \<in> set unfixable_errors \<longrightarrow>
         (retries < maxRetries \<longrightarrow>
            pkcs11Retry_loop maxRetries sleep f retries E =
              (Inl (Errorf ''pkcs11Retry: unfixable error: %s'' [ArgErr (PKCS11 rv)]), E1))
       \<and> (maxRetries \<le> retries \<longrightarrow>
            pkcs11Retry_loop maxRetries sleep f retries E =
              (Inl (Errorf ''pkcs11Retry: gave up after %d retries, last error was: %s''
                      [ArgInt retries, ArgErr (PKCS11 rv)]), E1)))"
    using pkcs11Retry_loop_success [where f = f and E = E]
      pkcs11Retry_loop_unfixable [where f = f and E = E]
      fatal_bound
    by (simp add: pkcs11Retry_def)
  have step: "pkcs11Retry_loop maxRetries sleep f retries E =
           pkcs11Retry_loop maxRetries sleep f (retries + 1) (time_Sleep (sleep + jitter sleep) E1)"
    if "f E = (Inl (PKCS11 rv), E1)" "rv \<in> set retry_errors" "retries < maxRetries" for rv E1
    using pkcs11Retry_loop_transient [where f = f and E = E, OF that(1,3,2), of sleep] .
  have handled_on: "pkcs11Retry_loop maxRetries sleep f retries E =
           pkcs11Retry_loop maxRetries sleep f (retries + 1) E2"
    if "f E = (Inl (PKCS11 rv), E1)" "retries < maxRetries"
      "pkcs11HandleGenericErrors E1 rv sleep = (None, E2)" for rv E1 E2
    using pkcs11Retry_loop_handled [where f = f and E = E, OF that(1,2), of sleep] that(3) by simp
  have handled_off: "pkcs11Retry_loop maxRetries sleep f retries E =
           (Inl (Errorf ''pkcs11Retry: unfixable error: %s'' [ArgErr err']), E2)"
    if "f E = (Inl (PKCS11 rv), E1)" "retries < maxRetries"
      "pkcs11HandleGenericErrors E1 rv sleep = (Some err', E2)" "\<not> is_Panic err'" for rv E1 err' E2
    using pkcs11Retry_loop_handled [where f = f and E = E, OF that(1,2), of sleep] that(3,4) by simp
  have c4: "(\<forall>err E1. f E = (Inl err, E1) \<and> \<not> is_Panic err \<and> maxRetries \<le> retries \<longrightarrow>
         pkcs11Retry_loop maxRetries sleep f retries E =
           (Inl (Errorf ''pkcs11Retry: gave up after %d retries, last error was: %s''
                   [ArgInt retries, ArgErr err]), E1))"
    using bound by blast
  have c5: "((\<forall>E. \<exists>rv E1. f E = (Inl (PKCS11 rv), E1) \<and> rv \<in> set retry_errors) \<longrightarrow>
         (\<exists>rv E' E1.
            pkcs11Retry maxRetries sleep f E =
              (Inl (Errorf ''pkcs11Retry: gave up after %d retries, last error was: %s''
                      [ArgInt (max 0 maxRetries), ArgErr (PKCS11 rv)]), E1)
          \<and> f E' = (Inl (PKCS11 rv), E1)))"
    using exhausted by blast
  have c6: "(\<forall>err E1. f E = (Inl err, E1) \<and> \<not> is_Panic err \<and> (\<forall>rv. err \<noteq> PKCS11 rv)
          \<and> retries < maxRetries \<longrightarrow>
         pkcs11Retry_loop maxRetries sleep f retries E =
           (Inl (Errorf ''pkcs11Retry used on non-pkcs11-context function (returned error type is not pkcs11.Error)''
                   []), E1))"
    using contract by blast
  have c7: "(\<forall>rv E1. f E = (Inl (PKCS11 rv), E1) \<and> rv \<in> set retry_errors \<and> retries < maxRetries \<longrightarrow>
         pkcs11Retry_loop maxRetries sleep f retries E =
           pkcs11Retry_loop maxRetries sleep f (retries + 1) (time_Sleep (sleep + jitter sleep) E1))"
    using step by blast
  have c8: "(\<forall>rv E1 E2. f E = (Inl (PKCS11 rv), E1) \<and> retries < maxRetries
          \<and> pkcs11HandleGenericErrors E1 rv sleep = (None, E2) \<longrightarrow>
         pkcs11Retry_loop maxRetries sleep f retries E =
           pkcs11Retry_loop maxRetries sleep f (retries + 1) E2)"
    using handled_on by blast
  have c9: "(\<forall>rv E1 err' E2. f E = (Inl (PKCS11 rv), E1) \<and> retries < maxRetries
          \<and> pkcs11HandleGenericErrors E1 rv sleep = (Some err', E2) \<and> \<not> is_Panic err' \<longrightarrow>
         pkcs11Retry_loop maxRetries sleep f retries E =
           (Inl (Errorf ''pkcs11Retry: unfixable error: %s'' [ArgErr err']), E2))"
    using handled_off by blast
  have c10: "(\<forall>k S T c.
         S 0 = E \<and> int k \<le> maxRetries
         \<and> (\<forall>i<k. f (S i) = (Inl (PKCS11 (c i)), T i) \<and> c i \<in> set retry_errors
                \<and> S (Suc i) = time_Sleep (sleep + jitter sleep) (T i)) \<longrightarrow>
         (\<forall>v E1. f (S k) = (Inr v, E1) \<longrightarrow> pkcs11Retry maxRetries sleep f E = (Inr v, E1))
       \<and> (\<forall>err E1. f (S k) = (Inl err, E1) \<and> \<not> is_Panic err \<and> int k = maxRetries \<longrightarrow>
             pkcs11Retry maxRetries sleep f E =
               (Inl (Errorf ''pkcs11Retry: gave up after %d retries, last error was: %s''
                       [ArgInt maxRetries, ArgErr err]), E1))
       \<and> (\<forall>rv E1. f (S k) = (Inl (PKCS11 rv), E1) \<and> rv \<in> set unfixable_errors
                \<and> int k < maxRetries \<longrightarrow>
             pkcs11Retry maxRetries sleep f E =
               (Inl (Errorf ''pkcs11Retry: unfixable error: %s'' [ArgErr (PKCS11 rv)]), E1)))"
    using run by blast
  note c1 = one_pass [THEN conjunct1]
  note c2 = one_pass [THEN conjunct2, THEN conjunct1]
  note c3 = one_pass [THEN conjunct2, THEN conjunct2]
  show ?thesis
    by (intro conjI) (rule c1 c2 c3 c4 c5 c6 c7 c8 c9 c10)+
qed


text \<open>
  The theorem at operations on the empty token: a success, a code of the unfixable
  group below and at the bound, a code of the retry group at every invocation, an
  error that is no \<^verbatim>\<open>pkcs11.Error\<close>, and the operation that fails twice with a code of
  the retry group and then succeeds, with three retries and with one.
\<close>

theorem pkcs11Retry_outcomes_witness:
  "pkcs11Retry 3 5 (\<lambda>E. (Inr (7::nat), E)) context0 = (Inr 7, context0)
   \<and> pkcs11Retry 3 5 (\<lambda>E. (Inl (PKCS11 CKR_PIN_INCORRECT) :: go_error + unit, E)) context0
       = (Inl (Errorf ''pkcs11Retry: unfixable error: %s'' [ArgErr (PKCS11 CKR_PIN_INCORRECT)]), context0)
   \<and> pkcs11Retry 0 5 (\<lambda>E. (Inl (PKCS11 CKR_PIN_INCORRECT) :: go_error + unit, E)) context0
       = (Inl (Errorf ''pkcs11Retry: gave up after %d retries, last error was: %s''
                 [ArgInt 0, ArgErr (PKCS11 CKR_PIN_INCORRECT)]), context0)
   \<and> (\<exists>rv E1. pkcs11Retry 3 5 (\<lambda>E. (Inl (PKCS11 CKR_DEVICE_ERROR) :: go_error + unit, E)) context0
                = (Inl (Errorf ''pkcs11Retry: gave up after %d retries, last error was: %s''
                          [ArgInt 3, ArgErr (PKCS11 rv)]), E1))
   \<and> pkcs11Retry 3 5 (\<lambda>E. (Inl (External ''timeout'') :: go_error + unit, E)) context0
       = (Inl (Errorf ''pkcs11Retry used on non-pkcs11-context function (returned error type is not pkcs11.Error)''
                 []), context0)
   \<and> pkcs11Retry 3 5 flaky context0 = (Inr (), context0 \<lparr> slept := [5, 5] \<rparr>)
   \<and> pkcs11Retry 1 5 flaky context0
       = (Inl (Errorf ''pkcs11Retry: gave up after %d retries, last error was: %s''
                 [ArgInt 1, ArgErr (PKCS11 CKR_DEVICE_ERROR)]), context0 \<lparr> slept := [5] \<rparr>)"
proof -
  let ?S = "\<lambda>i. context0 \<lparr> slept := replicate i (5::int) \<rparr>"
  let ?c = "\<lambda>i::nat. CKR_DEVICE_ERROR"
  have start: "?S 0 = context0" by (simp add: context0_def)
  have fails: "\<forall>i<k. flaky (?S i) = (Inl (PKCS11 (?c i)), ?S i) \<and> ?c i \<in> set retry_errors
                  \<and> ?S (Suc i) = time_Sleep (5 + jitter 5) (?S i)" if "k \<le> 2" for k
    using that by (simp add: flaky_def time_Sleep_def jitter_def retry_errors_def)
  have third: "flaky (?S 2) = (Inr (), ?S 2)" by (simp add: flaky_def)
  have second: "flaky (?S 1) = (Inl (PKCS11 CKR_DEVICE_ERROR), ?S 1)" by (simp add: flaky_def)
  have g: "pkcs11Retry 3 5 flaky context0 = (Inr (), ?S 2)"
    using pkcs11Retry_outcomes [of 3 5 flaky context0 0, THEN conjunct2, THEN conjunct2,
        THEN conjunct2, THEN conjunct2, THEN conjunct2, THEN conjunct2, THEN conjunct2,
        THEN conjunct2, THEN conjunct2, rule_format,
        where k = 2 and S = ?S and T = ?S and c = ?c] start fails [of 2] third
    by simp
  have h: "pkcs11Retry 1 5 flaky context0
       = (Inl (Errorf ''pkcs11Retry: gave up after %d retries, last error was: %s''
                 [ArgInt 1, ArgErr (PKCS11 CKR_DEVICE_ERROR)]), ?S 1)"
    using pkcs11Retry_outcomes [of 1 5 flaky context0 0, THEN conjunct2, THEN conjunct2,
        THEN conjunct2, THEN conjunct2, THEN conjunct2, THEN conjunct2, THEN conjunct2,
        THEN conjunct2, THEN conjunct2, rule_format,
        where k = 1 and S = ?S and T = ?S and c = ?c] start fails [of 1] second
    by simp
  have fatal: "CKR_PIN_INCORRECT \<in> set unfixable_errors"
    by (simp add: unfixable_errors_def)
  have transient: "CKR_DEVICE_ERROR \<in> set retry_errors"
    by (simp add: retry_errors_def)
  have a: "pkcs11Retry 3 5 (\<lambda>E. (Inr (7::nat), E)) context0 = (Inr 7, context0)"
    using pkcs11Retry_outcomes [of 3 5 "\<lambda>E. (Inr (7::nat), E)" context0 0] by simp
  have b: "pkcs11Retry 3 5 (\<lambda>E. (Inl (PKCS11 CKR_PIN_INCORRECT) :: go_error + unit, E)) context0
       = (Inl (Errorf ''pkcs11Retry: unfixable error: %s'' [ArgErr (PKCS11 CKR_PIN_INCORRECT)]), context0)"
    using pkcs11Retry_outcomes
        [of 3 5 "\<lambda>E. (Inl (PKCS11 CKR_PIN_INCORRECT) :: go_error + unit, E)" context0 0] fatal
    by simp
  have c: "pkcs11Retry 0 5 (\<lambda>E. (Inl (PKCS11 CKR_PIN_INCORRECT) :: go_error + unit, E)) context0
       = (Inl (Errorf ''pkcs11Retry: gave up after %d retries, last error was: %s''
                 [ArgInt 0, ArgErr (PKCS11 CKR_PIN_INCORRECT)]), context0)"
    using pkcs11Retry_outcomes
        [of 0 5 "\<lambda>E. (Inl (PKCS11 CKR_PIN_INCORRECT) :: go_error + unit, E)" context0 0] fatal
    by simp
  let ?f = "\<lambda>E :: token ECDSAPKCS11CryptoContext. (Inl (PKCS11 CKR_DEVICE_ERROR) :: go_error + unit, E)"
  have d0: "\<exists>rv E' E1. pkcs11Retry 3 5 ?f context0
                = (Inl (Errorf ''pkcs11Retry: gave up after %d retries, last error was: %s''
                          [ArgInt (max 0 3), ArgErr (PKCS11 rv)]), E1)
              \<and> ?f E' = (Inl (PKCS11 rv), E1)"
    by (rule mp [OF pkcs11Retry_outcomes [of 3 5 ?f context0 0,
          THEN conjunct2, THEN conjunct2, THEN conjunct2, THEN conjunct2, THEN conjunct1]])
       (simp add: transient)
  then obtain rv E1 where "pkcs11Retry 3 5 ?f context0
                = (Inl (Errorf ''pkcs11Retry: gave up after %d retries, last error was: %s''
                          [ArgInt (max 0 3), ArgErr (PKCS11 rv)]), E1)"
    by blast
  then have d: "\<exists>rv E1. pkcs11Retry 3 5 ?f context0
                = (Inl (Errorf ''pkcs11Retry: gave up after %d retries, last error was: %s''
                          [ArgInt 3, ArgErr (PKCS11 rv)]), E1)"
    by simp
  have e: "pkcs11Retry 3 5 (\<lambda>E. (Inl (External ''timeout'') :: go_error + unit, E)) context0
       = (Inl (Errorf ''pkcs11Retry used on non-pkcs11-context function (returned error type is not pkcs11.Error)''
                 []), context0)"
    using pkcs11Retry_outcomes
        [of 3 5 "\<lambda>E. (Inl (External ''timeout'') :: go_error + unit, E)" context0 0]
    by simp
  have two: "replicate 2 (5::int) = [5, 5]" by (simp add: numeral_2_eq_2)
  show ?thesis using a b c d e g h unfolding two by simp
qed

text \<open>
  With \<open>maxRetries = 0\<close> the first failure is already at the bound: an operation that
  fails with an error that is not a \<^verbatim>\<open>pkcs11.Error\<close> gets the ``gave up after 0 retries''
  error, not the error about the use on a function that is not of the PKCS#11 context.
\<close>

theorem pkcs11Retry_foreign_error_at_the_bound:
  "pkcs11Retry 0 5 (\<lambda>E. (Inl (External ''timeout'') :: go_error + unit, E)) context0
     = (Inl (Errorf ''pkcs11Retry: gave up after %d retries, last error was: %s''
               [ArgInt 0, ArgErr (External ''timeout'')]), context0)
   \<and> fst (pkcs11Retry 0 5 (\<lambda>E. (Inl (External ''timeout'') :: go_error + unit, E)) context0)
     \<noteq> Inl (Errorf ''pkcs11Retry used on non-pkcs11-context function (returned error type is not pkcs11.Error)''
               [])"
  using pkcs11Retry_loop_gave_up
      [of "\<lambda>E. (Inl (External ''timeout'') :: go_error + unit, E)" context0 "External ''timeout''"
          context0 0 0 5]
  by (simp add: pkcs11Retry_def)

section \<open>PrivateKeyExists\<close>

lemma PrivateKeyExists_query:
  "PrivateKeyExists E uid =
     (case pkcs11GetObjects E uid CKO_PRIVATE_KEY 5 of
        (Inl err, E') \<Rightarrow>
          ((True, Some (wrapping err (Errorf ''getting object failed: %s'' [ArgErr err]))), E')
      | (Inr objs, E') \<Rightarrow>
          ((length objs \<noteq> 0,
            if length objs = 1 \<or> length objs = 0 then None
            else Some (Errorf ''found two or more private keys for the UUID '%s', this should never happen''
                         [ArgStr (uuid_String uid)])), E'))"
  by (simp add: PrivateKeyExists_def Let_def split: prod.split sum.split)

text \<open>
  Claim C8: \<^verbatim>\<open>PrivateKeyExists\<close> queries the device for at most five private key objects
  with the identity as their id. When the query fails it answers \<open>True\<close> together with
  the ``getting object failed'' error (a panic inside the query is passed on unchanged);
  when the query finds exactly one object it answers \<open>True\<close> without error, when it finds
  none \<open>False\<close> without error, and when it finds two or more \<open>True\<close> together with the
  error that says so. The context is the one the query leaves.
\<close>

theorem PrivateKeyExists_assumes_key_on_error:
  assumes "pkcs11GetObjects E uid CKO_PRIVATE_KEY 5 = (r, E')"
  shows "(\<forall>err. r = Inl err \<longrightarrow>
            PrivateKeyExists E uid =
              ((True, Some (wrapping err (Errorf ''getting object failed: %s'' [ArgErr err]))), E'))
       \<and> (\<forall>objs. r = Inr objs \<longrightarrow>
            (length objs = 1 \<longrightarrow> PrivateKeyExists E uid = ((True, None), E'))
          \<and> (length objs = 0 \<longrightarrow> PrivateKeyExists E uid = ((False, None), E'))
          \<and> (2 \<le> length objs \<longrightarrow>
               PrivateKeyExists E uid =
                 ((True, Some (Errorf ''found two or more private keys for the UUID '%s', this should never happen''
                                 [ArgStr (uuid_String uid)])), E')))"
  using assms by (auto simp: PrivateKeyExists_query)

text \<open>The theorem on the tokens with no, one and two private key objects for the
  identity, and on the token whose object search fails.\<close>

theorem PrivateKeyExists_assumes_key_on_error_witness:
  "fst (PrivateKeyExists context0 (replicate 16 1)) = (False, None)
   \<and> fst (PrivateKeyExists context1 (replicate 16 1)) = (True, None)
   \<and> fst (PrivateKeyExists context2 (replicate 16 1))
       = (True, Some (Errorf ''found two or more private keys for the UUID '%s', this should never happen''
                        [ArgStr ''01010101-0101-0101-0101-010101010101'']))
   \<and> fst (PrivateKeyExists context_broken (replicate 16 1))
       = (True, Some (Errorf ''getting object failed: %s''
                        [ArgErr (Errorf ''pkcs11Retry: unfixable error: %s''
                                   [ArgErr (PKCS11 CKR_GENERAL_ERROR)])]))"
proof -
  let ?uid = "replicate 16 (1::byte)"
  let ?err = "Errorf ''pkcs11Retry: unfixable error: %s'' [ArgErr (PKCS11 CKR_GENERAL_ERROR)]"
  have q0: "fst (pkcs11GetObjects context0 ?uid CKO_PRIVATE_KEY 5) = Inr []" by code_simp
  have q1: "map_sum (\<lambda>err. ()) length (fst (pkcs11GetObjects context1 ?uid CKO_PRIVATE_KEY 5)) = Inr 1"
    by code_simp
  have q2: "map_sum (\<lambda>err. ()) length (fst (pkcs11GetObjects context2 ?uid CKO_PRIVATE_KEY 5)) = Inr 2"
    by code_simp
  have qb: "fst (pkcs11GetObjects context_broken ?uid CKO_PRIVATE_KEY 5) = Inl ?err" by code_simp
  have s: "uuid_String ?uid = ''01010101-0101-0101-0101-010101010101''" by code_simp
  have a: "fst (PrivateKeyExists context0 ?uid) = (False, None)"
    using PrivateKeyExists_assumes_key_on_error
        [of context0 ?uid "fst (pkcs11GetObjects context0 ?uid CKO_PRIVATE_KEY 5)"
            "snd (pkcs11GetObjects context0 ?uid CKO_PRIVATE_KEY 5)", OF prod.collapse [symmetric]] q0
    by auto
  have b: "fst (PrivateKeyExists context1 ?uid) = (True, None)"
    using PrivateKeyExists_assumes_key_on_error
        [of context1 ?uid "fst (pkcs11GetObjects context1 ?uid CKO_PRIVATE_KEY 5)"
            "snd (pkcs11GetObjects context1 ?uid CKO_PRIVATE_KEY 5)", OF prod.collapse [symmetric]] q1
    by (cases "fst (pkcs11GetObjects context1 ?uid CKO_PRIVATE_KEY 5)") auto
  have c: "fst (PrivateKeyExists context2 ?uid)
       = (True, Some (Errorf ''found two or more private keys for the UUID '%s', this should never happen''
                        [ArgStr ''01010101-0101-0101-0101-010101010101'']))"
    using PrivateKeyExists_assumes_key_on_error
        [of context2 ?uid "fst (pkcs11GetObjects context2 ?uid CKO_PRIVATE_KEY 5)"
            "snd (pkcs11GetObjects context2 ?uid CKO_PRIVATE_KEY 5)", OF prod.collapse [symmetric]] q2 s
    by (cases "fst (pkcs11GetObjects context2 ?uid CKO_PRIVATE_KEY 5)") auto
  have d: "fst (PrivateKeyExists context_broken ?uid)
       = (True, Some (Errorf ''getting object failed: %s'' [ArgErr ?err]))"
    using PrivateKeyExists_assumes_key_on_error
        [of context_broken ?uid "fst (pkcs11GetObjects context_broken ?uid CKO_PRIVATE_KEY 5)"
            "snd (pkcs11GetObjects context_broken ?uid CKO_PRIVATE_KEY 5)", OF prod.collapse [symmetric]] qb
    by (auto simp: wrapping_def)
  show ?thesis using a b c d by blast
qed

section \<open>SetKey\<close>

text \<open>The first two checks of \<^verbatim>\<open>SetKey\<close>: the length of the scalar and the nil identity.\<close>

lemma SetKey_unexpected_length:
  assumes "length privKeyBytes \<noteq> nistp256PrivkeyLength"
  shows "SetKey ScalarBaseMult E uid privKeyBytes =
           (Some (Errorf ''unexpected length for ECDSA private key: expected %d, got %d''
                    [ArgInt (int nistp256PrivkeyLength), ArgInt (int (length privKeyBytes))]), E)"
  using assms by (simp add: SetKey_def)

lemma SetKey_nil_uuid:
  assumes "length privKeyBytes = nistp256PrivkeyLength"
  shows "SetKey ScalarBaseMult E uuid_Nil privKeyBytes =
           (Some (Errorf (''UUID '' @ [CHR 0x22] @ ''Nil'' @ [CHR 0x22] @ ''-value'') []), E)"
  using assms by (simp add: SetKey_def)

text \<open>
  Claim C5: the only check of the value of the scalar in \<^verbatim>\<open>SetKey\<close> is the comparison
  with the order of the curve, so the scalar zero passes. On the empty token, for the
  identity of 16 ones and the scalar of 32 zero bytes, whose value is 0 and for which the
  multiplication of the base point gives the point at infinity, \<open>(0, 0)\<close> in the
  standard library, \<^verbatim>\<open>SetKey\<close> returns no error and the token holds a public and a
  private key object afterwards, the private one with the 32 zero bytes as its value.
\<close>

theorem SetKey_accepts_the_zero_scalar:
  "fst (SetKey (\<lambda>k. (0, 0)) context0 (replicate 16 1) (replicate 32 0)) = None
   \<and> big_SetBytes (replicate 32 0) = 0
   \<and> map (\<lambda>t. map_of t CKA_CLASS)
        (objects (device (snd (SetKey (\<lambda>k. (0, 0)) context0 (replicate 16 1) (replicate 32 0)))))
       = [Some (AttrUint CKO_PUBLIC_KEY), Some (AttrUint CKO_PRIVATE_KEY)]
   \<and> map (\<lambda>t. map_of t CKA_VALUE)
        (objects (device (snd (SetKey (\<lambda>k. (0, 0)) context0 (replicate 16 1) (replicate 32 0)))))
       = [None, Some (AttrBytes (replicate 32 0))]"
  by code_simp

end
